(* ===== verification/Prelude.thy ===== *)
theory Prelude
  imports Main "HOL-Library.AList" "HOL-Library.Code_Target_Nat"
begin

text \<open>
  Shared ground of the development: byte strings, Go error values with \<open>errors.Is\<close>,
  sequencing of fallible operations, the signed 64-bit wrap-around, and association lists
  standing for Go maps, with the lemmas on sums of a field that every balance proof uses.
\<close>

section \<open>Byte strings\<close>

text \<open>
  A Go \<open>[]byte\<close> and a Go \<open>string\<close> are both sequences of bytes. An Isabelle
  \<^typ>\<open>char\<close> is exactly eight bits, so both are lists of characters, and a Go
  conversion between them is the identity.
\<close>

type_synonym bytes = "char list"

definition byte :: "nat \<Rightarrow> char" where
  "byte n = char_of n"

definition code :: "char \<Rightarrow> nat" where
  "code c = of_char c"

named_theorems byte_simps \<open>evaluation of byte literals\<close>

lemma code_less_256 [simp]: "code c < 256"
  by (simp add: code_def)

lemma byte_code [simp]: "byte (code c) = c"
  by (simp add: byte_def code_def)

lemma code_byte: "code (byte n) = n mod 256"
  by (simp add: byte_def code_def)

lemma code_byte_small [simp]: "n < 256 \<Longrightarrow> code (byte n) = n"
  by (simp add: code_byte)

lemma code_inject [simp]: "code c = code d \<longleftrightarrow> c = d"
  by (metis byte_code)

section \<open>Errors and fallible sequencing\<close>

text \<open>
  \<open>Sentinel e\<close> is a package-level error variable, \<open>Errorf s\<close> an \<open>errors.New\<close> or
  \<open>fmt.Errorf\<close> without \<open>%w\<close>, and \<open>Wrapf s e\<close> a \<open>fmt.Errorf\<close> that wraps
  \<open>e\<close> with \<open>%w\<close>. \<open>errors_is\<close> is \<open>errors.Is\<close> against a sentinel.
\<close>

datatype 'e goerr = Sentinel 'e | Errorf string | Wrapf string "'e goerr"

fun errors_is :: "'e goerr \<Rightarrow> 'e \<Rightarrow> bool" where
  "errors_is (Sentinel e) s \<longleftrightarrow> e = s"
| "errors_is (Errorf _) s \<longleftrightarrow> False"
| "errors_is (Wrapf _ e) s \<longleftrightarrow> errors_is e s"

text \<open>The Go idiom \<open>x, err := m; if err != nil { return err }; f(x)\<close>.\<close>

definition and_then :: "'e + 'a \<Rightarrow> ('a \<Rightarrow> 'e + 'b) \<Rightarrow> 'e + 'b" where
  "and_then m f = (case m of Inl e \<Rightarrow> Inl e | Inr x \<Rightarrow> f x)"

text \<open>\<open>with_context s m\<close> is \<open>if err != nil { return fmt.Errorf("s: %w", err) }\<close>.\<close>

definition with_context :: "string \<Rightarrow> 'e goerr + 'a \<Rightarrow> 'e goerr + 'a" where
  "with_context s m = (case m of Inl e \<Rightarrow> Inl (Wrapf s e) | Inr x \<Rightarrow> Inr x)"

named_theorems result_simps \<open>inversion of fallible sequencing\<close>

lemma and_then_simps [simp]:
  "and_then (Inl e) f = Inl e" "and_then (Inr x) f = f x"
  by (simp_all add: and_then_def)

lemma and_then_Inr_iff [result_simps]:
  "and_then m f = Inr y \<longleftrightarrow> (\<exists>x. m = Inr x \<and> f x = Inr y)"
  by (cases m) auto

lemma and_then_Inl_iff [result_simps]:
  "and_then m f = Inl e \<longleftrightarrow> m = Inl e \<or> (\<exists>x. m = Inr x \<and> f x = Inl e)"
  by (cases m) auto

lemma with_context_simps [simp]:
  "with_context s (Inl e) = Inl (Wrapf s e)" "with_context s (Inr x) = Inr x"
  by (simp_all add: with_context_def)

lemma with_context_Inr_iff [result_simps]: "with_context s m = Inr x \<longleftrightarrow> m = Inr x"
  by (cases m) auto

lemma with_context_Inl_iff [result_simps]:
  "with_context s m = Inl e \<longleftrightarrow> (\<exists>e'. m = Inl e' \<and> e = Wrapf s e')"
  by (cases m) auto

text \<open>A guard that returns an error was passed; a nil pointer that returns one was not nil.\<close>

lemma guard_Inr_iff [result_simps]:
  "(if c then Inl e else m) = Inr y \<longleftrightarrow> \<not> c \<and> m = Inr y"
  by simp

lemma nil_guard_Inr_iff [result_simps]:
  "(case x of None \<Rightarrow> Inl e | Some a \<Rightarrow> f a) = Inr y \<longleftrightarrow> (\<exists>a. x = Some a \<and> f a = Inr y)"
  by (cases x) auto

section \<open>Signed 64-bit integers\<close>

text \<open>
  A Go \<open>int64\<close> is an \<^typ>\<open>int\<close> in the range of 64-bit two's complement; an
  arithmetic result that can leave the range is wrapped by \<open>i64\<close>.
\<close>

definition i64 :: "int \<Rightarrow> int" where
  "i64 x = (x + 2 ^ 63) mod 2 ^ 64 - 2 ^ 63"

definition in_i64 :: "int \<Rightarrow> bool" where
  "in_i64 x \<longleftrightarrow> - (2 ^ 63) \<le> x \<and> x < 2 ^ 63"

lemma i64_id [simp]: "in_i64 x \<Longrightarrow> i64 x = x"
  by (simp add: i64_def in_i64_def)

lemma in_i64_i64 [simp]: "in_i64 (i64 x)"
  using pos_mod_bound [of "2 ^ 64" "x + 2 ^ 63"] pos_mod_sign [of "2 ^ 64" "x + 2 ^ 63"]
  by (simp add: i64_def in_i64_def)

lemma i64_add_left [simp]: "i64 (i64 x + y) = i64 (x + y)"
proof -
  have "(i64 x + y + 2 ^ 63) mod 2 ^ 64 = ((x + 2 ^ 63) mod 2 ^ 64 + y) mod 2 ^ 64"
    by (simp add: i64_def algebra_simps)
  also have "\<dots> = (x + y + 2 ^ 63) mod 2 ^ 64"
    using mod_add_left_eq [of "x + 2 ^ 63" "2 ^ 64" y] by (simp add: ac_simps)
  finally show ?thesis by (simp add: i64_def)
qed

lemma i64_add_right [simp]: "i64 (x + i64 y) = i64 (x + y)"
  using i64_add_left [of y x] by (simp add: add.commute)

lemma i64_small: "\<bar>x\<bar> < 2 ^ 62 \<Longrightarrow> i64 x = x"
  by (rule i64_id) (auto simp: in_i64_def)

section \<open>Go maps as association lists\<close>

text \<open>
  A Go map is an association list with distinct keys: \<^const>\<open>AList.update\<close> stores,
  \<^const>\<open>AList.delete\<close> deletes, \<^const>\<open>map_of\<close> looks up. Iteration order is not
  observable where the code ranges over a map (it only adds numbers up or deletes).
\<close>

definition sum_on :: "('v \<Rightarrow> int) \<Rightarrow> ('k \<times> 'v) list \<Rightarrow> int" where
  "sum_on f m = sum_list (map (\<lambda>(k, v). f v) m)"

definition val_at :: "('v \<Rightarrow> int) \<Rightarrow> ('k \<rightharpoonup> 'v) \<Rightarrow> 'k \<Rightarrow> int" where
  "val_at f m k = (case m k of None \<Rightarrow> 0 | Some v \<Rightarrow> f v)"

text \<open>The sum of a field over the domain of a finite map, the abstract form of \<^const>\<open>sum_on\<close>.\<close>

definition sum_map :: "('v \<Rightarrow> int) \<Rightarrow> ('k \<rightharpoonup> 'v) \<Rightarrow> int" where
  "sum_map f m = (\<Sum>k\<in>dom m. val_at f m k)"

lemma sum_map_empty [simp]: "sum_map f Map.empty = 0"
  by (simp add: sum_map_def)

lemma sum_map_update:
  assumes "finite (dom m)"
  shows "sum_map f (m(k \<mapsto> v)) = sum_map f m - val_at f m k + f v"
proof -
  have same: "(\<Sum>j\<in>dom m - {k}. val_at f (m(k \<mapsto> v)) j) = (\<Sum>j\<in>dom m - {k}. val_at f m j)"
    by (rule sum.cong) (auto simp: val_at_def)
  have new: "sum_map f (m(k \<mapsto> v)) = f v + (\<Sum>j\<in>dom m - {k}. val_at f m j)"
    using assms same by (simp add: sum_map_def sum.insert_remove val_at_def)
  show ?thesis
  proof (cases "k \<in> dom m")
    case True
    with assms have "sum_map f m = val_at f m k + (\<Sum>j\<in>dom m - {k}. val_at f m j)"
      by (simp add: sum_map_def sum.remove)
    with new show ?thesis by simp
  next
    case False
    then have "val_at f m k = 0" "dom m - {k} = dom m"
      by (auto simp: val_at_def domIff)
    with new show ?thesis by (simp add: sum_map_def)
  qed
qed

lemma sum_map_update_same:
  "finite (dom m) \<Longrightarrow> m k = Some w \<Longrightarrow> f v = f w \<Longrightarrow> sum_map f (m(k \<mapsto> v)) = sum_map f m"
  by (simp add: sum_map_update val_at_def)

lemma sum_on_eq_sum_map: "distinct (map fst m) \<Longrightarrow> sum_on f m = sum_map f (map_of m)"
proof (induction m)
  case Nil
  then show ?case by (simp add: sum_on_def)
next
  case (Cons p m)
  obtain k v where p: "p = (k, v)" by (cases p)
  have none: "map_of m k = None"
    using Cons.prems p by (simp add: map_of_eq_None_iff)
  have "sum_on f (p # m) = f v + sum_on f m"
    by (simp add: sum_on_def p)
  also have "\<dots> = f v + sum_map f (map_of m)"
    using Cons by simp
  also have "\<dots> = sum_map f (map_of (p # m))"
    using none by (simp add: p sum_map_update finite_dom_map_of val_at_def)
  finally show ?case .
qed

lemma sum_map_nonneg_member_le:
  assumes "finite (dom m)" "\<And>k v. m k = Some v \<Longrightarrow> 0 \<le> f v" "m k = Some v"
  shows "f v \<le> sum_map f m"
proof -
  have "k \<in> dom m" using assms(3) by auto
  moreover have "\<forall>j\<in>dom m. 0 \<le> val_at f m j"
    using assms(2) by (auto simp: val_at_def)
  ultimately have "val_at f m k \<le> sum_map f m"
    unfolding sum_map_def using assms(1) by (intro member_le_sum) auto
  then show ?thesis using assms(3) by (simp add: val_at_def)
qed

text \<open>Two different accounts together hold no more than the whole.\<close>

lemma sum_map_two_le:
  assumes "finite (dom m)" "\<And>k v. m k = Some v \<Longrightarrow> 0 \<le> f v"
    and "m j = Some v" "m k = Some w" "j \<noteq> k"
  shows "f v + f w \<le> sum_map f m"
proof -
  have "sum (val_at f m) {j, k} \<le> sum_map f m"
    unfolding sum_map_def using assms by (intro sum_mono2) (auto simp: val_at_def)
  with assms(3-5) show ?thesis by (simp add: val_at_def)
qed

end
