(* ===== verification/Sha256.thy ===== *)
theory Sha256
  imports Prelude "HOL-Library.Word"
begin

text \<open>
  The parts of Go's standard library that the ledger hashes with: \<open>crypto/sha256\<close>
  (\<open>sha256.New\<close>, \<open>Write\<close>, \<open>Sum(nil)\<close>: FIPS 180-4, on 32-bit words) and
  \<open>crypto/hmac\<close> over it (RFC 2104). Writes to a hash concatenate, so a digest is a
  function of the concatenated input. Every theorem of the other theories uses only that a
  digest has 32 bytes; the functions are nevertheless the real ones and evaluate.
\<close>

unbundle bit_operations_syntax

type_synonym u32 = "32 word"

section \<open>SHA-256\<close>

definition sha_k :: "u32 list" where
  "sha_k =
    [1116352408, 1899447441, 3049323471, 3921009573, 961987163, 1508970993, 2453635748, 2870763221,
     3624381080, 310598401, 607225278, 1426881987, 1925078388, 2162078206, 2614888103, 3248222580,
     3835390401, 4022224774, 264347078, 604807628, 770255983, 1249150122, 1555081692, 1996064986,
     2554220882, 2821834349, 2952996808, 3210313671, 3336571891, 3584528711, 113926993, 338241895,
     666307205, 773529912, 1294757372, 1396182291, 1695183700, 1986661051, 2177026350, 2456956037,
     2730485921, 2820302411, 3259730800, 3345764771, 3516065817, 3600352804, 4094571909, 275423344,
     430227734, 506948616, 659060556, 883997877, 958139571, 1322822218, 1537002063, 1747873779,
     1955562222, 2024104815, 2227730452, 2361852424, 2428436474, 2756734187, 3204031479, 3329325298]"

definition sha_init :: "u32 list" where
  "sha_init = [1779033703, 3144134277, 1013904242, 2773480762,
               1359893119, 2600822924, 528734635, 1541459225]"

definition rotr :: "nat \<Rightarrow> u32 \<Rightarrow> u32" where
  "rotr n w = (drop_bit n w) OR (push_bit (32 - n) w)"

definition sha_s0 :: "u32 \<Rightarrow> u32" where
  "sha_s0 w = rotr 7 w XOR rotr 18 w XOR drop_bit 3 w"

definition sha_s1 :: "u32 \<Rightarrow> u32" where
  "sha_s1 w = rotr 17 w XOR rotr 19 w XOR drop_bit 10 w"

definition sha_S0 :: "u32 \<Rightarrow> u32" where
  "sha_S0 w = rotr 2 w XOR rotr 13 w XOR rotr 22 w"

definition sha_S1 :: "u32 \<Rightarrow> u32" where
  "sha_S1 w = rotr 6 w XOR rotr 11 w XOR rotr 25 w"

text \<open>The message schedule keeps the last sixteen words, oldest first, and emits one per round.\<close>

fun sha_next :: "u32 list \<Rightarrow> u32" where
  "sha_next w = sha_s1 (w ! 14) + w ! 9 + sha_s0 (w ! 1) + w ! 0"

fun sha_round :: "u32 \<Rightarrow> u32 \<Rightarrow> u32 list \<Rightarrow> u32 list" where
  "sha_round k w [a, b, c, d, e, f, g, h] =
     (let t1 = h + sha_S1 e + ((e AND f) XOR (NOT e AND g)) + k + w;
          t2 = sha_S0 a + ((a AND b) XOR (a AND c) XOR (b AND c))
      in [t1 + t2, a, b, c, d + t1, e, f, g])"
| "sha_round k w s = s"

fun sha_rounds :: "u32 list \<Rightarrow> u32 list \<Rightarrow> u32 list \<Rightarrow> u32 list" where
  "sha_rounds [] ws s = s"
| "sha_rounds (k # ks) ws s = sha_rounds ks (tl ws @ [sha_next ws]) (sha_round k (hd ws) s)"

definition be32 :: "bytes \<Rightarrow> u32" where
  "be32 bs = foldl (\<lambda>a c. a * 256 + of_char c) 0 bs"

fun chunks :: "nat \<Rightarrow> nat \<Rightarrow> bytes \<Rightarrow> bytes list" where
  "chunks 0 w bs = []"
| "chunks (Suc n) w bs = take w bs # chunks n w (drop w bs)"

definition sha_block :: "u32 list \<Rightarrow> bytes \<Rightarrow> u32 list" where
  "sha_block s blk = map2 (+) s (sha_rounds sha_k (map be32 (chunks 16 4 blk)) s)"

definition be_bytes :: "nat \<Rightarrow> int \<Rightarrow> bytes" where
  "be_bytes n x = map (\<lambda>i. char_of (x div 256 ^ i)) (rev [0..<n])"

definition sha_pad :: "bytes \<Rightarrow> bytes" where
  "sha_pad m = m @ [byte 0x80] @ replicate ((119 - length m mod 64) mod 64) (byte 0)
                 @ be_bytes 8 (8 * int (length m) mod 2 ^ 64)"

definition sha256 :: "bytes \<Rightarrow> bytes" where
  "sha256 m =
     (let p = sha_pad m;
          s = foldl sha_block sha_init (chunks (length p div 64) 64 p)
      in concat (map (\<lambda>w. be_bytes 4 (uint w)) s))"

definition HashSize :: nat where
  "HashSize = 32"

lemma length_be_bytes [simp]: "length (be_bytes n x) = n"
  by (simp add: be_bytes_def)

lemma length_sha_round [simp]: "length (sha_round k w s) = length s"
  by (induction k w s rule: sha_round.induct) (simp_all add: Let_def)

lemma length_sha_rounds [simp]: "length (sha_rounds ks ws s) = length s"
  by (induction ks ws s rule: sha_rounds.induct) simp_all

lemma length_sha_block [simp]: "length (sha_block s b) = length s"
  by (simp add: sha_block_def)

lemma length_sha_blocks [simp]: "length (foldl sha_block s bs) = length s"
  by (induction bs arbitrary: s) simp_all

lemma length_concat_be_bytes: "length (concat (map (\<lambda>w. be_bytes n (f w)) ws)) = n * length ws"
  by (induction ws) simp_all

text \<open>The one fact about the hash that the verification rests on.\<close>

lemma length_sha256 [simp]: "length (sha256 m) = 32"
  by (simp add: sha256_def Let_def length_concat_be_bytes sha_init_def)

declare sha_rounds.simps(2) [simp del] sha_next.simps [simp del] sha_round.simps [simp del]

section \<open>HMAC-SHA256\<close>

definition xor_byte :: "int \<Rightarrow> char \<Rightarrow> char" where
  "xor_byte k c = char_of (k XOR of_char c)"

definition hmac_key :: "bytes \<Rightarrow> bytes" where
  "hmac_key k = (let k' = (if length k > 64 then sha256 k else k)
                 in k' @ replicate (64 - length k') (byte 0))"

definition hmac_sha256 :: "bytes \<Rightarrow> bytes \<Rightarrow> bytes" where
  "hmac_sha256 key msg =
     (let k = hmac_key key
      in sha256 (map (xor_byte 0x5c) k @ sha256 (map (xor_byte 0x36) k @ msg)))"

lemma length_hmac_sha256 [simp]: "length (hmac_sha256 k m) = 32"
  by (simp add: hmac_sha256_def Let_def)

end
