(* ===== verification/Merkle.thy ===== *)
theory Merkle
  imports Sha256
begin

text \<open>
  \<open>internal/merkle/tree.go\<close>: the RFC 6962 tree over the transaction log. Roots, audit paths
  and consistency proofs are recursive on the split at the largest power of two; the
  inclusion verifier descends the same splits; the consistency verifier walks the bits of the
  two sizes. A Go \<open>int\<close> that the code has checked to be a size or an index is a
  \<^typ>\<open>nat\<close>; the arguments that are checked stay \<^typ>\<open>int\<close>.
\<close>

datatype merkle_error =
    IndexOutOfRange
  | BadSizes
  | ProofTooShort
  | ProofTooLong
  | RootMismatch
  | ProofNotEmpty
  | RootsDiffer
  | OldRootMismatch
  | NewRootMismatch

section \<open>Hashing and roots\<close>

definition LeafHash :: "bytes \<Rightarrow> bytes" where
  "LeafHash data = sha256 (CHR 0x00 # data)"

definition NodeHash :: "bytes \<Rightarrow> bytes \<Rightarrow> bytes" where
  "NodeHash left right = sha256 (CHR 0x01 # left @ right)"

text \<open>
  The loop doubles \<open>k\<close> while \<open>2 k < n\<close>; the test \<open>0 < k\<close> is always true (\<open>k\<close>
  starts at 1) and is there for termination.
\<close>

function lp2_loop :: "nat \<Rightarrow> nat \<Rightarrow> nat" where
  "lp2_loop k n = (if 0 < k \<and> k * 2 < n then lp2_loop (k * 2) n else k)"
  by pat_completeness auto
termination by (relation "measure (\<lambda>(k, n). n - k)") auto

declare lp2_loop.simps [simp del]

definition largestPowerOfTwoLessThan :: "nat \<Rightarrow> nat" where
  "largestPowerOfTwoLessThan n = (if n < 2 then 0 else lp2_loop 1 n)"

lemma lp2_loop_bounds:
  "0 < k \<Longrightarrow> k < n \<Longrightarrow> k \<le> lp2_loop k n \<and> lp2_loop k n < n \<and> n \<le> 2 * lp2_loop k n"
proof (induction k n rule: lp2_loop.induct)
  case (1 k n)
  then show ?case
    by (cases "k * 2 < n") (auto simp: lp2_loop.simps [of k n])
qed

lemma lp2_loop_power: "\<exists>a. lp2_loop (2 ^ b) n = 2 ^ a"
proof (induction "2 ^ b :: nat" n arbitrary: b rule: lp2_loop.induct)
  case (1 n)
  show ?case
  proof (cases "(2 ^ b :: nat) * 2 < n")
    case True
    moreover have "(2 ^ b :: nat) * 2 = 2 ^ Suc b" by simp
    ultimately show ?thesis
      using "1.hyps" [of "Suc b"] by (simp add: lp2_loop.simps [of "2 ^ b" n] mult.commute)
  next
    case False
    then show ?thesis by (auto simp: lp2_loop.simps [of "2 ^ b" n])
  qed
qed

text \<open>The split point: a power of two, below \<open>n\<close>, and at least half of it.\<close>

lemma split_point:
  assumes "2 \<le> n"
  obtains a where "largestPowerOfTwoLessThan n = 2 ^ a" "2 ^ a < n" "n \<le> 2 ^ Suc a"
proof -
  obtain a where "lp2_loop 1 n = 2 ^ a" using lp2_loop_power [of 0 n] by auto
  with lp2_loop_bounds [of 1 n] assms have "largestPowerOfTwoLessThan n = 2 ^ a \<and> 2 ^ a < n \<and> n \<le> 2 ^ Suc a"
    by (simp add: largestPowerOfTwoLessThan_def)
  with that show thesis by blast
qed

lemma split_bounds [simp]:
  assumes "2 \<le> n"
  shows "0 < largestPowerOfTwoLessThan n" "largestPowerOfTwoLessThan n < n"
    "n - largestPowerOfTwoLessThan n < n" "0 < n - largestPowerOfTwoLessThan n"
    "n - largestPowerOfTwoLessThan n \<le> largestPowerOfTwoLessThan n"
proof -
  obtain a where a: "largestPowerOfTwoLessThan n = 2 ^ a" "2 ^ a < n" "n \<le> 2 ^ Suc a"
    using split_point [OF assms] .
  then show "0 < largestPowerOfTwoLessThan n" "largestPowerOfTwoLessThan n < n"
    "n - largestPowerOfTwoLessThan n < n" "0 < n - largestPowerOfTwoLessThan n"
    "n - largestPowerOfTwoLessThan n \<le> largestPowerOfTwoLessThan n"
    using assms by auto
qed

text \<open>
  On the empty list the Go function recurses forever; no caller passes one. The model returns
  the empty byte string there; \<open>rootOfHashes_rec\<close> below is the code's recursion as it
  stands, with not returning as \<^const>\<open>None\<close>.
\<close>

function rootOfHashes :: "bytes list \<Rightarrow> bytes" where
  "rootOfHashes hs =
     (if length hs \<le> 1 then (case hs of h # _ \<Rightarrow> h | [] \<Rightarrow> [])
      else let k = largestPowerOfTwoLessThan (length hs)
           in NodeHash (rootOfHashes (take k hs)) (rootOfHashes (drop k hs)))"
  by pat_completeness auto
termination by (relation "measure length") (auto simp: not_le)

declare rootOfHashes.simps [simp del]

lemma rootOfHashes_single [simp]: "rootOfHashes [h] = h"
  by (simp add: rootOfHashes.simps)

lemma rootOfHashes_node:
  "2 \<le> length hs \<Longrightarrow>
   rootOfHashes hs = NodeHash (rootOfHashes (take (largestPowerOfTwoLessThan (length hs)) hs))
                              (rootOfHashes (drop (largestPowerOfTwoLessThan (length hs)) hs))"
  by (simp add: rootOfHashes.simps [of hs] Let_def)

definition Root :: "bytes list \<Rightarrow> bytes" where
  "Root leaves = (if leaves = [] then sha256 [] else rootOfHashes (map LeafHash leaves))"

definition RootFromLeafHashes :: "bytes list \<Rightarrow> bytes" where
  "RootFromLeafHashes leafHashes = (if leafHashes = [] then sha256 [] else rootOfHashes leafHashes)"

partial_function (option) rootOfHashes_rec :: "bytes list \<Rightarrow> bytes option" where
  "rootOfHashes_rec hs =
     (if length hs = 1 then Some (hs ! 0)
      else let k = largestPowerOfTwoLessThan (length hs)
           in Option.bind (rootOfHashes_rec (take k hs)) (\<lambda>left.
              Option.bind (rootOfHashes_rec (drop k hs)) (\<lambda>right.
              Some (NodeHash left right))))"

section \<open>Inclusion proofs\<close>

function inclusionProof :: "bytes list \<Rightarrow> nat \<Rightarrow> bytes list" where
  "inclusionProof hs index =
     (if length hs \<le> 1 then []
      else let k = largestPowerOfTwoLessThan (length hs)
           in if index < k then inclusionProof (take k hs) index @ [rootOfHashes (drop k hs)]
              else inclusionProof (drop k hs) (index - k) @ [rootOfHashes (take k hs)])"
  by pat_completeness auto
termination by (relation "measure (\<lambda>(hs, i). length hs)") (auto simp: not_le)

declare inclusionProof.simps [simp del]

definition InclusionProofFromHashes :: "bytes list \<Rightarrow> int \<Rightarrow> merkle_error + bytes list" where
  "InclusionProofFromHashes leafHashes index =
     (if index < 0 \<or> index \<ge> int (length leafHashes) then Inl IndexOutOfRange
      else Inr (inclusionProof leafHashes (nat index)))"

definition InclusionProof :: "bytes list \<Rightarrow> int \<Rightarrow> merkle_error + bytes list" where
  "InclusionProof leaves index =
     (if index < 0 \<or> index \<ge> int (length leaves) then Inl IndexOutOfRange
      else Inr (inclusionProof (map LeafHash leaves) (nat index)))"

text \<open>
  The verifier consumes the proof from its end; it returns the root of the subtree and the
  number of unused proof elements. Sizes below 1 do not occur (\<open>VerifyInclusion\<close> checks).
\<close>

function verifyDescend :: "bytes \<Rightarrow> nat \<Rightarrow> nat \<Rightarrow> bytes list \<Rightarrow> merkle_error + bytes \<times> nat" where
  "verifyDescend leafHash index sz proof =
     (if sz \<le> 1 then Inr (leafHash, length proof)
      else if proof = [] then Inl ProofTooShort
      else let k = largestPowerOfTwoLessThan sz; sibling = last proof; inner = butlast proof
           in if index < k then
                and_then (verifyDescend leafHash index k inner)
                  (\<lambda>(sub, rem). Inr (NodeHash sub sibling, rem))
              else
                and_then (verifyDescend leafHash (index - k) (sz - k) inner)
                  (\<lambda>(sub, rem). Inr (NodeHash sibling sub, rem)))"
  by pat_completeness auto
termination by (relation "measure (\<lambda>(l, i, n, p). n)") (auto simp: not_le)

declare verifyDescend.simps [simp del]

definition VerifyInclusion ::
    "bytes \<Rightarrow> bytes \<Rightarrow> int \<Rightarrow> int \<Rightarrow> bytes list \<Rightarrow> merkle_error + unit" where
  "VerifyInclusion rootHash leafHash index treeSize proof =
     (if index < 0 \<or> index \<ge> treeSize then Inl IndexOutOfRange
      else and_then (verifyDescend leafHash (nat index) (nat treeSize) proof)
        (\<lambda>(h, remaining). if remaining \<noteq> 0 then Inl ProofTooLong
                           else if h \<noteq> rootHash then Inl RootMismatch else Inr ()))"

section \<open>Consistency proofs\<close>

function subProof :: "bytes list \<Rightarrow> nat \<Rightarrow> nat \<Rightarrow> bool \<Rightarrow> bytes list" where
  "subProof hs m n b =
     (if m = n then (if b then [] else [rootOfHashes (take n hs)])
      else if n < 2 then []
      else let k = largestPowerOfTwoLessThan n
           in if m \<le> k then subProof (take k hs) m k b @ [rootOfHashes (drop k (take n hs))]
              else subProof (drop k hs) (m - k) (n - k) False @ [rootOfHashes (take k hs)])"
  by pat_completeness auto
termination by (relation "measure (\<lambda>(hs, m, n, b). n)") (auto simp: not_less)

declare subProof.simps [simp del]

definition ConsistencyProofFromHashes :: "bytes list \<Rightarrow> int \<Rightarrow> int \<Rightarrow> merkle_error + bytes list" where
  "ConsistencyProofFromHashes leafHashes m n =
     (if m \<le> 0 \<or> m > n \<or> n > int (length leafHashes) then Inl BadSizes
      else Inr (subProof leafHashes (nat m) (nat n) True))"

definition ConsistencyProof :: "bytes list \<Rightarrow> int \<Rightarrow> int \<Rightarrow> merkle_error + bytes list" where
  "ConsistencyProof leaves m n =
     (if m \<le> 0 \<or> m > n \<or> n > int (length leaves) then Inl BadSizes
      else Inr (subProof (map LeafHash leaves) (nat m) (nat n) True))"

text \<open>
  The verifier works on \<open>uint64\<close> values: \<open>u64\<close> is the conversion, a shift is a division
  by two, and \<open>m & 1\<close> is parity.
\<close>

definition u64 :: "int \<Rightarrow> nat" where
  "u64 x = nat (x mod 2 ^ 64)"

function strip_ones :: "nat \<Rightarrow> nat \<Rightarrow> nat \<times> nat" where
  "strip_ones mm nn = (if odd mm then strip_ones (mm div 2) (nn div 2) else (mm, nn))"
  by pat_completeness auto
termination by (relation "measure fst") (auto elim: oddE)

declare strip_ones.simps [simp del]

fun skip_zeros :: "nat \<Rightarrow> nat \<Rightarrow> nat \<times> nat" where
  "skip_zeros mm nn = (if even mm \<and> mm > 0 then skip_zeros (mm div 2) (nn div 2) else (mm, nn))"

declare skip_zeros.simps [simp del]

lemma snd_skip_zeros_le: "snd (skip_zeros mm nn) \<le> nn"
proof (induction mm nn rule: skip_zeros.induct)
  case (1 mm nn)
  show ?case
  proof (cases "even mm \<and> mm > 0")
    case True
    with 1 have "snd (skip_zeros (mm div 2) (nn div 2)) \<le> nn div 2" by simp
    with True show ?thesis by (simp add: skip_zeros.simps [of mm nn])
  qed (auto simp: skip_zeros.simps [of mm nn])
qed

function walk_loop :: "bytes \<Rightarrow> bytes \<Rightarrow> bytes list \<Rightarrow> nat \<Rightarrow> nat \<Rightarrow> merkle_error + bytes \<times> bytes" where
  "walk_loop hash1 hash2 proof mm nn =
     (if nn > 0 then
        (case proof of
           [] \<Rightarrow> Inl ProofTooShort
         | sibling # rest \<Rightarrow>
             (if odd mm \<or> mm = nn then
                (let (mm', nn') = skip_zeros mm nn
                 in walk_loop (NodeHash sibling hash1) (NodeHash sibling hash2) rest (mm' div 2) (nn' div 2))
              else walk_loop hash1 (NodeHash hash2 sibling) rest (mm div 2) (nn div 2)))
      else if proof \<noteq> [] then Inl ProofTooLong
      else Inr (hash1, hash2))"
  by pat_completeness auto
termination by (relation "measure (\<lambda>(h1, h2, p, mm, nn). length p)") auto

declare walk_loop.simps [simp del]

definition walkConsistency ::
    "bytes \<Rightarrow> bytes \<Rightarrow> bytes list \<Rightarrow> int \<Rightarrow> int \<Rightarrow> merkle_error + bytes \<times> bytes" where
  "walkConsistency hash1 hash2 proof m n =
     (let (mm, nn) = strip_ones (u64 (m - 1)) (u64 (n - 1))
      in walk_loop hash1 hash2 proof mm nn)"

definition isPowerOfTwo :: "int \<Rightarrow> bool" where
  "isPowerOfTwo n \<longleftrightarrow> n > 0 \<and> (n AND (n - 1)) = 0"

definition VerifyConsistency ::
    "bytes \<Rightarrow> bytes \<Rightarrow> int \<Rightarrow> int \<Rightarrow> bytes list \<Rightarrow> merkle_error + unit" where
  "VerifyConsistency oldRoot newRoot m n proof =
     (if m = n then
        (if proof \<noteq> [] then Inl ProofNotEmpty
         else if oldRoot \<noteq> newRoot then Inl RootsDiffer else Inr ())
      else if m = 0 \<or> m > n then Inl BadSizes
      else
        (case (if isPowerOfTwo m then oldRoot # proof else proof) of
           [] \<Rightarrow> Inl ProofTooShort
         | h # rest \<Rightarrow>
             and_then (walkConsistency h h rest m n)
               (\<lambda>(oldR, newR). if oldR \<noteq> oldRoot then Inl OldRootMismatch
                                else if newR \<noteq> newRoot then Inl NewRootMismatch else Inr ())))"

end
