(* ===== verification/MerkleInclusion.thy ===== *)
theory MerkleInclusion
  imports Merkle
begin

text \<open>
  Audit paths of \<open>internal/merkle/tree.go\<close>: what \<open>InclusionProof\<close> produces,
  \<open>VerifyInclusion\<close> accepts; what \<open>VerifyInclusion\<close> accepts, is in the tree, or two
  different inputs with the same SHA-256 digest are at hand. Collision freedom is nowhere
  assumed (it is false of every hash function): the theorems name the finitely many inputs
  that the two sides hashed and say that the collision is among them.
\<close>

section \<open>Well-formed hash lists and collisions\<close>

definition hash_list :: "bytes list \<Rightarrow> bool" where
  "hash_list hs \<longleftrightarrow> list_all (\<lambda>h. length h = HashSize) hs"

definition node_input :: "bytes \<Rightarrow> bytes \<Rightarrow> bytes" where
  "node_input left right = CHR 0x01 # left @ right"

definition collides :: "bytes list \<Rightarrow> bytes list \<Rightarrow> bool" where
  "collides xs ys \<longleftrightarrow> list_ex (\<lambda>x. list_ex (\<lambda>y. x \<noteq> y \<and> sha256 x = sha256 y) ys) xs"

lemma collides_mono: "collides xs ys \<Longrightarrow> set xs \<subseteq> set xs' \<Longrightarrow> set ys \<subseteq> set ys' \<Longrightarrow> collides xs' ys'"
  by (fastforce simp: collides_def list_ex_iff)

lemma collides_node:
  "collides xs ys \<Longrightarrow> collides (x # xs) (y # ys @ zs)"
  "collides xs zs \<Longrightarrow> collides (x # xs) (y # ys @ zs)"
  by (erule collides_mono; auto)+

lemma NodeHash_node_input: "NodeHash l r = sha256 (node_input l r)"
  by (simp add: NodeHash_def node_input_def)

lemma length_NodeHash [simp]: "length (NodeHash l r) = HashSize"
  by (simp add: NodeHash_def HashSize_def)

lemma length_LeafHash [simp]: "length (LeafHash d) = HashSize"
  by (simp add: LeafHash_def HashSize_def)

lemma hash_list_LeafHash [simp]: "hash_list (map LeafHash xs)"
  by (simp add: hash_list_def list_all_iff)

lemma hash_list_take [simp]: "hash_list hs \<Longrightarrow> hash_list (take k hs)"
  by (auto simp: hash_list_def list_all_iff dest: in_set_takeD)

lemma hash_list_drop [simp]: "hash_list hs \<Longrightarrow> hash_list (drop k hs)"
  by (auto simp: hash_list_def list_all_iff dest: in_set_dropD)

lemma length_rootOfHashes: "hs \<noteq> [] \<Longrightarrow> hash_list hs \<Longrightarrow> length (rootOfHashes hs) = HashSize"
  by (cases "length hs \<le> 1") (auto simp: rootOfHashes.simps [of hs] hash_list_def Let_def split: list.splits)

text \<open>Equal node hashes have equal children, or they are the collision.\<close>

lemma NodeHash_eq_cases:
  assumes "NodeHash a b = NodeHash c d" and "length a = length c \<or> length b = length d"
  obtains "a = c" "b = d"
  | "node_input a b \<noteq> node_input c d" "sha256 (node_input a b) = sha256 (node_input c d)"
  using assms by (auto simp: NodeHash_node_input node_input_def append_eq_append_conv)

lemma NodeHash_equal:
  assumes "NodeHash a b = NodeHash c d" "length a = length c \<or> length b = length d"
  shows "(a = c \<and> b = d) \<or> collides (node_input a b # xs) (node_input c d # ys)"
  using assms by (rule NodeHash_eq_cases) (simp_all add: collides_def)

section \<open>The inputs that are hashed\<close>

function tree_inputs :: "bytes list \<Rightarrow> bytes list" where
  "tree_inputs hs =
     (if length hs \<le> 1 then []
      else let k = largestPowerOfTwoLessThan (length hs)
           in node_input (rootOfHashes (take k hs)) (rootOfHashes (drop k hs))
              # tree_inputs (take k hs) @ tree_inputs (drop k hs))"
  by pat_completeness auto
termination by (relation "measure length") (auto simp: not_le)

declare tree_inputs.simps [simp del]

text \<open>The subtree hash that \<open>verifyDescend\<close> computes, without its bookkeeping.\<close>

function descend_hash :: "bytes \<Rightarrow> nat \<Rightarrow> nat \<Rightarrow> bytes list \<Rightarrow> bytes" where
  "descend_hash leafHash index sz path =
     (if sz \<le> 1 \<or> path = [] then leafHash
      else let k = largestPowerOfTwoLessThan sz
           in if index < k then NodeHash (descend_hash leafHash index k (butlast path)) (last path)
              else NodeHash (last path) (descend_hash leafHash (index - k) (sz - k) (butlast path)))"
  by pat_completeness auto
termination by (relation "measure (\<lambda>(l, i, n, p). n)") (auto simp: not_le)

declare descend_hash.simps [simp del]

function descend_inputs :: "bytes \<Rightarrow> nat \<Rightarrow> nat \<Rightarrow> bytes list \<Rightarrow> bytes list" where
  "descend_inputs leafHash index sz path =
     (if sz \<le> 1 \<or> path = [] then []
      else let k = largestPowerOfTwoLessThan sz
           in if index < k then
                node_input (descend_hash leafHash index k (butlast path)) (last path)
                # descend_inputs leafHash index k (butlast path)
              else
                node_input (last path) (descend_hash leafHash (index - k) (sz - k) (butlast path))
                # descend_inputs leafHash (index - k) (sz - k) (butlast path))"
  by pat_completeness auto
termination by (relation "measure (\<lambda>(l, i, n, p). n)") (auto simp: not_le)

declare descend_inputs.simps [simp del]

lemma verifyDescend_hash:
  "verifyDescend leafHash index sz path = Inr (h, rem) \<Longrightarrow> h = descend_hash leafHash index sz path"
proof (induction leafHash index sz path arbitrary: h rem rule: verifyDescend.induct)
  case (1 leafHash index sz path)
  then show ?case
    by (auto simp: verifyDescend.simps [of leafHash index sz] descend_hash.simps [of leafHash index sz]
        Let_def result_simps split: if_splits)
qed

lemma length_descend_hash:
  "length leafHash = HashSize \<Longrightarrow> length (descend_hash leafHash index sz path) = HashSize"
  by (auto simp: descend_hash.simps [of leafHash index sz] Let_def)

section \<open>Completeness\<close>

lemma verifyDescend_inclusionProof:
  "index < length hs \<Longrightarrow>
   verifyDescend (hs ! index) index (length hs) (inclusionProof hs index) = Inr (rootOfHashes hs, 0)"
proof (induction hs index rule: inclusionProof.induct)
  case (1 hs index)
  let ?k = "largestPowerOfTwoLessThan (length hs)"
  show ?case
  proof (cases "length hs \<le> 1")
    case True
    with "1.prems" obtain h where "hs = [h]" "index = 0"
      by (cases hs) auto
    then show ?thesis by (simp add: inclusionProof.simps verifyDescend.simps)
  next
    case False
    note k = split_bounds [of "length hs"]
    show ?thesis
    proof (cases "index < ?k")
      case True
      have "verifyDescend (take ?k hs ! index) index ?k (inclusionProof (take ?k hs) index)
            = Inr (rootOfHashes (take ?k hs), 0)"
        using "1.IH"(1) [OF False refl True] k False True by simp
      with False True k show ?thesis
        by (simp add: inclusionProof.simps [of hs] verifyDescend.simps [of _ _ "length hs"]
            rootOfHashes_node Let_def)
    next
      case right: False
      have "verifyDescend (drop ?k hs ! (index - ?k)) (index - ?k) (length hs - ?k)
              (inclusionProof (drop ?k hs) (index - ?k)) = Inr (rootOfHashes (drop ?k hs), 0)"
        using "1.IH"(2) [OF False refl right] k False right "1.prems" by simp
      with False right k "1.prems" show ?thesis
        by (simp add: inclusionProof.simps [of hs] verifyDescend.simps [of _ _ "length hs"]
            rootOfHashes_node Let_def)
    qed
  qed
qed

section \<open>Soundness\<close>

text \<open>A node: its two subtrees, and what an accepted path says at it.\<close>

lemma tree_split:
  assumes "2 \<le> length hs" "hash_list hs"
  shows "rootOfHashes hs = NodeHash (rootOfHashes (take (largestPowerOfTwoLessThan (length hs)) hs))
      (rootOfHashes (drop (largestPowerOfTwoLessThan (length hs)) hs))"
    and "tree_inputs hs =
      node_input (rootOfHashes (take (largestPowerOfTwoLessThan (length hs)) hs))
        (rootOfHashes (drop (largestPowerOfTwoLessThan (length hs)) hs)) #
      tree_inputs (take (largestPowerOfTwoLessThan (length hs)) hs) @
      tree_inputs (drop (largestPowerOfTwoLessThan (length hs)) hs)"
    and "length (rootOfHashes (take (largestPowerOfTwoLessThan (length hs)) hs)) = HashSize"
    and "length (rootOfHashes (drop (largestPowerOfTwoLessThan (length hs)) hs)) = HashSize"
proof -
  show "length (rootOfHashes (take (largestPowerOfTwoLessThan (length hs)) hs)) = HashSize"
    "length (rootOfHashes (drop (largestPowerOfTwoLessThan (length hs)) hs)) = HashSize"
    using assms split_bounds [OF assms(1)] by (auto intro!: length_rootOfHashes simp del: split_bounds)
qed (use assms(1) rootOfHashes_node [OF assms(1)] in \<open>simp_all add: tree_inputs.simps [of hs] Let_def\<close>)

lemma verifyDescend_node:
  assumes "verifyDescend leafHash index n path = Inr (root, 0)" "2 \<le> n"
  obtains (left) h where "index < largestPowerOfTwoLessThan n" "path \<noteq> []" "root = NodeHash h (last path)"
      "verifyDescend leafHash index (largestPowerOfTwoLessThan n) (butlast path) = Inr (h, 0)"
      "descend_inputs leafHash index n path =
        node_input h (last path) # descend_inputs leafHash index (largestPowerOfTwoLessThan n) (butlast path)"
      "length leafHash = HashSize \<Longrightarrow> length h = HashSize"
  | (right) h where "largestPowerOfTwoLessThan n \<le> index" "path \<noteq> []" "root = NodeHash (last path) h"
      "verifyDescend leafHash (index - largestPowerOfTwoLessThan n) (n - largestPowerOfTwoLessThan n) (butlast path) = Inr (h, 0)"
      "descend_inputs leafHash index n path =
        node_input (last path) h #
        descend_inputs leafHash (index - largestPowerOfTwoLessThan n) (n - largestPowerOfTwoLessThan n) (butlast path)"
      "length leafHash = HashSize \<Longrightarrow> length h = HashSize"
proof -
  let ?k = "largestPowerOfTwoLessThan n"
  have ne: "path \<noteq> []" using assms by (auto simp: verifyDescend.simps [of _ _ n])
  show thesis
  proof (cases "index < ?k")
    case True
    with assms ne show thesis
      by (intro left [of "descend_hash leafHash index ?k (butlast path)"])
        (use verifyDescend_hash length_descend_hash in
          \<open>auto simp: verifyDescend.simps [of _ _ n] descend_inputs.simps [of _ _ n] Let_def result_simps\<close>)
  next
    case False
    with assms ne show thesis
      by (intro right [of "descend_hash leafHash (index - ?k) (n - ?k) (butlast path)"])
        (use verifyDescend_hash length_descend_hash in
          \<open>auto simp: verifyDescend.simps [of _ _ n] descend_inputs.simps [of _ _ n] Let_def result_simps\<close>)
  qed
qed

lemma verifyDescend_sound:
  "verifyDescend leafHash index (length hs) path = Inr (rootOfHashes hs, 0) \<Longrightarrow>
   index < length hs \<Longrightarrow> hash_list hs \<Longrightarrow> length leafHash = HashSize \<Longrightarrow>
   leafHash = hs ! index \<and> path = inclusionProof hs index
   \<or> collides (descend_inputs leafHash index (length hs) path) (tree_inputs hs)"
proof (induction hs index arbitrary: path rule: inclusionProof.induct)
  case (1 hs index)
  let ?k = "largestPowerOfTwoLessThan (length hs)"
  show ?case
  proof (cases "length hs \<le> 1")
    case True
    with "1.prems" obtain h where "hs = [h]" "index = 0"
      by (cases hs) auto
    with "1.prems" show ?thesis by (simp add: inclusionProof.simps verifyDescend.simps)
  next
    case False
    then have two: "2 \<le> length hs" by simp
    note k = split_bounds [OF two] and tree = tree_split [OF two "1.prems"(3)]
    from "1.prems"(1) two show ?thesis
    proof (cases rule: verifyDescend_node)
      case (left h)
      have IH: "leafHash = hs ! index \<and> butlast path = inclusionProof (take ?k hs) index
          \<or> collides (descend_inputs leafHash index ?k (butlast path)) (tree_inputs (take ?k hs))"
        if "h = rootOfHashes (take ?k hs)"
        using "1.IH"(1) [OF False refl left(1), of "butlast path"] left(1,4) k "1.prems"(3,4) that by simp
      have "inclusionProof hs index = inclusionProof (take ?k hs) index @ [rootOfHashes (drop ?k hs)]"
        using False left(1) by (simp add: inclusionProof.simps [of hs] Let_def)
      moreover have "collides (descend_inputs leafHash index (length hs) path) (tree_inputs hs)"
        if "collides (descend_inputs leafHash index ?k (butlast path)) (tree_inputs (take ?k hs))"
        unfolding left(5) tree(2) using that by (rule collides_node)
      moreover have "(h = rootOfHashes (take ?k hs) \<and> last path = rootOfHashes (drop ?k hs))
          \<or> collides (descend_inputs leafHash index (length hs) path) (tree_inputs hs)"
        unfolding left(5) tree(2) using left(3,6) tree(1,3) "1.prems"(4) by (intro NodeHash_equal) simp_all
      ultimately show ?thesis using IH append_butlast_last_id [OF left(2)] by metis
    next
      case (right h)
      then have ge: "\<not> index < ?k" by simp
      have IH: "leafHash = hs ! index \<and> butlast path = inclusionProof (drop ?k hs) (index - ?k)
          \<or> collides (descend_inputs leafHash (index - ?k) (length hs - ?k) (butlast path)) (tree_inputs (drop ?k hs))"
        if "h = rootOfHashes (drop ?k hs)"
        using "1.IH"(2) [OF False refl ge, of "butlast path"] right(1,4) k "1.prems"(2-4) that by simp
      have "inclusionProof hs index = inclusionProof (drop ?k hs) (index - ?k) @ [rootOfHashes (take ?k hs)]"
        using False ge by (simp add: inclusionProof.simps [of hs] Let_def)
      moreover have "collides (descend_inputs leafHash index (length hs) path) (tree_inputs hs)"
        if "collides (descend_inputs leafHash (index - ?k) (length hs - ?k) (butlast path)) (tree_inputs (drop ?k hs))"
        unfolding right(5) tree(2) using that by (rule collides_node)
      moreover have "(last path = rootOfHashes (take ?k hs) \<and> h = rootOfHashes (drop ?k hs))
          \<or> collides (descend_inputs leafHash index (length hs) path) (tree_inputs hs)"
        unfolding right(5) tree(2) using right(3,6) tree(1,4) "1.prems"(4) by (intro NodeHash_equal) simp_all
      ultimately show ?thesis using IH append_butlast_last_id [OF right(2)] by metis
    qed
  qed
qed

end
