(* ===== verification/MerkleConsistency.thy ===== *)
theory MerkleConsistency
  imports MerkleInclusion
begin

text \<open>
  Consistency proofs of \<open>internal/merkle/tree.go\<close>. The code produces them top-down
  (\<open>subProof\<close>) and verifies them bottom-up, by a loop over the bits of the two sizes.
  \<open>cons_eval\<close> is the verifier a reader would write, the mirror image of \<open>subProof\<close>;
  the loop is shown to compute the same (\<open>walk_cons_eval\<close>), and completeness and soundness
  are proved for the recursive form.
\<close>

section \<open>The recursive verifier\<close>

text \<open>
  \<open>path\<close> starts with the hash of the largest old subtree on the frontier; the result is the
  pair of the old and the new root of the subtree of \<open>n\<close> leaves, of which \<open>m\<close> are old.
\<close>

function cons_eval :: "nat \<Rightarrow> nat \<Rightarrow> bytes list \<Rightarrow> (bytes \<times> bytes) option" where
  "cons_eval m n path =
     (if m = n then (case path of [h] \<Rightarrow> Some (h, h) | _ \<Rightarrow> None)
      else if n < 2 \<or> path = [] then None
      else let k = largestPowerOfTwoLessThan n; sibling = last path
           in if m \<le> k then
                map_option (\<lambda>(old, new). (old, NodeHash new sibling)) (cons_eval m k (butlast path))
              else
                map_option (\<lambda>(old, new). (NodeHash sibling old, NodeHash sibling new))
                  (cons_eval (m - k) (n - k) (butlast path)))"
  by pat_completeness auto
termination by (relation "measure (\<lambda>(m, n, p). n)") (auto simp: not_less)

declare cons_eval.simps [simp del]

definition ok :: "'e + 'a \<Rightarrow> 'a option" where
  "ok r = (case r of Inl _ \<Rightarrow> None | Inr x \<Rightarrow> Some x)"

lemma ok_simps [simp]: "ok (Inl e) = None" "ok (Inr x) = Some x"
  by (simp_all add: ok_def)

definition walk_at :: "bytes \<Rightarrow> bytes \<Rightarrow> bytes list \<Rightarrow> nat \<times> nat \<Rightarrow> (bytes \<times> bytes) option" where
  "walk_at h1 h2 ps p = ok (walk_loop h1 h2 ps (fst p) (snd p))"

lemma walk_loop_end: "walk_loop h1 h2 ps mm 0 = (if ps \<noteq> [] then Inl ProofTooLong else Inr (h1, h2))"
  by (simp add: walk_loop.simps [of h1 h2 ps])

lemma walk_loop_Nil: "0 < nn \<Longrightarrow> walk_loop h1 h2 [] mm nn = Inl ProofTooShort"
  by (simp add: walk_loop.simps [of h1 h2])

lemma walk_loop_Cons:
  "0 < nn \<Longrightarrow> walk_loop h1 h2 (p # ps) mm nn =
     (if odd mm \<or> mm = nn then
        (let (mm', nn') = skip_zeros mm nn
         in walk_loop (NodeHash p h1) (NodeHash p h2) ps (mm' div 2) (nn' div 2))
      else walk_loop h1 (NodeHash h2 p) ps (mm div 2) (nn div 2))"
  by (simp add: walk_loop.simps [of h1 h2 "p # ps"])

lemma skip_zeros_odd [simp]: "odd mm \<Longrightarrow> skip_zeros mm nn = (mm, nn)"
  by (simp add: skip_zeros.simps [of mm])

lemma skip_zeros_even: "even mm \<Longrightarrow> 0 < mm \<Longrightarrow> skip_zeros mm nn = skip_zeros (mm div 2) (nn div 2)"
  by (simp add: skip_zeros.simps [of mm])

lemma strip_ones_even [simp]: "even mm \<Longrightarrow> strip_ones mm nn = (mm, nn)"
  by (simp add: strip_ones.simps [of mm])

lemma strip_ones_odd: "odd mm \<Longrightarrow> strip_ones mm nn = strip_ones (mm div 2) (nn div 2)"
  by (simp add: strip_ones.simps [of mm])

section \<open>The loop follows the splits\<close>

text \<open>
  Old tree within the left subtree of \<open>2 ^ a\<close> leaves: the loop does what it does for that
  complete subtree and hashes the last proof element on the right of the new root.
\<close>

lemma walk_left:
  "mm < 2 ^ a \<Longrightarrow> 2 ^ a \<le> nn \<Longrightarrow> nn < 2 ^ Suc a \<Longrightarrow>
   ok (walk_loop h1 h2 (ps @ [x]) mm nn)
   = map_option (\<lambda>(old, new). (old, NodeHash new x)) (ok (walk_loop h1 h2 ps mm (2 ^ a - 1)))"
proof (induction a arbitrary: mm nn h1 h2 ps)
  case 0
  then have "mm = 0" "nn = 1" by auto
  then show ?case
    by (cases ps) (simp_all add: walk_loop_Cons walk_loop_end)
next
  case (Suc a)
  have half: "mm div 2 < 2 ^ a" "2 ^ a \<le> nn div 2" "nn div 2 < 2 ^ Suc a"
    "(2 ^ Suc a - 1 :: nat) div 2 = 2 ^ a - 1"
    using Suc.prems by auto
  have two: "(2::nat) \<le> 2 ^ Suc a" by simp
  have pos: "0 < nn" "(0::nat) < 2 ^ Suc a - 1" "mm \<noteq> nn" "0 < nn div 2"
    using Suc.prems two by linarith+
  have top: "mm = 2 ^ Suc a - 1 \<Longrightarrow> odd mm" by simp
  show ?case
  proof (cases ps)
    case Nil
    with pos show ?thesis
      by (cases "odd mm") (simp_all add: walk_loop_Cons walk_loop_Nil)
  next
    case (Cons p qs)
    show ?thesis
    proof (cases "odd mm")
      case True
      with Cons pos half show ?thesis
        using Suc.IH [OF half(1-3), of "NodeHash p h1" "NodeHash p h2" qs]
        by (simp add: walk_loop_Cons)
    next
      case False
      with top have "mm \<noteq> 2 ^ Suc a - 1" by blast
      with False Cons pos half show ?thesis
        using Suc.IH [OF half(1-3), of h1 "NodeHash h2 p" qs]
        by (simp add: walk_loop_Cons)
    qed
  qed
qed

text \<open>Shifting out zero bits does not see a bit above them.\<close>

lemma skip_zeros_high:
  "0 < x \<Longrightarrow> x < 2 ^ a \<Longrightarrow>
   \<exists>s<a. skip_zeros x y = (x div 2 ^ s, y div 2 ^ s)
       \<and> skip_zeros (x + 2 ^ a) (y + 2 ^ a) = (x div 2 ^ s + 2 ^ (a - s), y div 2 ^ s + 2 ^ (a - s))"
proof (induction a arbitrary: x y)
  case (Suc a)
  show ?case
  proof (cases "odd x")
    case True
    then show ?thesis by (intro exI [of _ 0]) simp
  next
    case False
    then have half: "0 < x div 2" "x div 2 < 2 ^ a" "even x"
      using Suc.prems by auto
    obtain s where s: "s < a" "skip_zeros (x div 2) (y div 2) = (x div 2 div 2 ^ s, y div 2 div 2 ^ s)"
      "skip_zeros (x div 2 + 2 ^ a) (y div 2 + 2 ^ a)
       = (x div 2 div 2 ^ s + 2 ^ (a - s), y div 2 div 2 ^ s + 2 ^ (a - s))"
      using Suc.IH [OF half(1,2), of "y div 2"] by blast
    have d: "(z + 2 ^ Suc a) div 2 = z div 2 + 2 ^ a" for z :: nat by simp
    have "skip_zeros (x + 2 ^ Suc a) (y + 2 ^ Suc a) = skip_zeros (x div 2 + 2 ^ a) (y div 2 + 2 ^ a)"
      using half(3) Suc.prems by (subst skip_zeros_even) (simp_all add: d del: power_Suc)
    moreover have "skip_zeros x y = skip_zeros (x div 2) (y div 2)"
      using half(3) Suc.prems by (simp add: skip_zeros_even)
    ultimately show ?thesis
      using s by (intro exI [of _ "Suc s"]) (simp add: div_mult2_eq)
  qed
qed simp

lemma skip_zeros_power: "skip_zeros (2 ^ a) (2 ^ a) = (1, 1)"
proof (induction a)
  case (Suc a)
  then show ?case by (subst skip_zeros_even) simp_all
qed simp

text \<open>
  Old tree reaching into the right subtree: the loop does what it does for that subtree and
  hashes the last proof element on the left of both roots.
\<close>

lemma walk_right:
  "mm \<le> nn \<Longrightarrow> nn < 2 ^ a \<Longrightarrow>
   ok (walk_loop h1 h2 (ps @ [x]) (mm + 2 ^ a) (nn + 2 ^ a))
   = map_option (\<lambda>(old, new). (NodeHash x old, NodeHash x new)) (ok (walk_loop h1 h2 ps mm nn))"
proof (induction nn arbitrary: mm a h1 h2 ps rule: less_induct)
  case (less nn)
  show ?case
  proof (cases "nn = 0")
    case True
    with less.prems show ?thesis
      by (cases ps) (simp_all add: walk_loop_Cons walk_loop_end skip_zeros_power)
  next
    case False
    with less.prems obtain b where b: "a = Suc b" by (cases a) auto
    have d: "(z + 2 ^ Suc b) div 2 = z div 2 + 2 ^ b" for z :: nat by simp
    let ?two = "odd mm \<or> mm = nn"
    obtain s where s: "s < a" "skip_zeros mm nn = (mm div 2 ^ s, nn div 2 ^ s)"
      "skip_zeros (mm + 2 ^ a) (nn + 2 ^ a) = (mm div 2 ^ s + 2 ^ (a - s), nn div 2 ^ s + 2 ^ (a - s))"
      if ?two
      using skip_zeros_high [of mm a nn] less.prems False by (auto simp: odd_pos)
    have shift: "?two \<Longrightarrow> (mm div 2 ^ s + 2 ^ (a - s)) div 2 = mm div 2 ^ Suc s + 2 ^ (a - Suc s)"
      "?two \<Longrightarrow> (nn div 2 ^ s + 2 ^ (a - s)) div 2 = nn div 2 ^ Suc s + 2 ^ (a - Suc s)"
      using s(1) by (auto simp: Suc_diff_Suc [symmetric] div_mult2_eq [symmetric] mult.commute)
    have parity: "odd (mm + 2 ^ a) \<longleftrightarrow> odd mm" using b by simp
    show ?thesis
    proof (cases ps)
      case Nil
      with False less.prems s shift parity show ?thesis
        by (auto simp: walk_loop_Cons walk_loop_Nil b d)
    next
      case (Cons p qs)
      show ?thesis
      proof (cases ?two)
        case True
        have "(1::nat) < 2 ^ Suc s" by (rule one_less_power) simp_all
        then have "nn div 2 ^ Suc s < nn" using False by (intro div_less_dividend) simp_all
        moreover have "mm div 2 ^ Suc s \<le> nn div 2 ^ Suc s" using less.prems by (simp add: div_le_mono)
        moreover have "nn div 2 ^ Suc s < 2 ^ (a - Suc s)"
        proof (rule less_mult_imp_div_less)
          have "(2::nat) ^ (a - Suc s) * 2 ^ Suc s = 2 ^ a"
            using s(1) [OF True] by (simp only: power_add [symmetric]) simp
          with less.prems show "nn < 2 ^ (a - Suc s) * 2 ^ Suc s" by simp
        qed
        ultimately show ?thesis
          using less.IH [of "nn div 2 ^ Suc s" "mm div 2 ^ Suc s" "a - Suc s" "NodeHash p h1" "NodeHash p h2" qs]
            True Cons False s(2,3) [OF True] shift parity
          by (simp add: walk_loop_Cons div_mult2_eq [symmetric] mult.commute)
      next
        case neither: False
        have "nn div 2 < nn" "mm div 2 \<le> nn div 2" "nn div 2 < 2 ^ b"
          using less.prems False b by (auto simp: div_le_mono)
        with neither Cons False parity show ?thesis
          using less.IH [of "nn div 2" "mm div 2" b h1 "NodeHash h2 p" qs]
          by (simp add: walk_loop_Cons b d add.commute)
      qed
    qed
  qed
qed


section \<open>The loop computes the recursive verifier\<close>

text \<open>Stripping the trailing ones of \<open>m - 1\<close> first changes nothing in either case.\<close>

lemma strip_walk_left:
  "mm < 2 ^ a \<Longrightarrow> 2 ^ a \<le> nn \<Longrightarrow> nn < 2 ^ Suc a \<Longrightarrow>
   walk_at h1 h2 (ps @ [x]) (strip_ones mm nn)
   = map_option (\<lambda>(old, new). (old, NodeHash new x)) (walk_at h1 h2 ps (strip_ones mm (2 ^ a - 1)))"
proof (induction a arbitrary: mm nn)
  case 0
  then show ?case using walk_left [of mm 0 nn h1 h2 ps x] by (simp add: walk_at_def)
next
  case (Suc a)
  show ?case
  proof (cases "odd mm")
    case True
    have "mm div 2 < 2 ^ a" "2 ^ a \<le> nn div 2" "nn div 2 < 2 ^ Suc a"
      "(2 ^ Suc a - 1 :: nat) div 2 = 2 ^ a - 1"
      using Suc.prems by auto
    with True show ?thesis
      using Suc.IH [of "mm div 2" "nn div 2"] by (simp add: strip_ones_odd)
  next
    case False
    with Suc.prems show ?thesis
      using walk_left [of mm "Suc a" nn h1 h2 ps x] by (simp add: walk_at_def)
  qed
qed

lemma strip_walk_right:
  "mm < nn \<Longrightarrow> nn < 2 ^ a \<Longrightarrow>
   walk_at h1 h2 (ps @ [x]) (strip_ones (mm + 2 ^ a) (nn + 2 ^ a))
   = map_option (\<lambda>(old, new). (NodeHash x old, NodeHash x new)) (walk_at h1 h2 ps (strip_ones mm nn))"
proof (induction a arbitrary: mm nn)
  case (Suc a)
  have d: "(z + 2 ^ Suc a) div 2 = z div 2 + 2 ^ a" for z :: nat by simp
  show ?case
  proof (cases "odd mm")
    case True
    then have "mm div 2 < nn div 2" "nn div 2 < 2 ^ a"
      using Suc.prems by (auto elim!: oddE)
    with True show ?thesis
      using Suc.IH [of "mm div 2" "nn div 2"] by (simp add: strip_ones_odd d del: power_Suc)
  next
    case False
    with Suc.prems show ?thesis
      using walk_right [of mm nn "Suc a" h1 h2 ps x] by (simp add: walk_at_def)
  qed
qed simp

lemma strip_ones_less: "mm < nn \<Longrightarrow> fst (strip_ones mm nn) < snd (strip_ones mm nn)"
proof (induction mm nn rule: strip_ones.induct)
  case (1 mm nn)
  show ?case
  proof (cases "odd mm")
    case True
    then have "mm div 2 < nn div 2" using "1.prems" by (auto elim!: oddE)
    with 1 True show ?thesis by (simp add: strip_ones_odd)
  qed (use 1 in simp)
qed

lemma strip_ones_complete: "strip_ones (2 ^ a - 1) (2 ^ a - 1) = (0, 0)"
proof (induction a)
  case (Suc a)
  have "odd (2 ^ Suc a - 1 :: nat)" "(2 ^ Suc a - 1 :: nat) div 2 = 2 ^ a - 1" by simp_all
  from strip_ones_odd [OF this(1), of "2 ^ Suc a - 1", unfolded this(2)] Suc
  show ?case by (rule trans)
qed simp

text \<open>
  The correspondence holds for a proper prefix (\<open>m < n\<close>), and for the whole of a complete
  subtree, which is where the recursion of a proper prefix ends.
\<close>

lemma walk_cons_eval:
  "0 < m \<Longrightarrow> m < n \<or> m = n \<and> (\<exists>a. n = 2 ^ a) \<Longrightarrow>
   cons_eval m n (h # rest) = walk_at h h rest (strip_ones (m - 1) (n - 1))"
proof (induction n arbitrary: m rest rule: less_induct)
  case (less n)
  show ?case
  proof (cases "m = n")
    case True
    with less.prems obtain a where "n = 2 ^ a" by auto
    with True have "strip_ones (m - 1) (n - 1) = (0, 0)"
      using strip_ones_complete [of a] by simp
    with True show ?thesis
      by (cases rest) (simp_all add: cons_eval.simps [of n n] walk_at_def walk_loop_end)
  next
    case False
    with less.prems have mn: "m < n" "2 \<le> n" by auto
    obtain a where a: "largestPowerOfTwoLessThan n = 2 ^ a" "2 ^ a < n" "n \<le> 2 ^ Suc a"
      using split_point [OF mn(2)] .
    show ?thesis
    proof (cases rest rule: rev_cases)
      case Nil
      have "0 < snd (strip_ones (m - 1) (n - 1))"
        using strip_ones_less [of "m - 1" "n - 1"] mn less.prems by linarith
      moreover have "cons_eval j l [] = None" for j l
        by (simp add: cons_eval.simps [of j])
      ultimately show ?thesis
        using False mn a Nil by (simp add: cons_eval.simps [of m] walk_at_def walk_loop_Nil Let_def)
    next
      case (snoc ps x)
      show ?thesis
      proof (cases "m \<le> 2 ^ a")
        case True
        have "cons_eval m (2 ^ a) (h # ps) = walk_at h h ps (strip_ones (m - 1) (2 ^ a - 1))"
          using less.IH [of "2 ^ a" m ps] a(2) less.prems(1) True by (auto simp: le_less)
        moreover have "walk_at h h (ps @ [x]) (strip_ones (m - 1) (n - 1))
            = map_option (\<lambda>(old, new). (old, NodeHash new x)) (walk_at h h ps (strip_ones (m - 1) (2 ^ a - 1)))"
          using a True less.prems(1) by (intro strip_walk_left) auto
        ultimately show ?thesis
          using False mn a True snoc by (simp add: cons_eval.simps [of m n] Let_def butlast_append)
      next
        case right: False
        have "cons_eval (m - 2 ^ a) (n - 2 ^ a) (h # ps)
            = walk_at h h ps (strip_ones (m - 2 ^ a - 1) (n - 2 ^ a - 1))"
          using right mn by (intro less.IH) auto
        moreover have "walk_at h h (ps @ [x]) (strip_ones (m - 2 ^ a - 1 + 2 ^ a) (n - 2 ^ a - 1 + 2 ^ a))
            = map_option (\<lambda>(old, new). (NodeHash x old, NodeHash x new))
                (walk_at h h ps (strip_ones (m - 2 ^ a - 1) (n - 2 ^ a - 1)))"
          using right mn a by (intro strip_walk_right) auto
        moreover have "m - 2 ^ a - 1 + 2 ^ a = m - 1" "n - 2 ^ a - 1 + 2 ^ a = n - 1"
          using right mn by auto
        ultimately show ?thesis
          using False mn a right snoc by (simp add: cons_eval.simps [of m n] Let_def butlast_append)
      qed
    qed
  qed
qed


section \<open>Roots of prefixes\<close>

lemma split_unique:
  assumes "largestPowerOfTwoLessThan n < m" "m \<le> n" "2 \<le> n"
  shows "largestPowerOfTwoLessThan m = largestPowerOfTwoLessThan n"
proof -
  obtain a where a: "largestPowerOfTwoLessThan n = 2 ^ a" "2 ^ a < n" "n \<le> 2 ^ Suc a"
    using split_point [OF assms(3)] .
  have "2 \<le> m" using assms(1) a(1) one_le_power [of "2 :: nat" a] by linarith
  then obtain b where b: "largestPowerOfTwoLessThan m = 2 ^ b" "2 ^ b < m" "m \<le> 2 ^ Suc b"
    using split_point by blast
  have "(2::nat) ^ a < 2 ^ Suc b" "(2::nat) ^ b < 2 ^ Suc a"
    using a b assms by linarith+
  then have "a < Suc b" "b < Suc a" by (simp_all only: power_strict_increasing_iff)
  then show ?thesis using a b by simp
qed

text \<open>The root of a prefix that reaches into the right subtree shares the left subtree.\<close>

lemma rootOfHashes_take_right:
  assumes "largestPowerOfTwoLessThan n < m" "m \<le> n" "n \<le> length hs" "2 \<le> n"
  defines "k \<equiv> largestPowerOfTwoLessThan n"
  shows "rootOfHashes (take m hs) = NodeHash (rootOfHashes (take k hs)) (rootOfHashes (take (m - k) (drop k hs)))"
proof -
  have "2 \<le> m" using assms(1,4) split_bounds(1) [OF assms(4)] by linarith
  moreover have "length (take m hs) = m" using assms by simp
  ultimately show ?thesis
    using rootOfHashes_node [of "take m hs"] split_unique [OF assms(1,2,4)] assms(1)
    by (simp add: k_def min_def drop_take)
qed

lemma rootOfHashes_take_node:
  assumes "n \<le> length hs" "2 \<le> n"
  defines "k \<equiv> largestPowerOfTwoLessThan n"
  shows "rootOfHashes (take n hs) = NodeHash (rootOfHashes (take k hs)) (rootOfHashes (drop k (take n hs)))"
proof -
  have "length (take n hs) = n" using assms(1) by simp
  moreover have "take k (take n hs) = take k hs"
    using split_bounds(2) [OF assms(2)] by (simp add: k_def min_def)
  ultimately show ?thesis
    using rootOfHashes_node [of "take n hs"] assms(2) unfolding k_def by simp
qed

section \<open>Completeness\<close>

lemma cons_eval_subProof_False:
  "0 < m \<Longrightarrow> m \<le> n \<Longrightarrow> n \<le> length hs \<Longrightarrow>
   cons_eval m n (subProof hs m n False) = Some (rootOfHashes (take m hs), rootOfHashes (take n hs))"
proof (induction n arbitrary: m hs rule: less_induct)
  case (less n)
  show ?case
  proof (cases "m = n")
    case True
    then show ?thesis by (simp add: cons_eval.simps [of n n] subProof.simps [of hs n n])
  next
    case False
    with less.prems have mn: "m < n" "2 \<le> n" by auto
    let ?k = "largestPowerOfTwoLessThan n"
    note k = split_bounds [OF mn(2)]
    show ?thesis
    proof (cases "m \<le> ?k")
      case True
      have "cons_eval m ?k (subProof (take ?k hs) m ?k False)
          = Some (rootOfHashes (take m (take ?k hs)), rootOfHashes (take ?k (take ?k hs)))"
        using k(2) less.prems True by (intro less.IH) auto
      with True mn less.prems show ?thesis
        by (simp add: cons_eval.simps [of m n] subProof.simps [of hs m n] Let_def min_def
            rootOfHashes_take_node)
    next
      case right: False
      have "cons_eval (m - ?k) (n - ?k) (subProof (drop ?k hs) (m - ?k) (n - ?k) False)
          = Some (rootOfHashes (take (m - ?k) (drop ?k hs)), rootOfHashes (take (n - ?k) (drop ?k hs)))"
        using k less.prems right mn by (intro less.IH) auto
      moreover have "rootOfHashes (take m hs)
          = NodeHash (rootOfHashes (take ?k hs)) (rootOfHashes (take (m - ?k) (drop ?k hs)))"
        "rootOfHashes (take n hs)
          = NodeHash (rootOfHashes (take ?k hs)) (rootOfHashes (take (n - ?k) (drop ?k hs)))"
        using right mn k less.prems by (intro rootOfHashes_take_right; simp)+
      ultimately show ?thesis
        using right mn less.prems
        by (simp add: cons_eval.simps [of m n] subProof.simps [of hs m n] Let_def)
    qed
  qed
qed

lemma cons_eval_subProof_power:
  "m = 2 ^ j \<Longrightarrow> m \<le> n \<Longrightarrow> n \<le> length hs \<Longrightarrow>
   cons_eval m n (rootOfHashes (take m hs) # subProof hs m n True)
   = Some (rootOfHashes (take m hs), rootOfHashes (take n hs))"
proof (induction n arbitrary: hs rule: less_induct)
  case (less n)
  show ?case
  proof (cases "m = n")
    case True
    then show ?thesis by (simp add: cons_eval.simps [of n n] subProof.simps [of hs n n])
  next
    case False
    have "0 < m" using less.prems by simp
    with False less.prems have mn: "m < n" "2 \<le> n" by linarith+
    obtain a where a: "largestPowerOfTwoLessThan n = 2 ^ a" "2 ^ a < n" "n \<le> 2 ^ Suc a"
      using split_point [OF mn(2)] .
    have "(2::nat) ^ j < 2 ^ Suc a" using mn a(3) less.prems(1) by linarith
    then have "j \<le> a" by (simp only: power_strict_increasing_iff less_Suc_eq_le)
    then have left: "m \<le> 2 ^ a" using less.prems(1) by simp
    have "cons_eval m (2 ^ a) (rootOfHashes (take m (take (2 ^ a) hs)) # subProof (take (2 ^ a) hs) m (2 ^ a) True)
        = Some (rootOfHashes (take m (take (2 ^ a) hs)), rootOfHashes (take (2 ^ a) (take (2 ^ a) hs)))"
      using less.prems left a by (intro less.IH) auto
    with left False mn a less.prems(3) show ?thesis
      by (simp add: cons_eval.simps [of m n] subProof.simps [of hs m n] Let_def min_def
          rootOfHashes_take_node butlast_append)
  qed
qed

lemma cons_eval_subProof_other:
  "0 < m \<Longrightarrow> m < n \<Longrightarrow> \<nexists>j. m = 2 ^ j \<Longrightarrow> n \<le> length hs \<Longrightarrow>
   cons_eval m n (subProof hs m n True) = Some (rootOfHashes (take m hs), rootOfHashes (take n hs))"
proof (induction n arbitrary: hs rule: less_induct)
  case (less n)
  then have two: "2 \<le> n" by linarith
  obtain a where a: "largestPowerOfTwoLessThan n = 2 ^ a" "2 ^ a < n" "n \<le> 2 ^ Suc a"
    using split_point [OF two] .
  show ?case
  proof (cases "m \<le> 2 ^ a")
    case True
    with less.prems(3) have "m < 2 ^ a" by (auto simp: le_less)
    then have "cons_eval m (2 ^ a) (subProof (take (2 ^ a) hs) m (2 ^ a) True)
        = Some (rootOfHashes (take m (take (2 ^ a) hs)), rootOfHashes (take (2 ^ a) (take (2 ^ a) hs)))"
      using less.prems a by (intro less.IH) auto
    with True two less.prems a show ?thesis
      by (simp add: cons_eval.simps [of m n] subProof.simps [of hs m n] Let_def min_def
          rootOfHashes_take_node)
  next
    case right: False
    have "cons_eval (m - 2 ^ a) (n - 2 ^ a) (subProof (drop (2 ^ a) hs) (m - 2 ^ a) (n - 2 ^ a) False)
        = Some (rootOfHashes (take (m - 2 ^ a) (drop (2 ^ a) hs)),
                rootOfHashes (take (n - 2 ^ a) (drop (2 ^ a) hs)))"
      using right less.prems by (intro cons_eval_subProof_False) auto
    moreover have "rootOfHashes (take m hs)
        = NodeHash (rootOfHashes (take (2 ^ a) hs)) (rootOfHashes (take (m - 2 ^ a) (drop (2 ^ a) hs)))"
      "rootOfHashes (take n hs)
        = NodeHash (rootOfHashes (take (2 ^ a) hs)) (rootOfHashes (take (n - 2 ^ a) (drop (2 ^ a) hs)))"
      using right two less.prems a
        rootOfHashes_take_right [of n m hs] rootOfHashes_take_right [of n n hs] by simp_all
    ultimately show ?thesis
      using right two less.prems a
      by (simp add: cons_eval.simps [of m n] subProof.simps [of hs m n] Let_def)
  qed
qed

section \<open>Soundness\<close>

text \<open>The inputs hashed on the way to the new root.\<close>

function cons_inputs :: "nat \<Rightarrow> nat \<Rightarrow> bytes list \<Rightarrow> bytes list" where
  "cons_inputs m n path =
     (if m = n \<or> n < 2 \<or> path = [] then []
      else let k = largestPowerOfTwoLessThan n; sibling = last path
           in if m \<le> k then
                (case cons_eval m k (butlast path) of
                   Some (old, new) \<Rightarrow> node_input new sibling # cons_inputs m k (butlast path)
                 | None \<Rightarrow> [])
              else
                (case cons_eval (m - k) (n - k) (butlast path) of
                   Some (old, new) \<Rightarrow> node_input sibling new # cons_inputs (m - k) (n - k) (butlast path)
                 | None \<Rightarrow> []))"
  by pat_completeness auto
termination by (relation "measure (\<lambda>(m, n, p). n)") (auto simp: not_less)

declare cons_inputs.simps [simp del]

text \<open>
  Only the siblings need to be hashes: all of the path but its first element, which is where the
  evaluation starts.
\<close>

lemma hash_list_tl: "hash_list path \<Longrightarrow> hash_list (tl path)"
  by (cases path) (auto simp: hash_list_def)

lemma hash_list_tl_butlast: "hash_list (tl path) \<Longrightarrow> hash_list (tl (butlast path))"
  by (auto simp: hash_list_def list_all_iff butlast_tl [symmetric] dest: in_set_butlastD)

lemma length_sibling:
  assumes "hash_list (tl path)" "cons_eval m n (butlast path) = Some x"
  shows "length (last path) = HashSize"
proof -
  have "butlast path \<noteq> []" using assms(2) by (auto simp: cons_eval.simps [of m n] split: if_splits)
  then have "last path \<in> set (tl path)" by (cases path rule: rev_cases) (auto simp: tl_append split: list.splits)
  with assms(1) show ?thesis by (auto simp: hash_list_def list_all_iff)
qed

lemma cons_eval_node:
  assumes "cons_eval m n path = Some (old, root)" "m \<noteq> n" "2 \<le> n" "hash_list (tl path)"
  obtains (left) new where "m \<le> largestPowerOfTwoLessThan n" "root = NodeHash new (last path)"
      "cons_eval m (largestPowerOfTwoLessThan n) (butlast path) = Some (old, new)"
      "cons_inputs m n path = node_input new (last path) # cons_inputs m (largestPowerOfTwoLessThan n) (butlast path)"
      "length (last path) = HashSize"
  | (right) old' new where "largestPowerOfTwoLessThan n < m" "root = NodeHash (last path) new" "old = NodeHash (last path) old'"
      "cons_eval (m - largestPowerOfTwoLessThan n) (n - largestPowerOfTwoLessThan n) (butlast path) = Some (old', new)"
      "cons_inputs m n path =
        node_input (last path) new # cons_inputs (m - largestPowerOfTwoLessThan n) (n - largestPowerOfTwoLessThan n) (butlast path)"
      "length (last path) = HashSize"
proof -
  have ne: "path \<noteq> []" using assms(1,2) by (auto simp: cons_eval.simps [of m])
  note short = length_sibling [OF assms(4)]
  show thesis
  proof (cases "m \<le> largestPowerOfTwoLessThan n")
    case True
    with assms(1-3) ne obtain new where "root = NodeHash new (last path)"
      "cons_eval m (largestPowerOfTwoLessThan n) (butlast path) = Some (old, new)"
      by (auto simp: cons_eval.simps [of m n] Let_def)
    with True assms(2,3) ne short show thesis
      by (intro left [of new]) (auto simp: cons_inputs.simps [of m n] Let_def)
  next
    case False
    with assms(1-3) ne obtain old' new where "root = NodeHash (last path) new" "old = NodeHash (last path) old'"
      "cons_eval (m - largestPowerOfTwoLessThan n) (n - largestPowerOfTwoLessThan n) (butlast path) = Some (old', new)"
      by (auto simp: cons_eval.simps [of m n] Let_def)
    with False assms(2,3) ne short show thesis
      by (intro right [of new old']) (auto simp: cons_inputs.simps [of m n] Let_def)
  qed
qed

lemma cons_eval_sound:
  "cons_eval m (length hs) path = Some (old, rootOfHashes hs) \<Longrightarrow> 0 < m \<Longrightarrow> m \<le> length hs \<Longrightarrow>
   hash_list hs \<Longrightarrow> hash_list (tl path) \<Longrightarrow>
   old = rootOfHashes (take m hs) \<or> collides (cons_inputs m (length hs) path) (tree_inputs hs)"
proof (induction "length hs" arbitrary: m hs path old rule: less_induct)
  case less
  let ?k = "largestPowerOfTwoLessThan (length hs)"
  note path = hash_list_tl_butlast [OF less.prems(5)]
  show ?case
  proof (cases "m = length hs")
    case True
    with less.prems(1) show ?thesis
      by (auto simp: cons_eval.simps [of "length hs" "length hs"] split: list.splits)
  next
    case False
    with less.prems have m: "m < length hs" and two: "2 \<le> length hs" by auto
    note k = split_bounds [OF two] and tree = tree_split [OF two less.prems(4)]
    from less.prems(1) False two less.prems(5) show ?thesis
    proof (cases rule: cons_eval_node)
      case (left new)
      have "old = rootOfHashes (take m (take ?k hs))
          \<or> collides (cons_inputs m (length (take ?k hs)) (butlast path)) (tree_inputs (take ?k hs))"
        if "new = rootOfHashes (take ?k hs)"
        using k left less.prems path that by (intro less.hyps) auto
      then have IH: "old = rootOfHashes (take m hs) \<or> collides (cons_inputs m ?k (butlast path)) (tree_inputs (take ?k hs))"
        if "new = rootOfHashes (take ?k hs)"
        using k left(1) that by (simp add: min_def)
      have "collides (cons_inputs m (length hs) path) (tree_inputs hs)"
        if "collides (cons_inputs m ?k (butlast path)) (tree_inputs (take ?k hs))"
        unfolding left(4) tree(2) using that by (rule collides_node)
      moreover have "(new = rootOfHashes (take ?k hs) \<and> last path = rootOfHashes (drop ?k hs))
          \<or> collides (cons_inputs m (length hs) path) (tree_inputs hs)"
        unfolding left(4) tree(2) using left(2,5) tree(1,4) by (intro NodeHash_equal) simp_all
      ultimately show ?thesis using IH by blast
    next
      case (right old' new)
      have IH: "old' = rootOfHashes (take (m - ?k) (drop ?k hs))
          \<or> collides (cons_inputs (m - ?k) (length (drop ?k hs)) (butlast path)) (tree_inputs (drop ?k hs))"
        if "new = rootOfHashes (drop ?k hs)"
        using k right less.prems path that by (intro less.hyps) auto
      have "rootOfHashes (take m hs) = NodeHash (rootOfHashes (take ?k hs)) (rootOfHashes (take (m - ?k) (drop ?k hs)))"
        using right(1) m two by (intro rootOfHashes_take_right) auto
      moreover have "collides (cons_inputs m (length hs) path) (tree_inputs hs)"
        if "collides (cons_inputs (m - ?k) (length (drop ?k hs)) (butlast path)) (tree_inputs (drop ?k hs))"
        unfolding right(5) tree(2) using that by (intro collides_node) simp
      moreover have "(last path = rootOfHashes (take ?k hs) \<and> new = rootOfHashes (drop ?k hs))
          \<or> collides (cons_inputs m (length hs) path) (tree_inputs hs)"
        unfolding right(5) tree(2) using right(2,6) tree(1,3) by (intro NodeHash_equal) simp_all
      ultimately show ?thesis using IH right(3) by metis
    qed
  qed
qed

end
