(* ===== verification/MerkleProperties.thy ===== *)
theory MerkleProperties
  imports MerkleConsistency
begin

text \<open>
  The properties of \<open>internal/merkle/tree.go\<close> at its exported functions, with witnesses.
\<close>

section \<open>Helper facts\<close>

lemma and_pred_odd: "((2 * x + 1) AND (2 * x)) = 2 * (x :: int)"
  by (simp add: and_int_rec [of "2 * x + 1" "2 * x"])

lemma and_pred_even: "((2 * x) AND (2 * x - 1)) = 2 * (x AND (x - 1 :: int))"
proof -
  have "(2 * x - 1) div 2 = x - 1" by presburger
  then show ?thesis by (simp add: and_int_rec [of "2 * x" "2 * x - 1"])
qed

lemma isPowerOfTwo_iff: "isPowerOfTwo n \<longleftrightarrow> (\<exists>a. n = 2 ^ a)"
proof (induction "nat n" arbitrary: n rule: less_induct)
  case less
  show ?case
  proof (cases "n \<le> 1")
    case True
    show ?thesis
    proof (cases "n = 1")
      case one: True
      then have "n = 2 ^ 0" by simp
      with one show ?thesis by (metis isPowerOfTwo_def and_zero_eq diff_self zero_less_one)
    next
      case False
      with True have "\<not> 0 < n" by simp
      moreover have "0 < (2 :: int) ^ a" for a by simp
      ultimately have "n \<noteq> 2 ^ a" for a by metis
      with \<open>\<not> 0 < n\<close> show ?thesis by (simp add: isPowerOfTwo_def)
    qed
  next
    case big: False
    show ?thesis
    proof (cases "even n")
      case True
      then obtain x where x: "n = 2 * x" ..
      have "isPowerOfTwo n \<longleftrightarrow> isPowerOfTwo x"
        using big x by (simp add: isPowerOfTwo_def and_pred_even)
      also have "\<dots> \<longleftrightarrow> (\<exists>a. x = 2 ^ a)" using less [of x] big x by simp
      also have "\<dots> \<longleftrightarrow> (\<exists>a. n = 2 ^ a)"
      proof
        assume "\<exists>a. n = 2 ^ a"
        then obtain a where "n = 2 ^ a" ..
        with big x show "\<exists>a. x = 2 ^ a" by (cases a) auto
      qed (auto simp: x power_Suc [symmetric] simp del: power_Suc)
      finally show ?thesis .
    next
      case False
      then obtain x where x: "n = 2 * x + 1" by (elim oddE)
      have "\<not> isPowerOfTwo n" using big x by (simp add: isPowerOfTwo_def and_pred_odd)
      moreover have "n \<noteq> 2 ^ a" for a using False big by (cases a) auto
      ultimately show ?thesis by blast
    qed
  qed
qed

lemma u64_pred: "0 < m \<Longrightarrow> m \<le> 2 ^ 63 \<Longrightarrow> u64 (m - 1) = nat m - 1"
  by (simp add: u64_def nat_diff_distrib)

lemma split_two [simp]: "largestPowerOfTwoLessThan (Suc (Suc 0)) = 1" "largestPowerOfTwoLessThan 2 = 1"
  by (simp_all add: largestPowerOfTwoLessThan_def lp2_loop.simps)

text \<open>The path that the verifier walks: the old root itself stands for the first element when \<open>m\<close> is a power of two.\<close>

definition cons_path :: "bytes \<Rightarrow> int \<Rightarrow> bytes list \<Rightarrow> bytes list" where
  "cons_path oldRoot m path = (if isPowerOfTwo m then oldRoot # path else path)"

lemma and_then_check:
  "and_then r (\<lambda>(a, b). if a \<noteq> x then Inl e1 else if b \<noteq> y then Inl e2 else Inr ()) = Inr ()
   \<longleftrightarrow> ok r = Some (x, y)"
  by (cases r) (auto split: if_splits)

lemma VerifyConsistency_iff:
  assumes "0 < m" "m < n" "n \<le> 2 ^ 63"
  shows "VerifyConsistency oldRoot newRoot m n path = Inr ()
    \<longleftrightarrow> cons_eval (nat m) (nat n) (cons_path oldRoot m path) = Some (oldRoot, newRoot)"
proof (cases "cons_path oldRoot m path")
  case Nil
  then show ?thesis
    using assms by (simp add: VerifyConsistency_def cons_path_def cons_eval.simps [of "nat m"] split: if_splits)
next
  case (Cons h rest)
  have "ok (walkConsistency h h rest m n) = walk_at h h rest (strip_ones (nat m - 1) (nat n - 1))"
    using assms by (simp add: walkConsistency_def walk_at_def u64_pred split: prod.splits)
  also have "\<dots> = cons_eval (nat m) (nat n) (h # rest)"
    using assms by (intro walk_cons_eval [symmetric]) auto
  finally have "ok (walkConsistency h h rest m n) = cons_eval (nat m) (nat n) (h # rest)" .
  with Cons assms show ?thesis
    by (simp add: VerifyConsistency_def cons_path_def [symmetric] and_then_check)
qed

lemma Root_rootOfHashes: "leaves \<noteq> [] \<Longrightarrow> Root leaves = rootOfHashes (map LeafHash leaves)"
  by (simp add: Root_def)

text \<open>The same root over leaves and over their hashes.\<close>

lemma RootFromLeafHashes_map [simp]:
  "RootFromLeafHashes (map LeafHash hs) = Root hs"
  "RootFromLeafHashes (map (LeafHash \<circ> f) xs) = Root (map f xs)"
  by (simp_all add: RootFromLeafHashes_def Root_def flip: map_map)

text \<open>The proofs that are generated verify: over a list of leaf hashes.\<close>

lemma inclusion_path:
  assumes "0 \<le> i" "i < int (length hs)"
  shows "\<exists>path. InclusionProofFromHashes hs i = Inr path \<and>
    VerifyInclusion (RootFromLeafHashes hs) (hs ! nat i) i (int (length hs)) path = Inr ()"
proof -
  have i: "nat i < length hs" using assms by simp
  then have "hs \<noteq> []" by auto
  with assms verifyDescend_inclusionProof [OF i] show ?thesis
    by (simp add: InclusionProofFromHashes_def VerifyInclusion_def RootFromLeafHashes_def)
qed

lemma consistency_path:
  assumes "0 < m" "m \<le> n" "n \<le> int (length hs)" "n \<le> 2 ^ 63"
  shows "\<exists>path. ConsistencyProofFromHashes hs m n = Inr path \<and>
    VerifyConsistency (RootFromLeafHashes (take (nat m) hs)) (RootFromLeafHashes (take (nat n) hs)) m n path = Inr ()"
proof (cases "m = n")
  case True
  with assms show ?thesis
    by (auto simp: ConsistencyProofFromHashes_def VerifyConsistency_def subProof.simps)
next
  case False
  have mn: "0 < nat m" "nat m < nat n" "nat n \<le> length hs" using assms False by auto
  then have roots: "RootFromLeafHashes (take (nat m) hs) = rootOfHashes (take (nat m) hs)"
    "RootFromLeafHashes (take (nat n) hs) = rootOfHashes (take (nat n) hs)"
    by (auto simp: RootFromLeafHashes_def)
  have power: "isPowerOfTwo m \<longleftrightarrow> (\<exists>j. nat m = 2 ^ j)"
    using assms(1) by (auto simp: isPowerOfTwo_iff nat_power_eq int_eq_iff intro: exI)
  have "cons_eval (nat m) (nat n) (cons_path (rootOfHashes (take (nat m) hs)) m (subProof hs (nat m) (nat n) True))
      = Some (rootOfHashes (take (nat m) hs), rootOfHashes (take (nat n) hs))"
    using mn power cons_eval_subProof_power [of "nat m" _ "nat n" hs] cons_eval_subProof_other [of "nat m" "nat n" hs]
    by (cases "isPowerOfTwo m") (auto simp: cons_path_def)
  with VerifyConsistency_iff [OF assms(1)] assms False show ?thesis
    by (auto simp: ConsistencyProofFromHashes_def roots)
qed

section \<open>Inclusion\<close>

text \<open>
  Claim C4. Completeness of audit paths: for every index within the log, \<open>InclusionProof\<close>
  returns a path, and \<open>VerifyInclusion\<close> accepts it for that leaf's hash, that index, the
  tree's size and the tree's root.
\<close>

theorem inclusion_complete:
  assumes "0 \<le> i" "i < int (length leaves)"
  shows "\<exists>path. InclusionProof leaves i = Inr path \<and>
    VerifyInclusion (Root leaves) (LeafHash (leaves ! nat i)) i (int (length leaves)) path = Inr ()"
  using inclusion_path [of i "map LeafHash leaves"] assms
  by (simp add: InclusionProof_def InclusionProofFromHashes_def nat_less_iff)

theorem inclusion_complete_witness:
  "\<exists>path. InclusionProof [''a'', ''b'', ''c''] 2 = Inr path \<and>
    VerifyInclusion (Root [''a'', ''b'', ''c'']) (LeafHash ''c'') 2 3 path = Inr ()"
  using inclusion_complete [of 2 "[''a'', ''b'', ''c'']"] by simp

text \<open>
  Claim C3. Soundness of audit paths: if \<open>VerifyInclusion\<close> accepts a 32-byte leaf hash at an
  index against the root of a tree of 32-byte leaf hashes, then the tree has exactly that hash
  at that index and the path is exactly the one \<open>InclusionProof\<close> produces; or else one of
  the strings the verifier hashed and one of the strings hashed to build the tree are a
  SHA-256 collision. Nothing is assumed of the length or content of the path.
\<close>

theorem inclusion_sound:
  assumes "VerifyInclusion (RootFromLeafHashes hs) leafHash i (int (length hs)) path = Inr ()"
    and "hash_list hs" "length leafHash = HashSize"
  shows "InclusionProofFromHashes hs i = Inr path \<and> leafHash = hs ! nat i
    \<or> collides (descend_inputs leafHash (nat i) (length hs) path) (tree_inputs hs)"
proof -
  have i: "0 \<le> i" "i < int (length hs)"
    and v: "verifyDescend leafHash (nat i) (length hs) path = Inr (RootFromLeafHashes hs, 0)"
    using assms(1) by (auto simp: VerifyInclusion_def result_simps split: if_splits)
  moreover from i have "RootFromLeafHashes hs = rootOfHashes hs"
    by (auto simp: RootFromLeafHashes_def)
  ultimately show ?thesis
    using verifyDescend_sound [of leafHash "nat i" hs path] assms(2,3)
    by (auto simp: InclusionProofFromHashes_def)
qed

theorem inclusion_sound_witness:
  "InclusionProofFromHashes [LeafHash ''a'', LeafHash ''b''] 1 = Inr [LeafHash ''a''] \<and>
   LeafHash ''b'' = [LeafHash ''a'', LeafHash ''b''] ! nat 1
   \<or> collides (descend_inputs (LeafHash ''b'') (nat 1) (length [LeafHash ''a'', LeafHash ''b'']) [LeafHash ''a''])
       (tree_inputs [LeafHash ''a'', LeafHash ''b''])"
proof (rule inclusion_sound)
  show "VerifyInclusion (RootFromLeafHashes [LeafHash ''a'', LeafHash ''b'']) (LeafHash ''b'') 1
      (int (length [LeafHash ''a'', LeafHash ''b''])) [LeafHash ''a''] = Inr ()"
    by (simp add: VerifyInclusion_def RootFromLeafHashes_def rootOfHashes_node verifyDescend.simps Let_def)
  show "hash_list [LeafHash ''a'', LeafHash ''b'']" by (simp add: hash_list_def)
qed simp

text \<open>
  The length hypothesis of soundness is needed: \<open>VerifyInclusion\<close> does not check
  that hashes have 32 bytes, and in a tree of two leaves it accepts, with an empty sibling, the
  64-byte concatenation of both leaf hashes as a leaf hash at index 0, which is not in the tree.
\<close>

theorem inclusion_needs_hash_length:
  "VerifyInclusion (Root [a, b]) (LeafHash a @ LeafHash b) 0 2 [[]] = Inr () \<and>
   LeafHash a @ LeafHash b \<notin> set (map LeafHash [a, b])"
proof
  show "VerifyInclusion (Root [a, b]) (LeafHash a @ LeafHash b) 0 2 [[]] = Inr ()"
    by (simp add: VerifyInclusion_def Root_def rootOfHashes_node verifyDescend.simps Let_def NodeHash_def)
  have "length (LeafHash a @ LeafHash b) \<noteq> length (LeafHash x)" for x
    by (simp add: HashSize_def)
  then have "LeafHash a @ LeafHash b \<noteq> LeafHash x" for x by (metis (no_types))
  then have "\<forall>y\<in>set (map LeafHash [a, b]). LeafHash a @ LeafHash b \<noteq> y" by auto
  then show "LeafHash a @ LeafHash b \<notin> set (map LeafHash [a, b])" by blast
qed

section \<open>Consistency\<close>

text \<open>
  Claim C6. Completeness of consistency proofs: for all sizes \<open>0 < m \<le> n\<close> within the log
  (and within the range of an \<open>int\<close>), \<open>ConsistencyProof\<close> returns a proof and
  \<open>VerifyConsistency\<close> accepts it for the roots of the two prefixes.
\<close>

theorem consistency_complete:
  assumes "0 < m" "m \<le> n" "n \<le> int (length leaves)" "n \<le> 2 ^ 63"
  shows "\<exists>path. ConsistencyProof leaves m n = Inr path \<and>
    VerifyConsistency (Root (take (nat m) leaves)) (Root (take (nat n) leaves)) m n path = Inr ()"
  using consistency_path [of m n "map LeafHash leaves"] assms
  by (simp add: ConsistencyProof_def ConsistencyProofFromHashes_def take_map)

theorem consistency_complete_witness:
  "\<exists>path. ConsistencyProof [''a'', ''b'', ''c'', ''d'', ''e''] 3 5 = Inr path \<and>
    VerifyConsistency (Root (take (nat 3) [''a'', ''b'', ''c'', ''d'', ''e'']))
      (Root (take (nat 5) [''a'', ''b'', ''c'', ''d'', ''e''])) 3 5 path = Inr ()"
  by (rule consistency_complete) simp_all

text \<open>
  Claim C5. Soundness of consistency proofs: if \<open>VerifyConsistency\<close> accepts an old root of
  size \<open>m\<close> against the root of a tree of \<open>n\<close> leaf hashes, with a proof whose elements have 32 bytes,
  then the old root is the root of the tree's first \<open>m\<close> leaf hashes (nothing was
  rewritten or removed), or a SHA-256 collision is among the strings hashed. The code does not
  check that length, so its caller has to; \<open>consistency_needs_hash_length\<close> shows what happens
  otherwise. Nothing is assumed of the old root.
\<close>

theorem consistency_sound:
  assumes "VerifyConsistency oldRoot (RootFromLeafHashes hs) m (int (length hs)) path = Inr ()"
    and "0 < m" "hash_list hs" "hash_list path" "length hs \<le> 2 ^ 63"
  shows "oldRoot = RootFromLeafHashes (take (nat m) hs)
    \<or> collides (cons_inputs (nat m) (length hs) (cons_path oldRoot m path)) (tree_inputs hs)"
proof (cases "m = int (length hs)")
  case True
  with assms(1) show ?thesis by (auto simp: VerifyConsistency_def split: if_splits)
next
  case False
  have m: "m < int (length hs)"
    using assms(1,2) False by (auto simp: VerifyConsistency_def split: if_splits)
  have "int (length hs) \<le> 2 ^ 63" using assms(5) by simp
  with assms(1,2) m have "cons_eval (nat m) (length hs) (cons_path oldRoot m path)
      = Some (oldRoot, RootFromLeafHashes hs)"
    using VerifyConsistency_iff [of m "int (length hs)"] by simp
  moreover have "RootFromLeafHashes hs = rootOfHashes hs"
    "RootFromLeafHashes (take (nat m) hs) = rootOfHashes (take (nat m) hs)"
    using assms(2) m by (auto simp: RootFromLeafHashes_def)
  moreover have "hash_list (tl (cons_path oldRoot m path))"
    using assms(4) hash_list_tl by (simp add: cons_path_def)
  ultimately show ?thesis
    using cons_eval_sound [of "nat m" hs "cons_path oldRoot m path" oldRoot] assms(2,3) m by auto
qed

theorem consistency_sound_witness:
  "LeafHash ''a'' = RootFromLeafHashes (take (nat 1) [LeafHash ''a'', LeafHash ''b''])
   \<or> collides (cons_inputs (nat 1) (length [LeafHash ''a'', LeafHash ''b''])
        (cons_path (LeafHash ''a'') 1 [LeafHash ''b''])) (tree_inputs [LeafHash ''a'', LeafHash ''b''])"
proof (rule consistency_sound)
  show "VerifyConsistency (LeafHash ''a'') (RootFromLeafHashes [LeafHash ''a'', LeafHash ''b'']) 1
      (int (length [LeafHash ''a'', LeafHash ''b''])) [LeafHash ''b''] = Inr ()"
    by (simp add: VerifyConsistency_iff cons_path_def isPowerOfTwo_def cons_eval.simps Let_def
        RootFromLeafHashes_def rootOfHashes_node)
qed (simp_all add: hash_list_def)

text \<open>
  Without the length of the proof's elements the verifier is not sound: the children of a node can be
  cut at another place. Of a tree of four leaves, the two hashes of the right half are handed
  over as 33 and 31 bytes. \<open>VerifyConsistency\<close> then accepts, for size 3, an old root of 32 bytes
  that is not the root of the first three leaves, unless two different strings of the tree have
  the same hash.
\<close>

theorem consistency_needs_hash_length:
  fixes a b c d :: bytes
  defines "left \<equiv> NodeHash (LeafHash a) (LeafHash b)"
    and "p \<equiv> take 33 (LeafHash c @ LeafHash d)" and "q \<equiv> drop 33 (LeafHash c @ LeafHash d)"
  shows "VerifyConsistency (NodeHash left p) (Root [a, b, c, d]) 3 4 [p, q, left] = Inr () \<and>
    length (NodeHash left p) = HashSize \<and>
    (NodeHash left p = Root [a, b, c] \<longrightarrow>
      node_input left p \<noteq> node_input left (LeafHash c) \<and>
      sha256 (node_input left p) = sha256 (node_input left (LeafHash c)))"
proof -
  have whole: "p @ q = LeafHash c @ LeafHash d" unfolding p_def q_def by (rule append_take_drop_id)
  have two: "largestPowerOfTwoLessThan 2 = 1" "largestPowerOfTwoLessThan 3 = 2" "largestPowerOfTwoLessThan 4 = 2"
    by code_simp+
  have sucs: "largestPowerOfTwoLessThan (Suc (Suc 0)) = Suc 0" "largestPowerOfTwoLessThan (Suc (Suc (Suc 0))) = Suc (Suc 0)"
    "largestPowerOfTwoLessThan (Suc (Suc (Suc (Suc 0)))) = Suc (Suc 0)"
    by code_simp+
  have new: "Root [a, b, c, d] = NodeHash left (NodeHash p q)"
    using whole by (simp add: Root_def rootOfHashes_node sucs left_def NodeHash_def)
  have old: "Root [a, b, c] = NodeHash left (LeafHash c)"
    by (simp add: Root_def rootOfHashes_node sucs left_def)
  have "\<not> isPowerOfTwo 3" by code_simp
  then have "VerifyConsistency (NodeHash left p) (Root [a, b, c, d]) 3 4 [p, q, left] = Inr ()"
    by (simp add: VerifyConsistency_iff cons_path_def cons_eval.simps Let_def two new)
  moreover have "length p = 33" by (simp add: p_def HashSize_def)
  then have "length p \<noteq> length (LeafHash c)" by (simp add: HashSize_def)
  then have "p \<noteq> LeafHash c" by metis
  ultimately show ?thesis unfolding old by (simp add: NodeHash_node_input node_input_def HashSize_def)
qed

text \<open>
  Claim C24. The verifier's loop over the bits of the two sizes computes the recursion that the
  prover runs: for \<open>0 < m < n\<close> it accepts exactly the proofs that the mirror image of
  \<open>subProof\<close> evaluates to the two roots.
\<close>

theorem consistency_loop_is_recursion:
  assumes "0 < m" "m < n" "n \<le> 2 ^ 63"
  shows "VerifyConsistency oldRoot newRoot m n path = Inr ()
    \<longleftrightarrow> cons_eval (nat m) (nat n) (if isPowerOfTwo m then oldRoot # path else path) = Some (oldRoot, newRoot)"
  using VerifyConsistency_iff [OF assms] by (simp add: cons_path_def)

theorem consistency_loop_is_recursion_witness:
  "VerifyConsistency ''r'' ''s'' 3 7 [''a'', ''b''] = Inr ()
    \<longleftrightarrow> cons_eval (nat 3) (nat 7) (if isPowerOfTwo 3 then ''r'' # [''a'', ''b''] else [''a'', ''b'']) = Some (''r'', ''s'')"
  by (rule consistency_loop_is_recursion) simp_all

section \<open>Roots\<close>

text \<open>
  The recursion of \<open>rootOfHashes\<close> returns on every non-empty list, with the value
  of the total function the other theorems are about, and on the empty list, which no caller
  passes, it never returns.
\<close>

theorem rootOfHashes_terminates:
  "rootOfHashes_rec hs = (if hs = [] then None else Some (rootOfHashes hs))"
proof (cases "hs = []")
  case True
  have "xs \<noteq> []" if "rootOfHashes_rec xs = Some r" for xs r
    using that
  proof (rule rootOfHashes_rec.raw_induct [rotated])
    fix f :: "bytes list \<Rightarrow> bytes option" and xs r
    assume nonempty: "\<And>xs r. f xs = Some r \<Longrightarrow> xs \<noteq> []"
      and eq: "(if length xs = 1 then Some (xs ! 0)
        else let k = largestPowerOfTwoLessThan (length xs)
             in Option.bind (f (take k xs)) (\<lambda>left. Option.bind (f (drop k xs)) (\<lambda>right. Some (NodeHash left right))))
        = Some r"
    from eq nonempty [of "[]"] show "xs \<noteq> []"
      by (cases "xs = []") (auto simp: Let_def bind_eq_Some_conv)
  qed
  with True show ?thesis by (cases "rootOfHashes_rec []") auto
next
  case False
  then have "rootOfHashes_rec hs = Some (rootOfHashes hs)"
  proof (induction hs rule: rootOfHashes.induct)
    case (1 hs)
    show ?case
    proof (cases "length hs \<le> 1")
      case True
      with "1.prems" obtain h where "hs = [h]" by (cases hs) auto
      then show ?thesis by (simp add: rootOfHashes_rec.simps)
    next
      case False
      note k = split_bounds [of "length hs"]
      let ?k = "largestPowerOfTwoLessThan (length hs)"
      have "take ?k hs \<noteq> []" "drop ?k hs \<noteq> []"
        using False k by (auto simp del: split_bounds)
      with False 1 show ?thesis
        by (simp add: rootOfHashes_rec.simps [of hs] rootOfHashes_node Let_def)
    qed
  qed
  with False show ?thesis by simp
qed

end
