(* ===== verification/Encoding.thy ===== *)
theory Encoding
  imports Prelude
begin

text \<open>
  Text encodings of Go's standard library that the ledger uses: \<open>encoding/hex\<close> (also the
  hand-written \<open>hex\<close> of \<open>internal/txlog\<close>), \<open>encoding/base64\<close> (\<open>StdEncoding\<close> and
  \<open>RawURLEncoding\<close>), decimal integers (\<open>%d\<close> and \<open>strconv.ParseInt(s, 10, 64)\<close>),
  and \<open>strings.SplitN\<close>, with the round trips the other components rest on.
\<close>

section \<open>Hexadecimal\<close>

definition hex_digit :: "nat \<Rightarrow> char" where
  "hex_digit n = ''0123456789abcdef'' ! n"

definition hex_encode :: "bytes \<Rightarrow> bytes" where
  "hex_encode b = concat (map (\<lambda>c. [hex_digit (code c div 16), hex_digit (code c mod 16)]) b)"

definition from_hex_digit :: "char \<Rightarrow> nat option" where
  "from_hex_digit c =
     (if c \<in> set ''0123456789'' then Some (code c - 48)
      else if c \<in> set ''abcdef'' then Some (code c - 87)
      else if c \<in> set ''ABCDEF'' then Some (code c - 55)
      else None)"

fun hex_decode :: "bytes \<Rightarrow> bytes option" where
  "hex_decode [] = Some []"
| "hex_decode [_] = None"
| "hex_decode (h # l # r) =
     (case (from_hex_digit h, from_hex_digit l, hex_decode r) of
        (Some x, Some y, Some bs) \<Rightarrow> Some (byte (16 * x + y) # bs)
      | _ \<Rightarrow> None)"

lemma less_16_cases:
  "n < (16::nat) \<Longrightarrow> n \<in> {0, 1, 2, 3, 4, 5, 6, 7, 8, 9, 10, 11, 12, 13, 14, 15}"
  by (auto simp: eval_nat_numeral less_Suc_eq)

lemma from_hex_hex_digit [simp]: "n < 16 \<Longrightarrow> from_hex_digit (hex_digit n) = Some n"
  by (drule less_16_cases) (auto simp: from_hex_digit_def hex_digit_def code_def)

lemma hex_encode_simps [simp]:
  "hex_encode [] = []"
  "hex_encode (c # b) = hex_digit (code c div 16) # hex_digit (code c mod 16) # hex_encode b"
  by (simp_all add: hex_encode_def)

lemma hex_decode_encode [simp]: "hex_decode (hex_encode b) = Some b"
proof (induction b)
  case (Cons c b)
  have "code c div 16 < 16" using code_less_256 [of c] by linarith
  then show ?case using Cons by simp
qed simp

lemma hex_encode_inject [simp]: "hex_encode a = hex_encode b \<longleftrightarrow> a = b"
  by (metis hex_decode_encode option.inject)

lemma length_hex_encode [simp]: "length (hex_encode b) = 2 * length b"
  by (induction b) auto

lemma set_hex_digit: "n < 16 \<Longrightarrow> hex_digit n \<in> set ''0123456789abcdef''"
  by (drule less_16_cases) (auto simp: hex_digit_def)

lemma set_hex_encode: "set (hex_encode b) \<subseteq> set ''0123456789abcdef''"
proof (induction b)
  case (Cons c b)
  have "code c div 16 < 16" using code_less_256 [of c] by linarith
  moreover have "code c mod 16 < 16" by simp
  ultimately have "{hex_digit (code c div 16), hex_digit (code c mod 16)} \<subseteq> set ''0123456789abcdef''"
    using set_hex_digit by blast
  with Cons show ?case by auto
qed simp

section \<open>Base64\<close>

definition b64_std :: bytes where
  "b64_std = ''ABCDEFGHIJKLMNOPQRSTUVWXYZabcdefghijklmnopqrstuvwxyz0123456789+/''"

definition b64_url :: bytes where
  "b64_url = ''ABCDEFGHIJKLMNOPQRSTUVWXYZabcdefghijklmnopqrstuvwxyz0123456789-_''"

fun index_of :: "char \<Rightarrow> bytes \<Rightarrow> nat option" where
  "index_of c [] = None"
| "index_of c (d # ds) = (if c = d then Some 0 else map_option Suc (index_of c ds))"

fun b64_encode :: "bytes \<Rightarrow> bool \<Rightarrow> bytes \<Rightarrow> bytes" where
  "b64_encode al pad [] = []"
| "b64_encode al pad [a] =
     [al ! (code a div 4), al ! (code a mod 4 * 16)] @ (if pad then ''=='' else [])"
| "b64_encode al pad [a, b] =
     [al ! (code a div 4), al ! (code a mod 4 * 16 + code b div 16), al ! (code b mod 16 * 4)]
     @ (if pad then ''='' else [])"
| "b64_encode al pad (a # b # c # r) =
     [al ! (code a div 4), al ! (code a mod 4 * 16 + code b div 16),
      al ! (code b mod 16 * 4 + code c div 64), al ! (code c mod 64)] @ b64_encode al pad r"

text \<open>The bytes of two, three or four digits; surplus bits are dropped, as Go's decoder does.\<close>

definition quad2 :: "nat \<Rightarrow> nat \<Rightarrow> bytes" where
  "quad2 w x = [byte (w * 4 + x div 16)]"

definition quad3 :: "nat \<Rightarrow> nat \<Rightarrow> nat \<Rightarrow> bytes" where
  "quad3 w x y = [byte (w * 4 + x div 16), byte (x mod 16 * 16 + y div 4)]"

definition quad4 :: "nat \<Rightarrow> nat \<Rightarrow> nat \<Rightarrow> nat \<Rightarrow> bytes" where
  "quad4 w x y z =
     [byte (w * 4 + x div 16), byte (x mod 16 * 16 + y div 4), byte (y mod 4 * 64 + z)]"

fun b64_decode_digits :: "bytes \<Rightarrow> bool \<Rightarrow> bytes \<Rightarrow> bytes option" where
  "b64_decode_digits al pad [] = Some []"
| "b64_decode_digits al pad [a] = None"
| "b64_decode_digits al pad [a, b] =
     (if pad then None else
      case (index_of a al, index_of b al) of
        (Some w, Some x) \<Rightarrow> Some (quad2 w x)
      | _ \<Rightarrow> None)"
| "b64_decode_digits al pad [a, b, c] =
     (if pad then None else
      case (index_of a al, index_of b al, index_of c al) of
        (Some w, Some x, Some y) \<Rightarrow> Some (quad3 w x y)
      | _ \<Rightarrow> None)"
| "b64_decode_digits al pad (a # b # c # d # r) =
     (case (index_of a al, index_of b al) of
        (Some w, Some x) \<Rightarrow>
          (if pad \<and> d = CHR ''='' then
             (if r \<noteq> [] then None
              else if c = CHR ''='' then Some (quad2 w x)
              else case index_of c al of Some y \<Rightarrow> Some (quad3 w x y) | None \<Rightarrow> None)
           else
             (case (index_of c al, index_of d al, b64_decode_digits al pad r) of
                (Some y, Some z, Some bs) \<Rightarrow> Some (quad4 w x y z @ bs)
              | _ \<Rightarrow> None))
      | _ \<Rightarrow> None)"

text \<open>Go's decoder skips carriage returns and line feeds wherever they occur.\<close>

definition b64_decode :: "bytes \<Rightarrow> bool \<Rightarrow> bytes \<Rightarrow> bytes option" where
  "b64_decode al pad s =
     b64_decode_digits al pad (filter (\<lambda>c. c \<noteq> CHR 0x0D \<and> c \<noteq> CHR 0x0A) s)"

definition StdEncode :: "bytes \<Rightarrow> bytes" where "StdEncode = b64_encode b64_std True"
definition StdDecode :: "bytes \<Rightarrow> bytes option" where "StdDecode = b64_decode b64_std True"
definition RawURLEncode :: "bytes \<Rightarrow> bytes" where "RawURLEncode = b64_encode b64_url False"
definition RawURLDecode :: "bytes \<Rightarrow> bytes option" where "RawURLDecode = b64_decode b64_url False"

text \<open>An alphabet of 64 distinct characters, none of them padding or a line break.\<close>

definition alphabet :: "bytes \<Rightarrow> bool" where
  "alphabet al \<longleftrightarrow> length al = 64 \<and> distinct al \<and> CHR ''='' \<notin> set al
                 \<and> CHR 0x0D \<notin> set al \<and> CHR 0x0A \<notin> set al"

lemma alphabet_std: "alphabet b64_std"
  unfolding alphabet_def b64_std_def by simp

lemma alphabet_url: "alphabet b64_url"
  unfolding alphabet_def b64_url_def by simp

lemma index_of_nth: "distinct al \<Longrightarrow> i < length al \<Longrightarrow> index_of (al ! i) al = Some i"
proof (induction al arbitrary: i)
  case (Cons a al)
  then show ?case by (cases i) auto
qed simp

lemma alphabet_index [simp]: "alphabet al \<Longrightarrow> i < 64 \<Longrightarrow> index_of (al ! i) al = Some i"
  by (simp add: alphabet_def index_of_nth)

lemma alphabet_nth_not_pad [simp]: "alphabet al \<Longrightarrow> i < 64 \<Longrightarrow> al ! i \<noteq> CHR ''=''"
  by (metis alphabet_def nth_mem)

lemma code_div_16 [simp]: "code c div 16 < 16"
  using code_less_256 [of c] by linarith

lemma code_div_64 [simp]: "code c div 64 < 4"
  using code_less_256 [of c] by linarith

lemma sextets [simp]:
  "code a div 4 < 64" "code a mod 4 * 16 < 64" "code a mod 4 * 16 + code b div 16 < 64"
  "code b mod 16 * 4 < 64" "code b mod 16 * 4 + code c div 64 < 64" "code c mod 64 < 64"
proof -
  have "code a < 256" "code b < 256" "code a mod 4 < 4" "code b mod 16 < 16"
    by simp_all
  then show "code a div 4 < 64" "code a mod 4 * 16 < 64" "code a mod 4 * 16 + code b div 16 < 64"
    "code b mod 16 * 4 < 64" "code b mod 16 * 4 + code c div 64 < 64"
    using code_div_16 [of b] code_div_64 [of c] by linarith+
qed simp

lemma sextet_split [simp]:
  "(code a mod 4 * 16 + code b div 16) div 16 = code a mod 4"
  "(code a mod 4 * 16 + code b div 16) mod 16 = code b div 16"
  "(code b mod 16 * 4 + code c div 64) div 4 = code b mod 16"
  "(code b mod 16 * 4 + code c div 64) mod 4 = code c div 64"
  "code b div 16 mod 16 = code b div 16" "code b div 16 div 16 = 0"
  "code c div 64 mod 4 = code c div 64" "code c div 64 div 4 = 0"
  using code_div_16 [of b] code_div_64 [of c] by auto

lemma b64_decode_digits_encode:
  "alphabet al \<Longrightarrow> b64_decode_digits al pad (b64_encode al pad bs) = Some bs"
proof (induction al pad bs rule: b64_encode.induct)
  case (2 al pad a)
  then show ?case by (auto simp: quad2_def)
next
  case (3 al pad a b)
  then show ?case by (auto simp: quad3_def)
next
  case (4 al pad a b c r)
  then show ?case by (auto simp: quad4_def)
qed simp

lemma set_b64_encode:
  "alphabet al \<Longrightarrow> set (b64_encode al pad bs) \<subseteq> set al \<union> (if pad then {CHR ''=''} else {})"
proof (induction al pad bs rule: b64_encode.induct)
  case (4 al pad a b c r)
  moreover have "i < 64 \<Longrightarrow> al ! i \<in> set al" for i
    using "4.prems" by (simp add: alphabet_def)
  ultimately show ?case by auto
qed (auto simp: alphabet_def)

lemma b64_decode_encode:
  assumes al: "alphabet al"
  shows "b64_decode al pad (b64_encode al pad bs) = Some bs"
proof -
  have "filter (\<lambda>c. c \<noteq> CHR 0x0D \<and> c \<noteq> CHR 0x0A) (b64_encode al pad bs) = b64_encode al pad bs"
    using set_b64_encode [OF al, of pad bs] al
    by (intro filter_True) (auto simp: alphabet_def split: if_splits)
  with al show ?thesis by (simp add: b64_decode_def b64_decode_digits_encode)
qed

lemma StdDecode_Encode [simp]: "StdDecode (StdEncode b) = Some b"
  by (simp add: StdDecode_def StdEncode_def b64_decode_encode alphabet_std)

lemma RawURLDecode_Encode [simp]: "RawURLDecode (RawURLEncode b) = Some b"
  by (simp add: RawURLDecode_def RawURLEncode_def b64_decode_encode alphabet_url)

lemma set_RawURLEncode: "set (RawURLEncode b) \<subseteq> set b64_url"
  using set_b64_encode [OF alphabet_url, of False b] by (simp add: RawURLEncode_def)

lemma set_StdEncode: "set (StdEncode b) \<subseteq> insert CHR ''='' (set b64_std)"
  using set_b64_encode [OF alphabet_std, of True b] by (auto simp: StdEncode_def)

section \<open>Decimal integers\<close>

text \<open>\<open>%d\<close> of an integer, and \<open>strconv.ParseInt(s, 10, 64)\<close> (\<open>None\<close> is its error).\<close>

definition digit_char :: "int \<Rightarrow> char" where
  "digit_char d = ''0123456789'' ! nat d"

function format_nat :: "int \<Rightarrow> bytes" where
  "format_nat n = (if n < 10 then [digit_char n] else format_nat (n div 10) @ [digit_char (n mod 10)])"
  by pat_completeness auto
termination by (relation "measure nat") auto

declare format_nat.simps [simp del]

definition format_int :: "int \<Rightarrow> bytes" where
  "format_int n = (if n < 0 then CHR ''-'' # format_nat (- n) else format_nat n)"

definition is_digit :: "char \<Rightarrow> bool" where
  "is_digit c \<longleftrightarrow> c \<in> set ''0123456789''"

definition digit_val :: "char \<Rightarrow> int" where
  "digit_val c = of_char c - 48"

definition parse_digits :: "int \<Rightarrow> bytes \<Rightarrow> int" where
  "parse_digits acc s = foldl (\<lambda>a c. a * 10 + digit_val c) acc s"

definition parse_uint :: "bytes \<Rightarrow> int option" where
  "parse_uint s = (if s \<noteq> [] \<and> list_all is_digit s then Some (parse_digits 0 s) else None)"

definition ParseInt :: "bytes \<Rightarrow> int option" where
  "ParseInt s =
     (case s of
        [] \<Rightarrow> None
      | c # r \<Rightarrow>
          (let m = (if c = CHR ''-'' then map_option uminus (parse_uint r)
                    else if c = CHR ''+'' then parse_uint r
                    else parse_uint s)
           in case m of Some n \<Rightarrow> if in_i64 n then Some n else None | None \<Rightarrow> None))"

lemma ten_cases: "n < (10::nat) \<Longrightarrow> n \<in> {0, 1, 2, 3, 4, 5, 6, 7, 8, 9}"
  by (auto simp: eval_nat_numeral less_Suc_eq)

lemma digit_char [simp]:
  assumes "0 \<le> d" "d < 10"
  shows "is_digit (digit_char d)" "digit_val (digit_char d) = d"
proof -
  obtain n where n: "d = int n" "n < 10"
    using assms by (metis nonneg_int_cases of_nat_less_iff of_nat_numeral)
  from ten_cases [OF n(2)] show "is_digit (digit_char d)" "digit_val (digit_char d) = d"
    by (auto simp: is_digit_def digit_val_def digit_char_def n(1))
qed

lemma format_nat_digits: "0 \<le> n \<Longrightarrow> format_nat n \<noteq> [] \<and> list_all is_digit (format_nat n)"
proof (induction n rule: format_nat.induct)
  case (1 n)
  then show ?case
    by (cases "n < 10") (simp_all add: format_nat.simps [of n])
qed

lemma parse_digits_format_nat: "0 \<le> n \<Longrightarrow> parse_digits 0 (format_nat n) = n"
proof (induction n rule: format_nat.induct)
  case (1 n)
  then show ?case
    by (cases "n < 10") (simp_all add: format_nat.simps [of n] parse_digits_def)
qed

lemma parse_uint_format_nat [simp]: "0 \<le> n \<Longrightarrow> parse_uint (format_nat n) = Some n"
  by (simp add: parse_uint_def format_nat_digits parse_digits_format_nat)

lemma is_digit_not_sign: "is_digit c \<Longrightarrow> c \<noteq> CHR ''-'' \<and> c \<noteq> CHR ''+''"
  by (auto simp: is_digit_def)

text \<open>Decimal output reads back: for any integer in the range of an \<open>int64\<close>.\<close>

lemma ParseInt_format_int [simp]: "in_i64 n \<Longrightarrow> ParseInt (format_int n) = Some n"
proof (cases "n < 0")
  case True
  moreover assume "in_i64 n"
  ultimately show ?thesis by (simp add: ParseInt_def format_int_def)
next
  case False
  assume n: "in_i64 n"
  obtain c r where cr: "format_nat n = c # r" "is_digit c"
    using format_nat_digits [of n] False by (cases "format_nat n") auto
  then have "parse_uint (c # r) = Some n"
    using False parse_uint_format_nat [of n] by simp
  with cr n False is_digit_not_sign [of c] show ?thesis
    by (simp add: ParseInt_def format_int_def Let_def)
qed

lemma format_int_inject: "in_i64 a \<Longrightarrow> in_i64 b \<Longrightarrow> format_int a = format_int b \<Longrightarrow> a = b"
  by (metis ParseInt_format_int option.inject)

lemma set_format_int: "set (format_int n) \<subseteq> set ''-0123456789''"
  using format_nat_digits [of n] format_nat_digits [of "- n"]
  by (auto simp: format_int_def list_all_iff is_digit_def)

section \<open>Splitting at a separator\<close>

text \<open>\<open>strings.SplitN(s, sep, 2)\<close> for a one-byte separator: \<open>None\<close> when it does not occur.\<close>

fun split2 :: "char \<Rightarrow> bytes \<Rightarrow> (bytes \<times> bytes) option" where
  "split2 sep [] = None"
| "split2 sep (c # s) =
     (if c = sep then Some ([], s)
      else map_option (\<lambda>(a, b). (c # a, b)) (split2 sep s))"

lemma split2_append: "sep \<notin> set a \<Longrightarrow> split2 sep (a @ sep # b) = Some (a, b)"
  by (induction a) auto

lemma split2_Some: "split2 sep s = Some (a, b) \<Longrightarrow> s = a @ sep # b \<and> sep \<notin> set a"
  by (induction s arbitrary: a) (auto split: if_splits)

text \<open>Two joins at a separator that occurs in neither first part agree componentwise.\<close>

lemma sep_join_inject:
  assumes "(sep :: char) \<notin> set a" "sep \<notin> set a'" "a @ sep # b = a' @ sep # b'"
  shows "a = a' \<and> b = b'"
proof -
  have "split2 sep (a @ sep # b) = Some (a, b)"
    by (rule split2_append) (rule assms)
  moreover have "split2 sep (a' @ sep # b') = Some (a', b')"
    by (rule split2_append) (rule assms)
  ultimately have "Some (a, b) = Some (a', b')"
    unfolding assms(3) by (rule trans [OF sym])
  then show ?thesis by blast
qed

end
