(* ===== verification/Json.thy ===== *)
theory Json
  imports Encoding
begin

text \<open>
  The part of \<open>encoding/json\<close> (and of \<open>unicode/utf8\<close>) that the program decodes and
  encodes signed payloads, cookies and webhooks with. \<open>json_parse\<close> is the syntax check and
  the generic decoding of \<open>json.Unmarshal\<close>; \<open>decode_struct\<close> is the assignment of an
  object's members to the fields of a struct, with Go's rules for the key match, \<open>null\<close>,
  integer ranges and byte slices. The encoder is in the theory \<open>JsonPrint\<close>.
\<close>

section \<open>UTF-8\<close>

text \<open>
  \<open>decode_rune\<close> is \<open>utf8.DecodeRune\<close> on a non-empty string: the code point and the
  number of bytes it takes, or the replacement character and one byte if the bytes are not
  well-formed UTF-8.
\<close>

definition rune_error :: int where "rune_error = 0xFFFD"

definition cont :: "char \<Rightarrow> bool" where
  "cont c \<longleftrightarrow> 128 \<le> code c \<and> code c < 192"

definition between :: "nat \<Rightarrow> nat \<Rightarrow> char \<Rightarrow> bool" where
  "between lo hi c \<longleftrightarrow> lo \<le> code c \<and> code c \<le> hi"

definition low6 :: "char \<Rightarrow> int" where
  "low6 c = int (code c mod 64)"

fun second_ok :: "char \<Rightarrow> char \<Rightarrow> bool" where
  "second_ok a b \<longleftrightarrow>
     (if code a = 0xE0 then between 0xA0 0xBF b
      else if code a = 0xED then between 0x80 0x9F b
      else if code a = 0xF0 then between 0x90 0xBF b
      else if code a = 0xF4 then between 0x80 0x8F b
      else cont b)"

definition decode_rune :: "bytes \<Rightarrow> int \<times> nat" where
  "decode_rune s =
     (case s of
        [] \<Rightarrow> (rune_error, 0)
      | a # r \<Rightarrow>
          (if code a < 0x80 then (int (code a), 1)
           else if between 0xC2 0xDF a then
             (case r of
                b # _ \<Rightarrow> if cont b then (int (code a mod 32) * 64 + low6 b, 2) else (rune_error, 1)
              | _ \<Rightarrow> (rune_error, 1))
           else if between 0xE0 0xEF a then
             (case r of
                b # c # _ \<Rightarrow>
                  if second_ok a b \<and> cont c
                  then (int (code a mod 16) * 4096 + low6 b * 64 + low6 c, 3) else (rune_error, 1)
              | _ \<Rightarrow> (rune_error, 1))
           else if between 0xF0 0xF4 a then
             (case r of
                b # c # d # _ \<Rightarrow>
                  if second_ok a b \<and> cont c \<and> cont d
                  then (int (code a mod 8) * 262144 + low6 b * 4096 + low6 c * 64 + low6 d, 4)
                  else (rune_error, 1)
              | _ \<Rightarrow> (rune_error, 1))
           else (rune_error, 1)))"

definition ubyte :: "int \<Rightarrow> char" where
  "ubyte n = byte (nat n)"

definition encode_rune :: "int \<Rightarrow> bytes" where
  "encode_rune x =
     (let r = (if x < 0 \<or> x > 0x10FFFF \<or> (0xD800 \<le> x \<and> x \<le> 0xDFFF) then rune_error else x)
      in if r < 0x80 then [ubyte r]
         else if r < 0x800 then [ubyte (0xC0 + r div 64), ubyte (0x80 + r mod 64)]
         else if r < 0x10000 then
           [ubyte (0xE0 + r div 4096), ubyte (0x80 + r div 64 mod 64), ubyte (0x80 + r mod 64)]
         else
           [ubyte (0xF0 + r div 262144), ubyte (0x80 + r div 4096 mod 64),
            ubyte (0x80 + r div 64 mod 64), ubyte (0x80 + r mod 64)])"

lemma snd_decode_rune_le: "snd (decode_rune (c # s)) \<le> length (c # s)"
  by (auto simp: decode_rune_def split: list.splits)

lemma snd_decode_rune_pos: "0 < snd (decode_rune (c # s))"
  by (auto simp: decode_rune_def split: list.splits)

text \<open>\<open>valid_utf8\<close> is \<open>utf8.ValidString\<close>.\<close>

function valid_utf8 :: "bytes \<Rightarrow> bool" where
  "valid_utf8 [] = True"
| "valid_utf8 (c # s) =
     (let (r, w) = decode_rune (c # s)
      in if r = rune_error \<and> w = 1 then False else valid_utf8 (drop (w - 1) s))"
  by pat_completeness auto
termination by (relation "measure length") auto

declare valid_utf8.simps(2) [simp del]

section \<open>Syntax trees and their parser\<close>

datatype json = JNull | JBool bool | JNum bytes | JStr bytes | JArr "json list"
  | JObj "(bytes \<times> json) list"

definition is_ws :: "char \<Rightarrow> bool" where
  "is_ws c \<longleftrightarrow> c \<in> {CHR '' '', CHR 0x09, CHR 0x0D, CHR 0x0A}"

definition skip_ws :: "bytes \<Rightarrow> bytes" where
  "skip_ws s = dropWhile is_ws s"

definition quote :: char where "quote = CHR 0x22"
definition backslash :: char where "backslash = CHR 0x5C"

text \<open>Four hexadecimal digits of a \<open>\u\<close> escape, and the combination of a surrogate pair.\<close>

definition hex4 :: "bytes \<Rightarrow> int option" where
  "hex4 s =
     (case s of
        a # b # c # d # _ \<Rightarrow>
          (case (from_hex_digit a, from_hex_digit b, from_hex_digit c, from_hex_digit d) of
             (Some w, Some x, Some y, Some z) \<Rightarrow> Some (int w * 4096 + int x * 256 + int y * 16 + int z)
           | _ \<Rightarrow> None)
      | _ \<Rightarrow> None)"

definition surrogate :: "int \<Rightarrow> bool" where
  "surrogate r \<longleftrightarrow> 0xD800 \<le> r \<and> r < 0xE000"

definition second_surrogate :: "int \<Rightarrow> bytes \<Rightarrow> int option" where
  "second_surrogate r s =
     (case s of
        b # u # t \<Rightarrow>
          (if b = backslash \<and> u = CHR ''u'' then
             (case hex4 t of
                Some r2 \<Rightarrow>
                  if r < 0xDC00 \<and> 0xDC00 \<le> r2 \<and> r2 < 0xE000
                  then Some ((r - 0xD800) * 1024 + (r2 - 0xDC00) + 0x10000) else None
              | None \<Rightarrow> None)
           else None)
      | _ \<Rightarrow> None)"

definition simple_escape :: "char \<Rightarrow> char option" where
  "simple_escape c =
     (if c \<in> {quote, backslash, CHR ''/''} then Some c
      else if c = CHR ''b'' then Some CHR 0x08
      else if c = CHR ''f'' then Some CHR 0x0C
      else if c = CHR ''n'' then Some CHR 0x0A
      else if c = CHR ''r'' then Some CHR 0x0D
      else if c = CHR ''t'' then Some CHR 0x09
      else None)"

definition prepend :: "'a list \<Rightarrow> ('a list \<times> 'b) option \<Rightarrow> ('a list \<times> 'b) option" where
  "prepend p m = map_option (\<lambda>(s, r). (p @ s, r)) m"

text \<open>\<open>parse_string\<close> reads the rest of a string literal, after its opening quote.\<close>

function parse_string :: "bytes \<Rightarrow> (bytes \<times> bytes) option" where
  "parse_string [] = None"
| "parse_string (c # s) =
     (if c = quote then Some ([], s)
      else if c = backslash then
        (case s of
           [] \<Rightarrow> None
         | e # t \<Rightarrow>
             (if e = CHR ''u'' then
                (case hex4 t of
                   None \<Rightarrow> None
                 | Some r \<Rightarrow>
                     (if surrogate r then
                        (case second_surrogate r (drop 4 t) of
                           Some r2 \<Rightarrow> prepend (encode_rune r2) (parse_string (drop 10 t))
                         | None \<Rightarrow> prepend (encode_rune rune_error) (parse_string (drop 4 t)))
                      else prepend (encode_rune r) (parse_string (drop 4 t))))
              else
                (case simple_escape e of
                   None \<Rightarrow> None
                 | Some c' \<Rightarrow> prepend [c'] (parse_string t))))
      else if code c < 0x20 then None
      else if code c < 0x80 then prepend [c] (parse_string s)
      else
        (let (r, w) = decode_rune (c # s)
         in prepend (encode_rune r) (parse_string (drop (w - 1) s))))"
  by pat_completeness auto
termination by (relation "measure length") auto

declare parse_string.simps(2) [simp del]

text \<open>A number literal, by the grammar of RFC 8259.\<close>

definition digits_prefix :: "bytes \<Rightarrow> bytes" where
  "digits_prefix s = takeWhile is_digit s"

definition parse_int_part :: "bytes \<Rightarrow> (bytes \<times> bytes) option" where
  "parse_int_part s =
     (case s of
        [] \<Rightarrow> None
      | c # r \<Rightarrow>
          (if c = CHR ''0'' then Some ([c], r)
           else if is_digit c then Some (digits_prefix s, drop (length (digits_prefix s)) s)
           else None))"

definition parse_frac :: "bytes \<Rightarrow> (bytes \<times> bytes) option" where
  "parse_frac s =
     (case s of
        [] \<Rightarrow> Some ([], [])
      | c # r \<Rightarrow>
          (if c = CHR ''.'' then
             (let d = digits_prefix r in if d = [] then None else Some (c # d, drop (length d) r))
           else Some ([], s)))"

definition parse_exp :: "bytes \<Rightarrow> (bytes \<times> bytes) option" where
  "parse_exp s =
     (case s of
        [] \<Rightarrow> Some ([], [])
      | c # r \<Rightarrow>
          (if c = CHR ''e'' \<or> c = CHR ''E'' then
             (let sg = (case r of x # _ \<Rightarrow> if x = CHR ''+'' \<or> x = CHR ''-'' then [x] else [] | [] \<Rightarrow> []);
                  t = drop (length sg) r; d = digits_prefix t
              in if d = [] then None else Some (c # sg @ d, drop (length d) t))
           else Some ([], s)))"

definition parse_number :: "bytes \<Rightarrow> (bytes \<times> bytes) option" where
  "parse_number s =
     (let sg = (case s of c # _ \<Rightarrow> if c = CHR ''-'' then [c] else [] | [] \<Rightarrow> [])
      in case parse_int_part (drop (length sg) s) of
           None \<Rightarrow> None
         | Some (i, s1) \<Rightarrow>
             (case parse_frac s1 of
                None \<Rightarrow> None
              | Some (f, s2) \<Rightarrow>
                  (case parse_exp s2 of
                     None \<Rightarrow> None
                   | Some (e, s3) \<Rightarrow> Some (sg @ i @ f @ e, s3))))"

definition strip_prefix :: "bytes \<Rightarrow> bytes \<Rightarrow> bytes option" where
  "strip_prefix p s = (if take (length p) s = p then Some (drop (length p) s) else None)"

definition starts :: "char \<Rightarrow> bytes \<Rightarrow> bool" where
  "starts c s \<longleftrightarrow> (case s of [] \<Rightarrow> False | d # _ \<Rightarrow> d = c)"


text \<open>
  Values, array elements and object members. The first argument is fuel: every call on the
  way to the next one consumes at least one byte, or passes from a container to its first
  element, so twice the input length is enough (\<open>json_parse\<close>). The second is the nesting
  depth left of the scanner's limit of 10000 levels.
\<close>

fun parse_value :: "nat \<Rightarrow> int \<Rightarrow> bytes \<Rightarrow> (json \<times> bytes) option"
and parse_elems :: "nat \<Rightarrow> int \<Rightarrow> bytes \<Rightarrow> (json list \<times> bytes) option"
and parse_members :: "nat \<Rightarrow> int \<Rightarrow> bytes \<Rightarrow> ((bytes \<times> json) list \<times> bytes) option" where
  "parse_value 0 d s = None"
| "parse_value (Suc n) d s =
     (case skip_ws s of
        [] \<Rightarrow> None
      | c # r \<Rightarrow>
          (if c = CHR ''{'' then
             (if d \<le> 0 then None
              else if starts CHR ''}'' (skip_ws r) then Some (JObj [], tl (skip_ws r))
              else map_option (\<lambda>(ms, t). (JObj ms, t)) (parse_members n (d - 1) r))
           else if c = CHR ''['' then
             (if d \<le> 0 then None
              else if starts CHR '']'' (skip_ws r) then Some (JArr [], tl (skip_ws r))
              else map_option (\<lambda>(vs, t). (JArr vs, t)) (parse_elems n (d - 1) r))
           else if c = quote then map_option (\<lambda>(x, t). (JStr x, t)) (parse_string r)
           else if c = CHR ''t'' then map_option (\<lambda>t. (JBool True, t)) (strip_prefix ''rue'' r)
           else if c = CHR ''f'' then map_option (\<lambda>t. (JBool False, t)) (strip_prefix ''alse'' r)
           else if c = CHR ''n'' then map_option (\<lambda>t. (JNull, t)) (strip_prefix ''ull'' r)
           else map_option (\<lambda>(l, t). (JNum l, t)) (parse_number (c # r))))"
| "parse_elems 0 d s = None"
| "parse_elems (Suc n) d s =
     (case parse_value n d s of
        None \<Rightarrow> None
      | Some (v, r) \<Rightarrow>
          (case skip_ws r of
             [] \<Rightarrow> None
           | c # t \<Rightarrow>
               (if c = CHR '','' then map_option (\<lambda>(vs, u). (v # vs, u)) (parse_elems n d t)
                else if c = CHR '']'' then Some ([v], t) else None)))"
| "parse_members 0 d s = None"
| "parse_members (Suc n) d s =
     (if \<not> starts quote (skip_ws s) then None else
      (case parse_string (tl (skip_ws s)) of
        None \<Rightarrow> None
      | Some (k, r) \<Rightarrow>
          (if \<not> starts CHR '':'' (skip_ws r) then None else
           (case parse_value n d (tl (skip_ws r)) of
              None \<Rightarrow> None
            | Some (v, t) \<Rightarrow>
                (case skip_ws t of
                   [] \<Rightarrow> None
                 | c # u \<Rightarrow>
                     (if c = CHR '','' then
                        map_option (\<lambda>(ms, w). ((k, v) # ms, w)) (parse_members n d u)
                      else if c = CHR ''}'' then Some ([(k, v)], u) else None))))))"

definition max_depth :: int where "max_depth = 10000"

definition json_parse :: "bytes \<Rightarrow> json option" where
  "json_parse s =
     (case parse_value (2 * length s + 2) max_depth s of
        Some (v, r) \<Rightarrow> if skip_ws r = [] then Some v else None
      | None \<Rightarrow> None)"

section \<open>Decoding into structs\<close>

text \<open>
  A member goes to the field whose name it has up to case folding. Besides the ASCII letters
  exactly two code points fold to an ASCII letter, the Kelvin sign and the long s.
\<close>

definition upper :: "char \<Rightarrow> char" where
  "upper c = (if 97 \<le> code c \<and> code c \<le> 122 then byte (code c - 32) else c)"

fun fold_name :: "bytes \<Rightarrow> bytes" where
  "fold_name [] = []"
| "fold_name (a # r) =
     (if take 2 r = [byte 0x84, byte 0xAA] \<and> a = byte 0xE2 then CHR ''K'' # fold_name (drop 2 r)
      else if take 1 r = [byte 0xBF] \<and> a = byte 0xC5 then CHR ''S'' # fold_name (drop 1 r)
      else upper a # fold_name r)"

definition field_is :: "bytes \<Rightarrow> bytes \<Rightarrow> bool" where
  "field_is name key \<longleftrightarrow> fold_name key = fold_name name"

text \<open>
  A field decoder takes the old value of the field and the member's value; \<open>None\<close> is the
  \<open>UnmarshalTypeError\<close> that makes \<open>json.Unmarshal\<close> return an error in the end.
\<close>

definition dec_int64 :: "int \<Rightarrow> json \<Rightarrow> int option" where
  "dec_int64 old v = (case v of JNull \<Rightarrow> Some old | JNum l \<Rightarrow> ParseInt l | _ \<Rightarrow> None)"

definition dec_string :: "bytes \<Rightarrow> json \<Rightarrow> bytes option" where
  "dec_string old v = (case v of JNull \<Rightarrow> Some old | JStr x \<Rightarrow> Some x | _ \<Rightarrow> None)"

definition dec_bool :: "bool \<Rightarrow> json \<Rightarrow> bool option" where
  "dec_bool old v = (case v of JNull \<Rightarrow> Some old | JBool b \<Rightarrow> Some b | _ \<Rightarrow> None)"

definition dec_uint8 :: "json \<Rightarrow> char option" where
  "dec_uint8 v =
     (case v of
        JNull \<Rightarrow> Some (byte 0)
      | JNum l \<Rightarrow> (case parse_uint l of Some n \<Rightarrow> if n < 256 then Some (ubyte n) else None | None \<Rightarrow> None)
      | _ \<Rightarrow> None)"

text \<open>A byte slice is a base64 string, or an array of small numbers, or \<open>null\<close> (nil).\<close>

definition dec_bytes :: "bytes \<Rightarrow> json \<Rightarrow> bytes option" where
  "dec_bytes old v =
     (case v of
        JNull \<Rightarrow> Some []
      | JStr x \<Rightarrow> StdDecode x
      | JArr vs \<Rightarrow> those (map dec_uint8 vs)
      | _ \<Rightarrow> None)"

text \<open>
  In an \<open>any\<close> every value is accepted but a number beyond the range of a
  \<open>float64\<close>: \<open>strconv.ParseFloat\<close> fails from $2^{1024} - 2^{970}$ on, the midpoint
  above the largest finite value.
\<close>

definition float_parts :: "bytes \<Rightarrow> int \<times> int" where
  "float_parts l =
     (let u = filter (\<lambda>c. c \<noteq> CHR ''-'') (takeWhile (\<lambda>c. c \<noteq> CHR ''e'' \<and> c \<noteq> CHR ''E'') l);
          i = takeWhile (\<lambda>c. c \<noteq> CHR ''.'') u; f = drop (length i + 1) u;
          e = drop 1 (dropWhile (\<lambda>c. c \<noteq> CHR ''e'' \<and> c \<noteq> CHR ''E'') l);
          x = (case e of [] \<Rightarrow> 0
                 | c # t \<Rightarrow> if c = CHR ''-'' then - parse_digits 0 t
                            else if c = CHR ''+'' then parse_digits 0 t else parse_digits 0 e)
      in (parse_digits 0 (i @ f), x - int (length f)))"

definition float_in_range :: "bytes \<Rightarrow> bool" where
  "float_in_range l =
     (case float_parts l of
        (m, x) \<Rightarrow> m = 0 \<or> (if x \<ge> 0 then x < 400 \<and> m * 10 ^ nat x < 2 ^ 1024 - 2 ^ 970
                           else m < (2 ^ 1024 - 2 ^ 970) * 10 ^ nat (- x)))"

fun any_ok :: "json \<Rightarrow> bool" where
  "any_ok (JNum l) = float_in_range l"
| "any_ok (JArr vs) = list_all any_ok vs"
| "any_ok (JObj ms) = list_all (\<lambda>(k, v). any_ok v) ms"
| "any_ok _ = True"

text \<open>A \<open>map[string]any\<close>: \<open>null\<close> clears it, an object is merged into it, the last member wins.\<close>

definition dec_any_map :: "(bytes \<times> json) list \<Rightarrow> json \<Rightarrow> (bytes \<times> json) list option" where
  "dec_any_map old v =
     (case v of
        JNull \<Rightarrow> Some []
      | JObj ms \<Rightarrow> if list_all (\<lambda>(k, x). any_ok x) ms
                   then Some (foldl (\<lambda>m (k, x). AList.update k x m) old ms) else None
      | _ \<Rightarrow> None)"

text \<open>
  \<open>decode_struct set z v\<close> decodes the syntax tree \<open>v\<close> into a struct that starts as
  \<open>z\<close>; \<open>set\<close> assigns one member, leaving the struct alone for an unknown key.
\<close>

fun decode_members :: "('a \<Rightarrow> bytes \<Rightarrow> json \<Rightarrow> 'a option) \<Rightarrow> 'a \<Rightarrow> (bytes \<times> json) list \<Rightarrow> 'a option" where
  "decode_members f z [] = Some z"
| "decode_members f z ((k, v) # ms) =
     (case f z k v of None \<Rightarrow> None | Some z' \<Rightarrow> decode_members f z' ms)"

definition decode_struct :: "('a \<Rightarrow> bytes \<Rightarrow> json \<Rightarrow> 'a option) \<Rightarrow> 'a \<Rightarrow> json \<Rightarrow> 'a option" where
  "decode_struct f z v =
     (case v of JNull \<Rightarrow> Some z | JObj ms \<Rightarrow> decode_members f z ms | _ \<Rightarrow> None)"

definition Unmarshal :: "('a \<Rightarrow> bytes \<Rightarrow> json \<Rightarrow> 'a option) \<Rightarrow> 'a \<Rightarrow> bytes \<Rightarrow> 'a option" where
  "Unmarshal f z s = (case json_parse s of None \<Rightarrow> None | Some v \<Rightarrow> decode_struct f z v)"

end
