(* ===== verification/LedgerTx.thy ===== *)
theory LedgerTx
  imports Sha256 Json
begin

text \<open>
  \<open>internal/ledger/tx.go\<close>: transactions, their payloads and how these are decoded from the
  signed bytes, the sentinel errors of the package, transaction hashes, signature checks and the
  fields that the store derives from a payload. The signature scheme itself (the curve
  arithmetic of \<open>crypto/ed25519\<close>) is the parameter \<open>ed\<close> of \<open>VerifySig\<close>.
\<close>

section \<open>Constants and errors\<close>

definition SupplyCap :: int where "SupplyCap = 50000000"
definition TreasuryDscID :: int where "TreasuryDscID = 0"
definition PubKeyLen :: nat where "PubKeyLen = 32"
definition SigLen :: nat where "SigLen = 64"

definition TxGenesis :: bytes where "TxGenesis = ''genesis''"
definition TxTransfer :: bytes where "TxTransfer = ''transfer''"
definition TxRotateKey :: bytes where "TxRotateKey = ''rotate_key''"
definition TxReclaimInvalid :: bytes where "TxReclaimInvalid = ''reclaim_invalid''"
definition TxRotateAdmin :: bytes where "TxRotateAdmin = ''rotate_admin''"
definition TxRewardConfig :: bytes where "TxRewardConfig = ''reward_config''"

lemmas tx_types = TxGenesis_def TxTransfer_def TxRotateKey_def TxReclaimInvalid_def
  TxRotateAdmin_def TxRewardConfig_def

lemma tx_types_distinct [simp]:
  "TxGenesis \<noteq> TxTransfer" "TxTransfer \<noteq> TxGenesis" "TxGenesis \<noteq> TxRotateKey" "TxRotateKey \<noteq> TxGenesis"
  "TxGenesis \<noteq> TxReclaimInvalid" "TxReclaimInvalid \<noteq> TxGenesis" "TxTransfer \<noteq> TxRotateKey"
  "TxRotateKey \<noteq> TxTransfer" "TxTransfer \<noteq> TxReclaimInvalid" "TxReclaimInvalid \<noteq> TxTransfer"
  "TxRotateKey \<noteq> TxReclaimInvalid" "TxReclaimInvalid \<noteq> TxRotateKey"
  by (simp_all add: tx_types)

datatype ledger_err =
    ErrBadSig | ErrBadPubKey | ErrBadHash | ErrUnknownAccount | ErrInsufficientFunds
  | ErrBadNonce | ErrBadAmount | ErrBadDiscourseID | ErrGenesisExists | ErrSupplyViolated
  | ErrUnknownTxType | ErrSelfTransfer | ErrSignerMismatch

type_synonym err = "ledger_err goerr"

section \<open>Transactions and payloads\<close>

record Tx =
  LeafIndex :: int
  Type :: bytes
  Payload :: bytes
  Sig :: bytes
  Signer :: bytes
  PrevHash :: bytes
  TxHash :: bytes

record GenesisPayload =
  gp_To :: bytes
  gp_TreasuryUser :: bytes
  gp_Amount :: int
  gp_Memo :: bytes

record TransferPayload =
  tp_From :: bytes
  tp_ToDiscourseID :: int
  tp_Amount :: int
  tp_Nonce :: int
  tp_Meta :: "(bytes \<times> json) list"

record RotateKeyPayload =
  rk_OldPubKey :: bytes
  rk_NewPubKey :: bytes
  rk_Nonce :: int

record ReclaimInvalidPayload =
  ri_Admin :: bytes
  ri_FromDiscourseID :: int
  ri_Amount :: int
  ri_Nonce :: int
  ri_Memo :: bytes

text \<open>The assignment of a JSON member to the field with its \<open>json\<close> tag.\<close>

definition genesis_field :: "GenesisPayload \<Rightarrow> bytes \<Rightarrow> json \<Rightarrow> GenesisPayload option" where
  "genesis_field p k v =
     (if field_is ''to'' k then map_option (\<lambda>x. p\<lparr>gp_To := x\<rparr>) (dec_bytes (gp_To p) v)
      else if field_is ''treasury_user'' k
        then map_option (\<lambda>x. p\<lparr>gp_TreasuryUser := x\<rparr>) (dec_string (gp_TreasuryUser p) v)
      else if field_is ''amount'' k then map_option (\<lambda>x. p\<lparr>gp_Amount := x\<rparr>) (dec_int64 (gp_Amount p) v)
      else if field_is ''memo'' k then map_option (\<lambda>x. p\<lparr>gp_Memo := x\<rparr>) (dec_string (gp_Memo p) v)
      else Some p)"

definition transfer_field :: "TransferPayload \<Rightarrow> bytes \<Rightarrow> json \<Rightarrow> TransferPayload option" where
  "transfer_field p k v =
     (if field_is ''from'' k then map_option (\<lambda>x. p\<lparr>tp_From := x\<rparr>) (dec_bytes (tp_From p) v)
      else if field_is ''to_discourse_id'' k
        then map_option (\<lambda>x. p\<lparr>tp_ToDiscourseID := x\<rparr>) (dec_int64 (tp_ToDiscourseID p) v)
      else if field_is ''amount'' k then map_option (\<lambda>x. p\<lparr>tp_Amount := x\<rparr>) (dec_int64 (tp_Amount p) v)
      else if field_is ''nonce'' k then map_option (\<lambda>x. p\<lparr>tp_Nonce := x\<rparr>) (dec_int64 (tp_Nonce p) v)
      else if field_is ''meta'' k then map_option (\<lambda>x. p\<lparr>tp_Meta := x\<rparr>) (dec_any_map (tp_Meta p) v)
      else Some p)"

definition rotate_field :: "RotateKeyPayload \<Rightarrow> bytes \<Rightarrow> json \<Rightarrow> RotateKeyPayload option" where
  "rotate_field p k v =
     (if field_is ''old_pubkey'' k then map_option (\<lambda>x. p\<lparr>rk_OldPubKey := x\<rparr>) (dec_bytes (rk_OldPubKey p) v)
      else if field_is ''new_pubkey'' k then map_option (\<lambda>x. p\<lparr>rk_NewPubKey := x\<rparr>) (dec_bytes (rk_NewPubKey p) v)
      else if field_is ''nonce'' k then map_option (\<lambda>x. p\<lparr>rk_Nonce := x\<rparr>) (dec_int64 (rk_Nonce p) v)
      else Some p)"

definition reclaim_field :: "ReclaimInvalidPayload \<Rightarrow> bytes \<Rightarrow> json \<Rightarrow> ReclaimInvalidPayload option" where
  "reclaim_field p k v =
     (if field_is ''admin'' k then map_option (\<lambda>x. p\<lparr>ri_Admin := x\<rparr>) (dec_bytes (ri_Admin p) v)
      else if field_is ''from_discourse_id'' k
        then map_option (\<lambda>x. p\<lparr>ri_FromDiscourseID := x\<rparr>) (dec_int64 (ri_FromDiscourseID p) v)
      else if field_is ''amount'' k then map_option (\<lambda>x. p\<lparr>ri_Amount := x\<rparr>) (dec_int64 (ri_Amount p) v)
      else if field_is ''nonce'' k then map_option (\<lambda>x. p\<lparr>ri_Nonce := x\<rparr>) (dec_int64 (ri_Nonce p) v)
      else if field_is ''memo'' k then map_option (\<lambda>x. p\<lparr>ri_Memo := x\<rparr>) (dec_string (ri_Memo p) v)
      else Some p)"

text \<open>\<open>json.Unmarshal(payload, &p)\<close> into a zero value of each payload type.\<close>

definition genesis_payload :: "bytes \<Rightarrow> GenesisPayload option" where
  "genesis_payload = Unmarshal genesis_field \<lparr>gp_To = [], gp_TreasuryUser = [], gp_Amount = 0, gp_Memo = []\<rparr>"

definition transfer_payload :: "bytes \<Rightarrow> TransferPayload option" where
  "transfer_payload = Unmarshal transfer_field
     \<lparr>tp_From = [], tp_ToDiscourseID = 0, tp_Amount = 0, tp_Nonce = 0, tp_Meta = []\<rparr>"

definition rotate_payload :: "bytes \<Rightarrow> RotateKeyPayload option" where
  "rotate_payload = Unmarshal rotate_field \<lparr>rk_OldPubKey = [], rk_NewPubKey = [], rk_Nonce = 0\<rparr>"

definition reclaim_payload :: "bytes \<Rightarrow> ReclaimInvalidPayload option" where
  "reclaim_payload = Unmarshal reclaim_field
     \<lparr>ri_Admin = [], ri_FromDiscourseID = 0, ri_Amount = 0, ri_Nonce = 0, ri_Memo = []\<rparr>"

text \<open>The type assertion \<open>p.Meta[k].(string)\<close>.\<close>

definition meta_string :: "(bytes \<times> json) list \<Rightarrow> bytes \<Rightarrow> bytes option" where
  "meta_string m k = (case map_of m k of Some (JStr x) \<Rightarrow> Some x | _ \<Rightarrow> None)"

section \<open>Operations\<close>

definition tx_hash :: "bytes \<Rightarrow> bytes \<Rightarrow> bytes \<Rightarrow> bytes" where
  "tx_hash payload sig prevHash = sha256 (payload @ sig @ prevHash)"

definition Build :: "bytes \<Rightarrow> bytes \<Rightarrow> bytes \<Rightarrow> bytes \<Rightarrow> bytes \<Rightarrow> err + Tx" where
  "Build t payload signer sig prevHash =
     (if length signer \<noteq> PubKeyLen then Inl (Sentinel ErrBadPubKey)
      else if length sig \<noteq> SigLen then Inl (Errorf ''bad sig length'')
      else if length prevHash \<noteq> HashSize then Inl (Sentinel ErrBadHash)
      else Inr \<lparr>LeafIndex = 0, Type = t, Payload = payload, Sig = sig, Signer = signer,
                PrevHash = prevHash, TxHash = tx_hash payload sig prevHash\<rparr>)"

definition VerifySig :: "(bytes \<Rightarrow> bytes \<Rightarrow> bytes \<Rightarrow> bool) \<Rightarrow> bytes \<Rightarrow> bytes \<Rightarrow> bytes \<Rightarrow> bool" where
  "VerifySig ed signer payload sig \<longleftrightarrow>
     (if length signer \<noteq> PubKeyLen \<or> length sig \<noteq> SigLen then False else ed signer payload sig)"

definition ZeroHash :: bytes where
  "ZeroHash = replicate HashSize (byte 0)"

record DerivedTxFields =
  df_Amount :: "int option"
  df_ToDiscourseID :: "int option"
  df_RewardSource :: bytes

definition DeriveTxFields :: "bytes \<Rightarrow> bytes \<Rightarrow> err + DerivedTxFields" where
  "DeriveTxFields t payload =
     (let out = \<lparr>df_Amount = None, df_ToDiscourseID = None, df_RewardSource = []\<rparr>
      in if t = TxTransfer then
           (case transfer_payload payload of
              None \<Rightarrow> Inl (Errorf ''json'')
            | Some p \<Rightarrow>
                Inr (out\<lparr>df_Amount := Some (tp_Amount p), df_ToDiscourseID := Some (tp_ToDiscourseID p),
                         df_RewardSource := (case meta_string (tp_Meta p) ''reward_source'' of
                            Some v \<Rightarrow> v | None \<Rightarrow> [])\<rparr>))
         else if t = TxReclaimInvalid then
           (case reclaim_payload payload of
              None \<Rightarrow> Inl (Errorf ''json'')
            | Some p \<Rightarrow> Inr (out\<lparr>df_Amount := Some (ri_Amount p)\<rparr>))
         else Inr out)"

section \<open>Facts\<close>

lemma length_ZeroHash [simp]: "length ZeroHash = HashSize"
  by (simp add: ZeroHash_def)

lemma length_tx_hash [simp]: "length (tx_hash p s h) = HashSize"
  by (simp add: tx_hash_def HashSize_def)

lemma VerifySigD:
  "VerifySig ed signer payload sig \<Longrightarrow>
   length signer = PubKeyLen \<and> length sig = SigLen \<and> ed signer payload sig"
  by (simp add: VerifySig_def split: if_splits)

text \<open>Integer fields come out of the decoder in the range of an \<open>int64\<close>.\<close>

lemma ParseInt_range: "ParseInt s = Some n \<Longrightarrow> in_i64 n"
  by (auto simp: ParseInt_def in_i64_def Let_def split: list.splits option.splits if_splits)

lemma dec_int64_range: "dec_int64 old v = Some n \<Longrightarrow> in_i64 old \<Longrightarrow> in_i64 n"
  by (auto simp: dec_int64_def ParseInt_range split: json.splits)

lemma decode_members_inv:
  assumes "\<And>z k v z'. P z \<Longrightarrow> f z k v = Some z' \<Longrightarrow> P z'"
  shows "decode_members f z ms = Some z' \<Longrightarrow> P z \<Longrightarrow> P z'"
proof (induction ms arbitrary: z)
  case (Cons m ms)
  then show ?case by (cases m) (auto split: option.splits dest: assms)
qed simp

lemma Unmarshal_inv:
  assumes "Unmarshal f z s = Some z'" "P z" "\<And>z k v z'. P z \<Longrightarrow> f z k v = Some z' \<Longrightarrow> P z'"
  shows "P z'"
proof -
  obtain v where v: "decode_struct f z v = Some z'"
    using assms(1) by (auto simp: Unmarshal_def split: option.splits)
  then consider "z' = z" | ms where "decode_members f z ms = Some z'"
    by (cases v) (auto simp: decode_struct_def)
  then show ?thesis
  proof cases
    case 2
    from decode_members_inv [of P f, OF assms(3) this assms(2)] show ?thesis .
  qed (simp add: assms(2))
qed

lemma in_i64_0 [simp]: "in_i64 0" "in_i64 1"
  by (simp_all add: in_i64_def)

lemma transfer_payload_range:
  assumes "transfer_payload s = Some p"
  shows "in_i64 (tp_Amount p)" "in_i64 (tp_ToDiscourseID p)" "in_i64 (tp_Nonce p)"
proof -
  have "in_i64 (tp_Amount p) \<and> in_i64 (tp_ToDiscourseID p) \<and> in_i64 (tp_Nonce p)"
    using assms unfolding transfer_payload_def
    by (rule Unmarshal_inv)
      (auto simp: transfer_field_def dest: dec_int64_range split: if_splits)
  then show "in_i64 (tp_Amount p)" "in_i64 (tp_ToDiscourseID p)" "in_i64 (tp_Nonce p)" by auto
qed

lemma rotate_payload_range: "rotate_payload s = Some p \<Longrightarrow> in_i64 (rk_Nonce p)"
  unfolding rotate_payload_def
  by (erule Unmarshal_inv) (auto simp: rotate_field_def dest: dec_int64_range split: if_splits)

lemma reclaim_payload_range:
  assumes "reclaim_payload s = Some p"
  shows "in_i64 (ri_Amount p)" "in_i64 (ri_FromDiscourseID p)" "in_i64 (ri_Nonce p)"
proof -
  have "in_i64 (ri_Amount p) \<and> in_i64 (ri_FromDiscourseID p) \<and> in_i64 (ri_Nonce p)"
    using assms unfolding reclaim_payload_def
    by (rule Unmarshal_inv)
      (auto simp: reclaim_field_def dest: dec_int64_range split: if_splits)
  then show "in_i64 (ri_Amount p)" "in_i64 (ri_FromDiscourseID p)" "in_i64 (ri_Nonce p)" by auto
qed

end
