(* ===== verification/LedgerApply.thy ===== *)
theory LedgerApply
  imports LedgerTx
begin

text \<open>
  \<open>internal/ledger/apply.go\<close>: the store interface as a record of operations, and
  \<open>Apply\<close> with its handlers, over any store. A handler takes the transaction's state and
  returns the new one; \<open>Apply\<close> also returns the caller's \<open>Tx\<close>, because it sets
  fields of it. An error value carries the sentinel that \<open>errors.Is\<close> finds in it. On an
  error \<open>Apply\<close> returns no new store: the deferred \<open>Rollback\<close> discards the
  transaction.
\<close>

section \<open>The store interface\<close>

record Account =
  DiscourseID :: int
  Pubkey :: "bytes option"
  Username :: bytes
  Nonce :: int
  Balance :: int

text \<open>
  \<open>'s\<close> is the state of a \<open>Store\<close>, \<open>'t\<close> that of an open \<open>StoreTx\<close>.
  \<open>Commit\<close> takes both, because it writes the transaction into its store.
\<close>

record ('s, 't) store_ops =
  Begin :: "'s \<Rightarrow> err + 't"
  Commit :: "'s \<Rightarrow> 't \<Rightarrow> err + 's"
  LockLedger :: "'t \<Rightarrow> err + 't"
  GetAccountByPubKey :: "'t \<Rightarrow> bytes \<Rightarrow> err + Account option"
  GetAccountByDiscourseID :: "'t \<Rightarrow> int \<Rightarrow> err + Account option"
  GetAccountsByDiscourseIDs :: "'t \<Rightarrow> int list \<Rightarrow> err + (int \<times> Account) list"
  UpsertAccount :: "'t \<Rightarrow> Account \<Rightarrow> err + 't"
  UpdatePubKey :: "'t \<Rightarrow> bytes \<Rightarrow> bytes \<Rightarrow> err + 't"
  UpdateUsernameAndPubKey :: "'t \<Rightarrow> int \<Rightarrow> bytes \<Rightarrow> bytes \<Rightarrow> err + 't"
  LastTx :: "'t \<Rightarrow> err + Tx option"
  InsertTx :: "'t \<Rightarrow> Tx \<Rightarrow> err + 't"
  GenesisExists :: "'t \<Rightarrow> err + bool"
  TotalBalance :: "'t \<Rightarrow> err + int"

section \<open>Handlers\<close>

definition requiresFullSupplyCheck :: "bytes \<Rightarrow> bool" where
  "requiresFullSupplyCheck t \<longleftrightarrow> t = TxGenesis \<or> t = TxReclaimInvalid"

definition treasury_account :: "GenesisPayload \<Rightarrow> Account" where
  "treasury_account p =
     \<lparr>DiscourseID = TreasuryDscID, Pubkey = Some (gp_To p),
      Username = (if gp_TreasuryUser p = [] then ''TREASURY'' else gp_TreasuryUser p),
      Nonce = 0, Balance = SupplyCap\<rparr>"

definition applyGenesis :: "('s, 't) store_ops \<Rightarrow> 't \<Rightarrow> Tx \<Rightarrow> err + 't" where
  "applyGenesis S stx tx =
     and_then (GenesisExists S stx) (\<lambda>ex.
       if ex then Inl (Sentinel ErrGenesisExists)
       else case genesis_payload (Payload tx) of
         None \<Rightarrow> Inl (Errorf ''genesis payload'')
       | Some p \<Rightarrow>
           (if length (gp_To p) \<noteq> PubKeyLen then Inl (Sentinel ErrBadPubKey)
            else if gp_Amount p \<noteq> SupplyCap then Inl (Errorf ''genesis amount must equal cap'')
            else if Signer tx \<noteq> gp_To p then Inl (Errorf ''genesis signer must equal treasury pubkey'')
            else UpsertAccount S stx (treasury_account p)))"

definition bad_nonce :: "int \<Rightarrow> int \<Rightarrow> err" where
  "bad_nonce expected got =
     Wrapf ('' expected '' @ format_int expected @ '' got '' @ format_int got) (Sentinel ErrBadNonce)"

text \<open>The recipient that a transfer creates: no key until the user registers one.\<close>

definition pending_account :: "TransferPayload \<Rightarrow> Account" where
  "pending_account p =
     \<lparr>DiscourseID = tp_ToDiscourseID p, Pubkey = None,
      Username = (case meta_string (tp_Meta p) ''tip_target_username'' of
                    Some u \<Rightarrow> if u \<noteq> [] then u else ''(pending)''
                  | None \<Rightarrow> ''(pending)''),
      Nonce = 0, Balance = 0\<rparr>"

definition recipient :: "TransferPayload \<Rightarrow> Account option \<Rightarrow> Account" where
  "recipient p toOpt = (case toOpt of None \<Rightarrow> pending_account p | Some a \<Rightarrow> a)"

lemma recipient_simps [simp]: "recipient p None = pending_account p" "recipient p (Some a) = a"
  by (simp_all add: recipient_def)

definition applyTransfer :: "('s, 't) store_ops \<Rightarrow> 't \<Rightarrow> Tx \<Rightarrow> err + 't" where
  "applyTransfer S stx tx =
     (case transfer_payload (Payload tx) of
        None \<Rightarrow> Inl (Errorf ''transfer payload'')
      | Some p \<Rightarrow>
          (if tp_Amount p \<le> 0 then Inl (Sentinel ErrBadAmount)
           else if tp_ToDiscourseID p \<le> TreasuryDscID then Inl (Sentinel ErrBadDiscourseID)
           else if tp_From p \<noteq> Signer tx then Inl (Sentinel ErrSignerMismatch)
           else if length (tp_From p) \<noteq> PubKeyLen then Inl (Sentinel ErrBadPubKey)
           else and_then (with_context ''from account'' (GetAccountByPubKey S stx (tp_From p))) (\<lambda>fromOpt.
             case fromOpt of
               None \<Rightarrow> Inl (Sentinel ErrUnknownAccount)
             | Some from \<Rightarrow>
                 (if DiscourseID from = tp_ToDiscourseID p then Inl (Sentinel ErrSelfTransfer)
                  else if tp_Nonce p \<noteq> i64 (Nonce from + 1)
                    then Inl (bad_nonce (i64 (Nonce from + 1)) (tp_Nonce p))
                  else if Balance from < tp_Amount p then Inl (Sentinel ErrInsufficientFunds)
                  else and_then (with_context ''to account''
                         (GetAccountByDiscourseID S stx (tp_ToDiscourseID p))) (\<lambda>toOpt.
                    let to = recipient p toOpt;
                        from = from\<lparr>Balance := i64 (Balance from - tp_Amount p), Nonce := tp_Nonce p\<rparr>;
                        to = to\<lparr>Balance := i64 (Balance to + tp_Amount p)\<rparr>
                    in and_then (with_context ''update from'' (UpsertAccount S stx from)) (\<lambda>stx.
                       with_context ''update to'' (UpsertAccount S stx to)))))))"

definition applyRotateKey :: "('s, 't) store_ops \<Rightarrow> 't \<Rightarrow> Tx \<Rightarrow> err + 't" where
  "applyRotateKey S stx tx =
     (case rotate_payload (Payload tx) of
        None \<Rightarrow> Inl (Errorf ''rotate_key payload'')
      | Some p \<Rightarrow>
          (if length (rk_OldPubKey p) \<noteq> PubKeyLen \<or> length (rk_NewPubKey p) \<noteq> PubKeyLen
             then Inl (Sentinel ErrBadPubKey)
           else if Signer tx \<noteq> rk_OldPubKey p then Inl (Sentinel ErrSignerMismatch)
           else and_then (with_context ''old account'' (GetAccountByPubKey S stx (rk_OldPubKey p))) (\<lambda>oldOpt.
             case oldOpt of
               None \<Rightarrow> Inl (Sentinel ErrUnknownAccount)
             | Some old \<Rightarrow>
                 (if rk_Nonce p \<noteq> i64 (Nonce old + 1)
                    then Inl (bad_nonce (i64 (Nonce old + 1)) (rk_Nonce p))
                  else and_then (with_context ''nonce bump'' (UpsertAccount S stx (old\<lparr>Nonce := rk_Nonce p\<rparr>)))
                    (\<lambda>stx. UpdatePubKey S stx (rk_OldPubKey p) (rk_NewPubKey p))))))"

definition has_pubkey :: "Account \<Rightarrow> bool" where
  "has_pubkey a \<longleftrightarrow> (case Pubkey a of None \<Rightarrow> False | Some k \<Rightarrow> k \<noteq> [])"

definition applyReclaimInvalid :: "('s, 't) store_ops \<Rightarrow> 't \<Rightarrow> Tx \<Rightarrow> err + 't" where
  "applyReclaimInvalid S stx tx =
     (case reclaim_payload (Payload tx) of
        None \<Rightarrow> Inl (Errorf ''reclaim_invalid payload'')
      | Some p \<Rightarrow>
          (if ri_Amount p \<le> 0 then Inl (Sentinel ErrBadAmount)
           else if ri_FromDiscourseID p \<ge> TreasuryDscID then Inl (Sentinel ErrBadDiscourseID)
           else if length (ri_Admin p) \<noteq> PubKeyLen then Inl (Sentinel ErrBadPubKey)
           else if Signer tx \<noteq> ri_Admin p then Inl (Sentinel ErrSignerMismatch)
           else and_then (with_context ''admin account'' (GetAccountByPubKey S stx (ri_Admin p))) (\<lambda>adminOpt.
             case adminOpt of
               None \<Rightarrow> Inl (Sentinel ErrUnknownAccount)
             | Some admin \<Rightarrow>
                 (if DiscourseID admin \<noteq> TreasuryDscID then Inl (Sentinel ErrUnknownAccount)
                  else if ri_Nonce p \<noteq> i64 (Nonce admin + 1)
                    then Inl (bad_nonce (i64 (Nonce admin + 1)) (ri_Nonce p))
                  else and_then (with_context ''invalid account''
                         (GetAccountByDiscourseID S stx (ri_FromDiscourseID p))) (\<lambda>fromOpt.
                    case fromOpt of
                      None \<Rightarrow> Inl (Sentinel ErrUnknownAccount)
                    | Some from \<Rightarrow>
                        (if has_pubkey from then Inl (Sentinel ErrBadDiscourseID)
                         else if Balance from < ri_Amount p then Inl (Sentinel ErrInsufficientFunds)
                         else
                           let from = from\<lparr>Balance := i64 (Balance from - ri_Amount p)\<rparr>;
                               admin = admin\<lparr>Balance := i64 (Balance admin + ri_Amount p), Nonce := ri_Nonce p\<rparr>
                           in and_then (with_context ''update invalid account'' (UpsertAccount S stx from)) (\<lambda>stx.
                              with_context ''update treasury'' (UpsertAccount S stx admin))))))))"

section \<open>Apply\<close>

text \<open>The \<open>switch tx.Type\<close> of \<open>Apply\<close>.\<close>

definition dispatch :: "('s, 't) store_ops \<Rightarrow> 't \<Rightarrow> Tx \<Rightarrow> err + 't" where
  "dispatch S stx tx =
     (if Type tx = TxGenesis then applyGenesis S stx tx
      else if Type tx = TxTransfer then applyTransfer S stx tx
      else if Type tx = TxRotateKey then applyRotateKey S stx tx
      else if Type tx = TxReclaimInvalid then applyReclaimInvalid S stx tx
      else Inl (Sentinel ErrUnknownTxType))"

definition checkSupply :: "('s, 't) store_ops \<Rightarrow> 't \<Rightarrow> bytes \<Rightarrow> err + 't" where
  "checkSupply S stx t =
     (if requiresFullSupplyCheck t then
        and_then (with_context ''total balance'' (TotalBalance S stx)) (\<lambda>total.
          if total \<noteq> SupplyCap then Inl (Wrapf ''sum(balance)'' (Sentinel ErrSupplyViolated)) else Inr stx)
      else Inr stx)"

text \<open>
  \<open>link_tx\<close> is the assignment of \<open>LeafIndex\<close> and \<open>PrevHash\<close> from the last
  transaction; \<open>apply_in\<close> is the body of \<open>Apply\<close> between \<open>Begin\<close> and
  \<open>Commit\<close>.
\<close>

definition link_tx :: "Tx option \<Rightarrow> Tx \<Rightarrow> err + Tx" where
  "link_tx lst tx =
     (case lst of
        None \<Rightarrow>
          (if Type tx \<noteq> TxGenesis then Inl (Errorf (''first tx must be genesis, got '' @ Type tx))
           else Inr (tx\<lparr>LeafIndex := 0, PrevHash := ZeroHash\<rparr>))
      | Some l \<Rightarrow>
          (if Type tx = TxGenesis then Inl (Sentinel ErrGenesisExists)
           else Inr (tx\<lparr>LeafIndex := i64 (LeafIndex l + 1), PrevHash := TxHash l\<rparr>)))"

definition apply_linked :: "('s, 't) store_ops \<Rightarrow> 't \<Rightarrow> Tx \<Rightarrow> Tx \<times> (err + 't)" where
  "apply_linked S stx tx =
     (case Build (Type tx) (Payload tx) (Signer tx) (Sig tx) (PrevHash tx) of
        Inl e \<Rightarrow> (tx, Inl e)
      | Inr rebuilt \<Rightarrow>
          (let tx = tx\<lparr>TxHash := TxHash rebuilt\<rparr>
           in (tx,
               and_then (dispatch S stx tx) (\<lambda>stx.
               and_then (with_context ''insert tx'' (InsertTx S stx tx)) (\<lambda>stx.
               checkSupply S stx (Type tx))))))"

definition apply_in :: "('s, 't) store_ops \<Rightarrow> 't \<Rightarrow> Tx \<Rightarrow> Tx \<times> (err + 't)" where
  "apply_in S stx tx =
     (case with_context ''ledger lock'' (LockLedger S stx) of
        Inl e \<Rightarrow> (tx, Inl e)
      | Inr stx \<Rightarrow>
          (case with_context ''last tx lookup'' (LastTx S stx) of
             Inl e \<Rightarrow> (tx, Inl e)
           | Inr lst \<Rightarrow>
               (case link_tx lst tx of
                  Inl e \<Rightarrow> (tx, Inl e)
                | Inr tx \<Rightarrow> apply_linked S stx tx)))"

definition Apply ::
  "(bytes \<Rightarrow> bytes \<Rightarrow> bytes \<Rightarrow> bool) \<Rightarrow> ('s, 't) store_ops \<Rightarrow> 's \<Rightarrow> Tx \<Rightarrow> Tx \<times> (err + 's)" where
  "Apply ed S s tx =
     (if \<not> VerifySig ed (Signer tx) (Payload tx) (Sig tx) then (tx, Inl (Sentinel ErrBadSig))
      else case with_context ''begin'' (Begin S s) of
        Inl e \<Rightarrow> (tx, Inl e)
      | Inr stx \<Rightarrow> (case apply_in S stx tx of (tx, r) \<Rightarrow> (tx, and_then r (Commit S s))))"

end
