(* ===== verification/LedgerSpec.thy ===== *)
theory LedgerSpec
  imports LedgerApply
begin

text \<open>
  What the ledger promises, without its store: an abstract ledger is a finite map of accounts
  and the log of transactions; \<open>ledger_step\<close> says what one accepted transaction does to it.
  \<open>ledger_ok\<close> is the invariant: the supply is constant, no balance is negative, and the log
  is a hash chain of verified signatures. It is proved once, by rule induction on the steps;
  the stores are shown to implement the steps in the theories that follow.
\<close>

record ledger =
  accts :: "int \<rightharpoonup> Account"
  log :: "Tx list"

definition empty_ledger :: ledger where
  "empty_ledger = \<lparr>accts = Map.empty, log = []\<rparr>"

section \<open>Steps\<close>

definition lastTx :: "ledger \<Rightarrow> Tx option" where
  "lastTx L = (if log L = [] then None else Some (last (log L)))"

text \<open>The header of an accepted transaction: signed, linked to the last one, and hashed.\<close>

definition sealed :: "(bytes \<Rightarrow> bytes \<Rightarrow> bytes \<Rightarrow> bool) \<Rightarrow> ledger \<Rightarrow> Tx \<Rightarrow> bool" where
  "sealed ed L tx \<longleftrightarrow>
     VerifySig ed (Signer tx) (Payload tx) (Sig tx) \<and>
     (Type tx = TxGenesis \<longleftrightarrow> log L = []) \<and>
     LeafIndex tx = (case lastTx L of None \<Rightarrow> 0 | Some l \<Rightarrow> i64 (LeafIndex l + 1)) \<and>
     PrevHash tx = (case lastTx L of None \<Rightarrow> ZeroHash | Some l \<Rightarrow> TxHash l) \<and>
     length (PrevHash tx) = HashSize \<and>
     TxHash tx = tx_hash (Payload tx) (Sig tx) (PrevHash tx)"

definition append_tx :: "(int \<rightharpoonup> Account) \<Rightarrow> Tx \<Rightarrow> ledger \<Rightarrow> ledger" where
  "append_tx m tx L = \<lparr>accts = m, log = log L @ [tx]\<rparr>"

text \<open>
  In the genesis rule the treasury's account may have existed before, as a row without history;
  then a store may keep parts of it that hold no money.
\<close>

inductive ledger_step :: "(bytes \<Rightarrow> bytes \<Rightarrow> bytes \<Rightarrow> bool) \<Rightarrow> ledger \<Rightarrow> Tx \<Rightarrow> ledger \<Rightarrow> bool" for ed where
  genesis:
    "\<lbrakk>sealed ed L tx; Type tx = TxGenesis; genesis_payload (Payload tx) = Some p;
      length (gp_To p) = PubKeyLen; gp_Amount p = SupplyCap; Signer tx = gp_To p;
      DiscourseID t = TreasuryDscID; Balance t = SupplyCap; Nonce t = 0;
      accts L TreasuryDscID = None \<longrightarrow> t = treasury_account p;
      m = (accts L)(TreasuryDscID \<mapsto> t); i64 (sum_map Balance m) = SupplyCap\<rbrakk>
     \<Longrightarrow> ledger_step ed L tx (append_tx m tx L)"
| transfer:
    "\<lbrakk>sealed ed L tx; Type tx = TxTransfer; transfer_payload (Payload tx) = Some p;
      0 < tp_Amount p; TreasuryDscID < tp_ToDiscourseID p; Signer tx = tp_From p;
      accts L d = Some a; Pubkey a = Some (tp_From p); d \<noteq> tp_ToDiscourseID p;
      tp_Nonce p = i64 (Nonce a + 1); tp_Amount p \<le> Balance a;
      b = recipient p (accts L (tp_ToDiscourseID p));
      m = (accts L)(d \<mapsto> a\<lparr>Balance := i64 (Balance a - tp_Amount p), Nonce := tp_Nonce p\<rparr>,
                    tp_ToDiscourseID p \<mapsto> b\<lparr>Balance := i64 (Balance b + tp_Amount p)\<rparr>)\<rbrakk>
     \<Longrightarrow> ledger_step ed L tx (append_tx m tx L)"
| rotate_key:
    "\<lbrakk>sealed ed L tx; Type tx = TxRotateKey; rotate_payload (Payload tx) = Some p;
      length (rk_NewPubKey p) = PubKeyLen; Signer tx = rk_OldPubKey p;
      accts L d = Some a; Pubkey a = Some (rk_OldPubKey p); rk_Nonce p = i64 (Nonce a + 1);
      m = (accts L)(d \<mapsto> a\<lparr>Nonce := rk_Nonce p, Pubkey := Some (rk_NewPubKey p)\<rparr>)\<rbrakk>
     \<Longrightarrow> ledger_step ed L tx (append_tx m tx L)"
| reclaim:
    "\<lbrakk>sealed ed L tx; Type tx = TxReclaimInvalid; reclaim_payload (Payload tx) = Some p;
      0 < ri_Amount p; ri_FromDiscourseID p < TreasuryDscID; Signer tx = ri_Admin p;
      accts L TreasuryDscID = Some a; Pubkey a = Some (ri_Admin p); ri_Nonce p = i64 (Nonce a + 1);
      accts L (ri_FromDiscourseID p) = Some b; \<not> has_pubkey b; ri_Amount p \<le> Balance b;
      m = (accts L)(ri_FromDiscourseID p \<mapsto> b\<lparr>Balance := i64 (Balance b - ri_Amount p)\<rparr>,
                    TreasuryDscID \<mapsto> a\<lparr>Balance := i64 (Balance a + ri_Amount p), Nonce := ri_Nonce p\<rparr>);
      i64 (sum_map Balance m) = SupplyCap\<rbrakk>
     \<Longrightarrow> ledger_step ed L tx (append_tx m tx L)"

inductive_cases ledger_step_cases: "ledger_step ed L tx L'"

section \<open>The invariant\<close>

definition wf_accts :: "ledger \<Rightarrow> bool" where
  "wf_accts L \<longleftrightarrow> finite (dom (accts L)) \<and> (\<forall>d a. accts L d = Some a \<longrightarrow> DiscourseID a = d)"

text \<open>Before genesis there is no money; after it there is exactly the cap, and nobody owes any.\<close>

definition supply_ok :: "ledger \<Rightarrow> bool" where
  "supply_ok L \<longleftrightarrow>
     (\<forall>d a. accts L d = Some a \<longrightarrow> 0 \<le> Balance a) \<and>
     sum_map Balance (accts L) = (if log L = [] then 0 else SupplyCap)"

text \<open>
  The log as a hash chain: \<open>chain_from ed i prev txs\<close> says that \<open>txs\<close> is linked from
  index \<open>i\<close> and hash \<open>prev\<close> on, every signature verified.
\<close>

fun chain_from :: "(bytes \<Rightarrow> bytes \<Rightarrow> bytes \<Rightarrow> bool) \<Rightarrow> nat \<Rightarrow> bytes \<Rightarrow> Tx list \<Rightarrow> bool" where
  "chain_from ed i prev [] \<longleftrightarrow> True"
| "chain_from ed i prev (tx # txs) \<longleftrightarrow>
     LeafIndex tx = i64 (int i) \<and> (Type tx = TxGenesis \<longleftrightarrow> i = 0) \<and>
     VerifySig ed (Signer tx) (Payload tx) (Sig tx) \<and> PrevHash tx = prev \<and>
     TxHash tx = tx_hash (Payload tx) (Sig tx) prev \<and> chain_from ed (Suc i) (TxHash tx) txs"

definition ledger_ok :: "(bytes \<Rightarrow> bytes \<Rightarrow> bytes \<Rightarrow> bool) \<Rightarrow> ledger \<Rightarrow> bool" where
  "ledger_ok ed L \<longleftrightarrow> wf_accts L \<and> supply_ok L \<and> chain_from ed 0 ZeroHash (log L)"

lemma ledger_ok_empty [simp]: "ledger_ok ed empty_ledger"
  by (simp add: ledger_ok_def wf_accts_def supply_ok_def empty_ledger_def)

lemma chain_from_append:
  "chain_from ed i prev (txs @ [tx]) \<longleftrightarrow>
     chain_from ed i prev txs \<and>
     chain_from ed (i + length txs) (if txs = [] then prev else TxHash (last txs)) [tx]"
  by (induction txs arbitrary: i prev) (auto simp: add.assoc)

lemma chain_from_LeafIndex:
  "chain_from ed i prev txs \<Longrightarrow> k < length txs \<Longrightarrow> LeafIndex (txs ! k) = i64 (int (i + k))"
  by (induction txs arbitrary: i prev k) (auto simp: nth_Cons ac_simps split: nat.splits)

lemma chain_from_last:
  "chain_from ed 0 prev txs \<Longrightarrow> txs \<noteq> [] \<Longrightarrow> LeafIndex (last txs) = i64 (int (length txs) - 1)"
  using chain_from_LeafIndex [of ed 0 prev txs "length txs - 1"]
  by (simp add: last_conv_nth of_nat_diff Suc_le_eq)

lemma chain_step:
  assumes "chain_from ed 0 ZeroHash (log L)" "sealed ed L tx"
  shows "chain_from ed 0 ZeroHash (log L @ [tx])"
proof (cases "log L = []")
  case True
  with assms(2) show ?thesis by (simp add: sealed_def lastTx_def)
next
  case False
  with assms chain_from_last [OF assms(1)] show ?thesis
    by (simp add: chain_from_append sealed_def lastTx_def)
qed

lemma supply_le_cap: "supply_ok L \<Longrightarrow> sum_map Balance (accts L) \<le> SupplyCap"
  by (simp add: supply_ok_def SupplyCap_def)

lemma in_range_cap: "0 \<le> x \<Longrightarrow> x \<le> SupplyCap \<Longrightarrow> i64 x = x"
  by (rule i64_id) (simp add: in_i64_def SupplyCap_def)

lemma balance_le_cap:
  assumes "wf_accts L" "supply_ok L" "accts L d = Some a"
  shows "0 \<le> Balance a" "Balance a \<le> SupplyCap"
  using assms sum_map_nonneg_member_le [of "accts L" Balance d a] supply_le_cap [OF assms(2)]
  by (auto simp: wf_accts_def supply_ok_def)

lemma two_balances_le_cap:
  assumes "wf_accts L" "supply_ok L" "accts L d = Some a" "accts L e = Some b" "d \<noteq> e"
  shows "Balance a + Balance b \<le> SupplyCap"
  using assms sum_map_two_le [of "accts L" Balance d a e b] supply_le_cap [OF assms(2)]
  by (auto simp: wf_accts_def supply_ok_def)

text \<open>Moving \<open>n\<close> points from one account to another keeps the invariant, and cannot wrap.\<close>

lemma move_ok:
  assumes "wf_accts L" "supply_ok L" "accts L d = Some a" "d \<noteq> e"
    and "b = (case accts L e of None \<Rightarrow> c | Some b \<Rightarrow> b)" "Balance c = 0"
    and "0 < n" "n \<le> Balance a"
  shows "i64 (Balance a - n) = Balance a - n" "i64 (Balance b + n) = Balance b + n"
    and "\<And>a' b'. Balance a' = Balance a - n \<Longrightarrow> Balance b' = Balance b + n \<Longrightarrow>
          sum_map Balance ((accts L)(d \<mapsto> a', e \<mapsto> b')) = sum_map Balance (accts L)"
proof -
  have a: "0 \<le> Balance a" "Balance a \<le> SupplyCap" using balance_le_cap assms by blast+
  have b: "0 \<le> Balance b" "Balance a + Balance b \<le> SupplyCap" "Balance b = val_at Balance (accts L) e"
    using assms a balance_le_cap [OF assms(1,2), of e] two_balances_le_cap [OF assms(1,2,3), of e]
    by (auto simp: val_at_def split: option.splits)
  from a b assms show "i64 (Balance a - n) = Balance a - n" "i64 (Balance b + n) = Balance b + n"
    by (auto intro!: in_range_cap)
  have fin: "finite (dom (accts L))" using assms by (simp add: wf_accts_def)
  fix a' b' :: Account
  assume "Balance a' = Balance a - n" "Balance b' = Balance b + n"
  with b assms fin show "sum_map Balance ((accts L)(d \<mapsto> a', e \<mapsto> b')) = sum_map Balance (accts L)"
    by (simp add: sum_map_update val_at_def)
qed

text \<open>What a step does to the supply: the genesis creates it, every other step keeps it.\<close>

lemma step_accts:
  assumes "ledger_step ed L tx L'" "wf_accts L" "supply_ok L"
  shows "wf_accts L' \<and> supply_ok L'"
  using assms
proof cases
  case (genesis p t m)
  then have "log L = []" by (simp add: sealed_def)
  with genesis assms have sum: "sum_map Balance m = SupplyCap - val_at Balance (accts L) TreasuryDscID"
    and zero: "sum_map Balance (accts L) = 0"
    by (simp_all add: sum_map_update supply_ok_def wf_accts_def)
  have "val_at Balance (accts L) TreasuryDscID = 0"
    using zero assms(2,3) sum_map_nonneg_member_le [of "accts L" Balance TreasuryDscID]
    by (force simp: val_at_def wf_accts_def supply_ok_def split: option.splits)
  with genesis assms sum show ?thesis
    by (auto simp: append_tx_def wf_accts_def supply_ok_def SupplyCap_def split: if_splits)
next
  case (transfer p d a b m)
  have c: "Balance (pending_account p) = 0" by (simp add: pending_account_def)
  note mv = move_ok [OF assms(2,3) \<open>accts L d = Some a\<close> \<open>d \<noteq> tp_ToDiscourseID p\<close>
      \<open>b = _\<close> [unfolded recipient_def] c \<open>0 < tp_Amount p\<close> \<open>tp_Amount p \<le> Balance a\<close>]
  have "log L \<noteq> []" using transfer by (auto simp: sealed_def)
  moreover have "DiscourseID b = tp_ToDiscourseID p" "0 \<le> Balance b"
    using transfer assms balance_le_cap [OF assms(2,3)]
    by (auto simp: recipient_def pending_account_def wf_accts_def split: option.splits)
  moreover have "sum_map Balance m = sum_map Balance (accts L)"
    using transfer mv by (simp add: mv(3))
  ultimately show ?thesis
    using transfer assms mv(1,2)
    by (auto simp: append_tx_def wf_accts_def supply_ok_def split: if_splits)
next
  case (rotate_key p d a m)
  have "log L \<noteq> []" using rotate_key by (auto simp: sealed_def)
  with rotate_key assms show ?thesis
    by (auto simp: append_tx_def wf_accts_def supply_ok_def sum_map_update_same split: if_splits)
next
  case (reclaim p a b m)
  have ne: "ri_FromDiscourseID p \<noteq> TreasuryDscID" using reclaim by simp
  have "a = (case accts L TreasuryDscID of None \<Rightarrow> a\<lparr>Balance := 0\<rparr> | Some x \<Rightarrow> x)" using reclaim by simp
  note mv = move_ok [OF assms(2,3) \<open>accts L (ri_FromDiscourseID p) = Some b\<close> ne this _
      \<open>0 < ri_Amount p\<close> \<open>ri_Amount p \<le> Balance b\<close>]
  have "log L \<noteq> []" using reclaim by (auto simp: sealed_def)
  moreover have "sum_map Balance m = sum_map Balance (accts L)"
    using reclaim mv by (simp add: mv(3))
  moreover have "0 \<le> Balance a" using balance_le_cap [OF assms(2,3)] reclaim by blast
  ultimately show ?thesis
    using reclaim assms mv(1,2)
    by (auto simp: append_tx_def wf_accts_def supply_ok_def split: if_splits)
qed

lemma step_log: "ledger_step ed L tx L' \<Longrightarrow> sealed ed L tx \<and> log L' = log L @ [tx]"
  by (cases rule: ledger_step.cases) (auto simp: append_tx_def)

lemma step_ok: "ledger_step ed L tx L' \<Longrightarrow> ledger_ok ed L \<Longrightarrow> ledger_ok ed L'"
  using step_accts [of ed L tx L'] step_log [of ed L tx L'] chain_step [of ed L tx]
  by (simp add: ledger_ok_def)

section \<open>Authorisation and nonces\<close>

text \<open>
  A step lowers an account's balance only under the signature of the key that the account holds,
  or, for a keyless account with a negative id, under the treasury's.
\<close>

definition authorised :: "ledger \<Rightarrow> Tx \<Rightarrow> int \<Rightarrow> bool" where
  "authorised L tx d \<longleftrightarrow>
     (\<exists>a. accts L d = Some a \<and>
        (Type tx = TxTransfer \<and> Pubkey a = Some (Signer tx) \<or>
         Type tx = TxReclaimInvalid \<and> d < TreasuryDscID \<and> \<not> has_pubkey a \<and>
           (\<exists>t. accts L TreasuryDscID = Some t \<and> Pubkey t = Some (Signer tx))))"

lemma step_authorised:
  assumes "ledger_step ed L tx L'" "wf_accts L" "supply_ok L"
    and "accts L d = Some a" "accts L' d = Some a'" "Balance a' < Balance a"
  shows "authorised L tx d"
  using assms(1)
proof cases
  case (genesis p t m)
  then have "log L = []" by (simp add: sealed_def)
  with assms(2,3) have zero: "sum_map Balance (accts L) = 0" by (simp add: supply_ok_def)
  have "Balance a \<le> 0"
    using sum_map_nonneg_member_le [of "accts L" Balance d a] zero assms(2-4)
    by (auto simp: wf_accts_def supply_ok_def)
  with genesis assms show ?thesis
    by (auto simp: append_tx_def SupplyCap_def split: if_splits)
next
  case (transfer p e x b m)
  have c: "Balance (pending_account p) = 0" by (simp add: pending_account_def)
  note mv = move_ok [OF assms(2,3) \<open>accts L e = Some x\<close> \<open>e \<noteq> tp_ToDiscourseID p\<close>
      \<open>b = _\<close> [unfolded recipient_def] c \<open>0 < tp_Amount p\<close> \<open>tp_Amount p \<le> Balance x\<close>]
  show ?thesis
    using transfer assms(4-6) mv(1,2)
    by (auto simp: append_tx_def authorised_def split: if_splits)
next
  case (rotate_key p e x m)
  then show ?thesis using assms(4-6) by (auto simp: append_tx_def split: if_splits)
next
  case (reclaim p x b m)
  have ne: "ri_FromDiscourseID p \<noteq> TreasuryDscID" using reclaim by simp
  have "x = (case accts L TreasuryDscID of None \<Rightarrow> x\<lparr>Balance := 0\<rparr> | Some x \<Rightarrow> x)" using reclaim by simp
  note mv = move_ok [OF assms(2,3) \<open>accts L (ri_FromDiscourseID p) = Some b\<close> ne this _
      \<open>0 < ri_Amount p\<close> \<open>ri_Amount p \<le> Balance b\<close>]
  show ?thesis
    using reclaim assms(4-6) mv(1,2)
    by (auto simp: append_tx_def authorised_def split: if_splits)
qed

text \<open>
  A step other than the genesis raises the nonce of exactly one account, the signer's, by one,
  and to the nonce in the signed payload.
\<close>

definition signed_nonce :: "Tx \<Rightarrow> int option" where
  "signed_nonce tx =
     (if Type tx = TxTransfer then map_option tp_Nonce (transfer_payload (Payload tx))
      else if Type tx = TxRotateKey then map_option rk_Nonce (rotate_payload (Payload tx))
      else if Type tx = TxReclaimInvalid then map_option ri_Nonce (reclaim_payload (Payload tx))
      else None)"

definition nonce_of :: "ledger \<Rightarrow> int \<Rightarrow> int" where
  "nonce_of L = val_at Nonce (accts L)"

lemma step_nonce:
  assumes "ledger_step ed L tx L'" "Type tx \<noteq> TxGenesis"
  shows "\<exists>d a. accts L d = Some a \<and> Pubkey a = Some (Signer tx) \<and>
    signed_nonce tx = Some (nonce_of L' d) \<and> nonce_of L' = (nonce_of L)(d := i64 (nonce_of L d + 1))"
  using assms(1)
proof cases
  case genesis
  with assms(2) show ?thesis by simp
next
  case (transfer p d a b m)
  have "nonce_of L' e = ((nonce_of L)(d := i64 (nonce_of L d + 1))) e" for e
    using transfer by (auto simp: nonce_of_def val_at_def append_tx_def recipient_def pending_account_def split: option.splits)
  with transfer show ?thesis
    by (intro exI [of _ d] exI [of _ a]) (auto simp: signed_nonce_def nonce_of_def val_at_def)
next
  case (rotate_key p d a m)
  have "nonce_of L' e = ((nonce_of L)(d := i64 (nonce_of L d + 1))) e" for e
    using rotate_key by (auto simp: nonce_of_def val_at_def append_tx_def)
  with rotate_key show ?thesis
    by (intro exI [of _ d] exI [of _ a]) (auto simp: signed_nonce_def nonce_of_def val_at_def)
next
  case (reclaim p a b m)
  have "nonce_of L' e = ((nonce_of L)(TreasuryDscID := i64 (nonce_of L TreasuryDscID + 1))) e" for e
    using reclaim by (auto simp: nonce_of_def val_at_def append_tx_def)
  with reclaim show ?thesis
    by (intro exI [of _ TreasuryDscID] exI [of _ a]) (auto simp: signed_nonce_def nonce_of_def val_at_def)
qed

text \<open>
  Nonces never go down. \<open>indexed\<close> says that the log counts its entries; a nonce is bounded
  by the number of entries, so none wraps before $2^{62}$ transactions.
\<close>

definition indexed :: "ledger \<Rightarrow> bool" where
  "indexed L \<longleftrightarrow> (\<forall>i<length (log L). LeafIndex (log L ! i) = int i)"

definition room :: "nat \<Rightarrow> ledger \<Rightarrow> bool" where
  "room n L \<longleftrightarrow> int (length (log L) + n) < 2 ^ 62"

definition nonces_ok :: "ledger \<Rightarrow> bool" where
  "nonces_ok L \<longleftrightarrow> (\<forall>d. 0 \<le> nonce_of L d \<and> nonce_of L d \<le> int (length (log L)))"

lemma indexed_sealed:
  assumes "indexed L" "room 0 L" "sealed ed L tx"
  shows "LeafIndex tx = int (length (log L))"
proof (cases "log L = []")
  case False
  with assms(1) have "LeafIndex (last (log L)) = int (length (log L)) - 1"
    by (simp add: indexed_def last_conv_nth of_nat_diff Suc_le_eq)
  with False assms(2,3) show ?thesis
    by (simp add: sealed_def lastTx_def room_def in_i64_def)
qed (use assms in \<open>simp add: sealed_def lastTx_def\<close>)

lemma indexed_fresh:
  "indexed L \<Longrightarrow> room 0 L \<Longrightarrow> sealed ed L tx \<Longrightarrow> x \<in> set (log L) \<Longrightarrow> LeafIndex x < LeafIndex tx"
  using indexed_sealed [of L ed tx] by (auto simp: indexed_def in_set_conv_nth)

lemma step_indexed:
  assumes "ledger_step ed L tx L'" "indexed L" "room 0 L"
  shows "indexed L'" "length (log L') = Suc (length (log L))"
  using step_log [OF assms(1)] indexed_sealed [OF assms(2,3)] assms(2)
  by (auto simp: indexed_def nth_append less_Suc_eq)

lemma chain_indexed:
  assumes "chain_from ed 0 ZeroHash (log L)" "room 0 L"
  shows "indexed L"
  using chain_from_LeafIndex [OF assms(1)] assms(2)
  by (auto simp: indexed_def room_def intro!: i64_id simp: in_i64_def)

lemma step_nonces_ok:
  assumes "ledger_step ed L tx L'" "nonces_ok L" "room 0 L"
  shows "nonces_ok L'" "nonce_of L d \<le> nonce_of L' d"
proof -
  have "(\<forall>d. 0 \<le> nonce_of L' d \<and> nonce_of L' d \<le> int (Suc (length (log L)))) \<and> nonce_of L d \<le> nonce_of L' d"
  proof (cases "Type tx = TxGenesis")
    case False
    obtain e where e: "nonce_of L' = (nonce_of L)(e := i64 (nonce_of L e + 1))"
      using step_nonce [OF assms(1) False] by blast
    have b: "0 \<le> nonce_of L c \<and> nonce_of L c \<le> int (length (log L))" for c
      using assms(2) by (simp add: nonces_ok_def)
    have "int (length (log L)) < 2 ^ 62" using assms(3) unfolding room_def by simp
    with b [of e] have "0 \<le> nonce_of L e" "nonce_of L e < 2 ^ 62" by linarith+
    then have "i64 (nonce_of L e + 1) = nonce_of L e + 1"
      by (intro i64_id) (simp add: in_i64_def)
    moreover have "nonce_of L c \<le> 1 + int (length (log L))" for c using b [of c] by linarith
    ultimately show ?thesis using b unfolding e by auto
  next
    case True
    with assms(1) have "log L = []" using step_log [of ed L tx L'] by (simp add: sealed_def)
    then have zero: "nonce_of L c = 0" for c using assms(2) by (simp add: nonces_ok_def order_antisym)
    from assms(1) True have "nonce_of L' c = 0" for c
    proof cases
      case (genesis p t m)
      then show ?thesis using zero [of c] by (auto simp: nonce_of_def val_at_def append_tx_def)
    qed auto
    then show ?thesis using zero by simp
  qed
  then show "nonces_ok L'" "nonce_of L d \<le> nonce_of L' d"
    using step_log [OF assms(1)] by (simp_all add: nonces_ok_def)
qed

text \<open>With one account per key, a step is determined by the ledger and the signed transaction.\<close>

definition one_key :: "ledger \<Rightarrow> bool" where
  "one_key L \<longleftrightarrow> (\<forall>d e a b k. accts L d = Some a \<longrightarrow> accts L e = Some b \<longrightarrow>
      Pubkey a = Some k \<longrightarrow> Pubkey b = Some k \<longrightarrow> d = e)"

lemma one_keyD:
  "one_key L \<Longrightarrow> accts L d = Some a \<Longrightarrow> Pubkey a = Some k \<Longrightarrow> accts L e = Some b \<Longrightarrow> Pubkey b = Some k \<Longrightarrow>
   e = d \<and> b = a"
  unfolding one_key_def by (metis option.inject)

lemma step_deterministic:
  assumes "ledger_step ed L tx L1" "ledger_step ed L tx L2" "one_key L"
    and "log L = [] \<longrightarrow> accts L TreasuryDscID = None"
  shows "L1 = L2"
  using assms(1)
proof cases
  case (genesis p t m)
  note g1 = genesis
  then have "log L = []" by (simp add: sealed_def)
  with assms(4) have none: "accts L TreasuryDscID = None" by simp
  from assms(2) g1(3) show ?thesis
  proof cases
    case genesis
    with g1 none show ?thesis by simp
  qed auto
next
  case (transfer p d a b m)
  note t1 = transfer
  from assms(2) t1(3) show ?thesis
  proof cases
    case (transfer p' d' a' b' m')
    then have "p' = p" using t1 by simp
    moreover from this have "d' = d \<and> a' = a"
      using one_keyD [OF assms(3), of d a _ d' a'] t1 transfer by simp
    ultimately show ?thesis using t1 transfer by simp
  qed auto
next
  case (rotate_key p d a m)
  note t1 = rotate_key
  from assms(2) t1(3) show ?thesis
  proof cases
    case (rotate_key p' d' a' m')
    then have "p' = p" using t1 by simp
    moreover from this have "d' = d \<and> a' = a"
      using one_keyD [OF assms(3), of d a _ d' a'] t1 rotate_key by simp
    ultimately show ?thesis using t1 rotate_key by simp
  qed auto
next
  case (reclaim p a b m)
  note t1 = reclaim
  from assms(2) t1(3) show ?thesis
  proof cases
    case reclaim
    then show ?thesis using t1 by simp
  qed auto
qed

end
