(* ===== verification/StoreContract.thy ===== *)
theory StoreContract
  imports LedgerSpec
begin

text \<open>
  What \<open>Apply\<close> needs of a \<open>Store\<close> (the locale \<open>ledger_store\<close>), and what it does
  over every store that keeps this contract: one accepted transaction is one step of the abstract
  ledger. A store may fail at any operation; the laws speak of the operations that succeed.
\<close>

definition run ::
  "(bytes \<Rightarrow> bytes \<Rightarrow> bytes \<Rightarrow> bool) \<Rightarrow> ('s, 't) store_ops \<Rightarrow> 's \<Rightarrow> Tx list \<Rightarrow> 's" where
  "run ed S s txs = foldl (\<lambda>s tx. case snd (Apply ed S s tx) of Inl _ \<Rightarrow> s | Inr s' \<Rightarrow> s') s txs"

text \<open>
  What may become of an account when it is stored over an old one: the identity and the money
  are as given; when the account is new, or its key and name are the old ones, so is all of it.
\<close>

definition stored_as :: "Account option \<Rightarrow> Account \<Rightarrow> Account \<Rightarrow> bool" where
  "stored_as old a a' \<longleftrightarrow>
     DiscourseID a' = DiscourseID a \<and> Nonce a' = Nonce a \<and> Balance a' = Balance a \<and>
     ((case old of None \<Rightarrow> Pubkey a \<noteq> Some []
       | Some o' \<Rightarrow> Pubkey o' = Pubkey a \<and> Username o' = Username a) \<longrightarrow> a' = a)"

locale ledger_store =
  fixes S :: "('s, 't) store_ops"
    and sinv :: "'s \<Rightarrow> bool" and sview :: "'s \<Rightarrow> ledger"
    and tinv :: "'t \<Rightarrow> bool" and tview :: "'t \<Rightarrow> ledger"
  assumes tview_wf: "tinv t \<Longrightarrow> wf_accts (tview t)"
    and Begin_law: "sinv s \<Longrightarrow> Begin S s = Inr t \<Longrightarrow> tinv t \<and> tview t = sview s"
    and Commit_law: "sinv s \<Longrightarrow> tinv t \<Longrightarrow> Commit S s t = Inr s' \<Longrightarrow> sinv s' \<and> sview s' = tview t"
    and LockLedger_law: "tinv t \<Longrightarrow> LockLedger S t = Inr t' \<Longrightarrow> tinv t' \<and> tview t' = tview t"
    and GetAccountByPubKey_law: "tinv t \<Longrightarrow> GetAccountByPubKey S t k = Inr (Some a) \<Longrightarrow>
      accts (tview t) (DiscourseID a) = Some a \<and> Pubkey a = Some k"
    and GetAccountByDiscourseID_law: "tinv t \<Longrightarrow> GetAccountByDiscourseID S t d = Inr r \<Longrightarrow>
      r = accts (tview t) d"
    and GetAccountsByDiscourseIDs_law: "tinv t \<Longrightarrow> GetAccountsByDiscourseIDs S t ds = Inr m \<Longrightarrow>
      map_of m = accts (tview t) |` set ds"
    and UpsertAccount_law: "tinv t \<Longrightarrow> UpsertAccount S t a = Inr t' \<Longrightarrow>
      tinv t' \<and> log (tview t') = log (tview t) \<and>
      (\<exists>a'. stored_as (accts (tview t) (DiscourseID a)) a a' \<and>
            accts (tview t') = (accts (tview t))(DiscourseID a \<mapsto> a') \<and>
            (\<forall>k. Pubkey a = Some k \<longrightarrow> k \<noteq> [] \<longrightarrow> GetAccountByPubKey S t' k = Inr (Some a')))"
    and UpdatePubKey_law: "tinv t \<Longrightarrow> GetAccountByPubKey S t k = Inr (Some a) \<Longrightarrow>
      UpdatePubKey S t k k' = Inr t' \<Longrightarrow>
      tinv t' \<and> log (tview t') = log (tview t) \<and>
      accts (tview t') = (accts (tview t))(DiscourseID a \<mapsto> a\<lparr>Pubkey := Some k'\<rparr>)"
    and UpdateUsernameAndPubKey_law: "tinv t \<Longrightarrow> UpdateUsernameAndPubKey S t d k u = Inr t' \<Longrightarrow>
      tinv t' \<and> log (tview t') = log (tview t) \<and>
      (\<exists>a. accts (tview t) d = Some a \<and>
           accts (tview t') = (accts (tview t))(d \<mapsto> a\<lparr>Pubkey := Some k, Username := u\<rparr>))"
    and LastTx_law: "tinv t \<Longrightarrow> LastTx S t = Inr l \<Longrightarrow> l = lastTx (tview t)"
    and InsertTx_law: "tinv t \<Longrightarrow> InsertTx S t tx = Inr t' \<Longrightarrow>
      (\<forall>x\<in>set (log (tview t)). LeafIndex x < LeafIndex tx) \<Longrightarrow>
      tinv t' \<and> accts (tview t') = accts (tview t) \<and> log (tview t') = log (tview t) @ [tx]"
    and GenesisExists_law: "tinv t \<Longrightarrow> GenesisExists S t = Inr b \<Longrightarrow>
      b \<longleftrightarrow> (\<exists>x\<in>set (log (tview t)). Type x = TxGenesis)"
    and TotalBalance_law: "tinv t \<Longrightarrow> TotalBalance S t = Inr n \<Longrightarrow>
      n = i64 (sum_map Balance (accts (tview t)))"
begin

text \<open>Storing an account that was read, with new money, and storing a new one, is exact.\<close>

lemma upsert_read:
  assumes "tinv t" "UpsertAccount S t a = Inr t'"
    and "accts (tview t) (DiscourseID a) = Some o'" "Pubkey o' = Pubkey a" "Username o' = Username a"
  shows "tinv t'" "log (tview t') = log (tview t)"
    "accts (tview t') = (accts (tview t))(DiscourseID a \<mapsto> a)"
    "\<And>k. Pubkey a = Some k \<Longrightarrow> k \<noteq> [] \<Longrightarrow> GetAccountByPubKey S t' k = Inr (Some a)"
  using UpsertAccount_law [OF assms(1,2)] assms(3-5) by (auto simp: stored_as_def)

lemma upsert_new:
  assumes "tinv t" "UpsertAccount S t a = Inr t'"
    and "accts (tview t) (DiscourseID a) = None" "Pubkey a \<noteq> Some []"
  shows "tinv t'" "log (tview t') = log (tview t)"
    "accts (tview t') = (accts (tview t))(DiscourseID a \<mapsto> a)"
  using UpsertAccount_law [OF assms(1,2)] assms(3,4) by (auto simp: stored_as_def)

text \<open>A handler that succeeds leaves the log alone and does to the accounts what the step says.\<close>

definition handled :: "'t \<Rightarrow> (int \<rightharpoonup> Account) \<Rightarrow> 't \<Rightarrow> bool" where
  "handled t m t' \<longleftrightarrow> tinv t' \<and> log (tview t') = log (tview t) \<and> accts (tview t') = m"

lemma applyGenesis_refines:
  assumes "tinv t" "applyGenesis S t tx = Inr t'"
  obtains p a where "genesis_payload (Payload tx) = Some p" "length (gp_To p) = PubKeyLen"
    "gp_Amount p = SupplyCap" "Signer tx = gp_To p" "DiscourseID a = TreasuryDscID"
    "Balance a = SupplyCap" "Nonce a = 0"
    "accts (tview t) TreasuryDscID = None \<longrightarrow> a = treasury_account p"
    "handled t ((accts (tview t))(TreasuryDscID \<mapsto> a)) t'"
proof -
  obtain p where p: "genesis_payload (Payload tx) = Some p" "length (gp_To p) = PubKeyLen"
    "gp_Amount p = SupplyCap" "Signer tx = gp_To p" "UpsertAccount S t (treasury_account p) = Inr t'"
    using assms(2) by (auto simp: applyGenesis_def result_simps)
  moreover have "DiscourseID (treasury_account p) = TreasuryDscID" "Nonce (treasury_account p) = 0"
    "Balance (treasury_account p) = SupplyCap" "Pubkey (treasury_account p) = Some (gp_To p)"
    by (simp_all add: treasury_account_def)
  moreover have "gp_To p \<noteq> []" using p(2) by (auto simp: PubKeyLen_def)
  moreover obtain a where a: "stored_as (accts (tview t) TreasuryDscID) (treasury_account p) a"
    "handled t ((accts (tview t))(TreasuryDscID \<mapsto> a)) t'"
    using UpsertAccount_law [OF assms(1) p(5)] \<open>DiscourseID _ = TreasuryDscID\<close>
    by (auto simp: handled_def)
  ultimately show thesis
    by (intro that [OF p(1-4), of a]) (simp_all add: stored_as_def)
qed

lemma applyTransfer_refines:
  assumes "tinv t" "applyTransfer S t tx = Inr t'"
  obtains p d a b where "transfer_payload (Payload tx) = Some p" "0 < tp_Amount p"
    "TreasuryDscID < tp_ToDiscourseID p" "Signer tx = tp_From p"
    "accts (tview t) d = Some a" "Pubkey a = Some (tp_From p)" "d \<noteq> tp_ToDiscourseID p"
    "tp_Nonce p = i64 (Nonce a + 1)" "tp_Amount p \<le> Balance a"
    "b = recipient p (accts (tview t) (tp_ToDiscourseID p))"
    "handled t ((accts (tview t))(d \<mapsto> a\<lparr>Balance := i64 (Balance a - tp_Amount p), Nonce := tp_Nonce p\<rparr>,
       tp_ToDiscourseID p \<mapsto> b\<lparr>Balance := i64 (Balance b + tp_Amount p)\<rparr>)) t'"
proof -
  obtain p a r t1 where p: "transfer_payload (Payload tx) = Some p" "0 < tp_Amount p"
    "TreasuryDscID < tp_ToDiscourseID p" "tp_From p = Signer tx"
    "GetAccountByPubKey S t (tp_From p) = Inr (Some a)" "DiscourseID a \<noteq> tp_ToDiscourseID p"
    "tp_Nonce p = i64 (Nonce a + 1)" "tp_Amount p \<le> Balance a"
    and r: "GetAccountByDiscourseID S t (tp_ToDiscourseID p) = Inr r"
    and u1: "UpsertAccount S t (a\<lparr>Balance := i64 (Balance a - tp_Amount p), Nonce := tp_Nonce p\<rparr>) = Inr t1"
    and u2: "UpsertAccount S t1 ((recipient p r)\<lparr>Balance := i64 (Balance (recipient p r) + tp_Amount p)\<rparr>) = Inr t'"
    using assms(2)
    by (auto simp: applyTransfer_def result_simps Let_def not_le not_less)
  define b where "b = recipient p r"
  note a = GetAccountByPubKey_law [OF assms(1) p(5)]
  have r: "r = accts (tview t) (tp_ToDiscourseID p)"
    using GetAccountByDiscourseID_law [OF assms(1) r] .
  then have b: "DiscourseID b = tp_ToDiscourseID p"
    using tview_wf [OF assms(1)]
    by (auto simp: b_def recipient_def pending_account_def wf_accts_def split: option.splits)
  have t1: "tinv t1" "log (tview t1) = log (tview t)"
    "accts (tview t1) = (accts (tview t))(DiscourseID a \<mapsto>
       a\<lparr>Balance := i64 (Balance a - tp_Amount p), Nonce := tp_Nonce p\<rparr>)"
    using upsert_read [OF assms(1) u1] a by auto
  have u2: "UpsertAccount S t1 (b\<lparr>Balance := i64 (Balance b + tp_Amount p)\<rparr>) = Inr t'"
    using u2 by (simp add: b_def)
  have "handled t ((accts (tview t1))(tp_ToDiscourseID p \<mapsto> b\<lparr>Balance := i64 (Balance b + tp_Amount p)\<rparr>)) t'"
  proof (cases "accts (tview t) (tp_ToDiscourseID p)")
    case None
    then have "accts (tview t1) (DiscourseID b) = None" "Pubkey b = None"
      using t1 b p(6) r by (simp_all add: b_def recipient_def pending_account_def)
    with upsert_new [OF t1(1) u2] b t1 show ?thesis by (simp add: handled_def)
  next
    case (Some c)
    then have "accts (tview t1) (DiscourseID b) = Some b"
      using t1 b p(6) r by (simp add: b_def recipient_def)
    with upsert_read [OF t1(1) u2] b t1 show ?thesis by (simp add: handled_def)
  qed
  with t1 a p that [of p "DiscourseID a" a b] r show thesis by (simp add: b_def)
qed

lemma applyRotateKey_refines:
  assumes "tinv t" "applyRotateKey S t tx = Inr t'"
  obtains p d a where "rotate_payload (Payload tx) = Some p" "length (rk_NewPubKey p) = PubKeyLen"
    "Signer tx = rk_OldPubKey p" "accts (tview t) d = Some a" "Pubkey a = Some (rk_OldPubKey p)"
    "rk_Nonce p = i64 (Nonce a + 1)"
    "handled t ((accts (tview t))(d \<mapsto> a\<lparr>Nonce := rk_Nonce p, Pubkey := Some (rk_NewPubKey p)\<rparr>)) t'"
proof -
  obtain p a t1 where p: "rotate_payload (Payload tx) = Some p"
    "length (rk_OldPubKey p) = PubKeyLen" "length (rk_NewPubKey p) = PubKeyLen"
    "Signer tx = rk_OldPubKey p" "GetAccountByPubKey S t (rk_OldPubKey p) = Inr (Some a)"
    "rk_Nonce p = i64 (Nonce a + 1)"
    and u1: "UpsertAccount S t (a\<lparr>Nonce := rk_Nonce p\<rparr>) = Inr t1"
    and u2: "UpdatePubKey S t1 (rk_OldPubKey p) (rk_NewPubKey p) = Inr t'"
    using assms(2)
    by (auto simp: applyRotateKey_def result_simps)
  note a = GetAccountByPubKey_law [OF assms(1) p(5)]
  have ne: "rk_OldPubKey p \<noteq> []" using p(2) by (auto simp: PubKeyLen_def)
  have t1: "tinv t1" "log (tview t1) = log (tview t)"
    "accts (tview t1) = (accts (tview t))(DiscourseID a \<mapsto> a\<lparr>Nonce := rk_Nonce p\<rparr>)"
    "GetAccountByPubKey S t1 (rk_OldPubKey p) = Inr (Some (a\<lparr>Nonce := rk_Nonce p\<rparr>))"
    using upsert_read [OF assms(1) u1] a ne by auto
  have "handled t ((accts (tview t))(DiscourseID a \<mapsto>
      a\<lparr>Nonce := rk_Nonce p, Pubkey := Some (rk_NewPubKey p)\<rparr>)) t'"
    using UpdatePubKey_law [OF t1(1,4) u2] t1(2,3) by (simp add: handled_def)
  with p a that [of p "DiscourseID a" a] show thesis by simp
qed

lemma applyReclaimInvalid_refines:
  assumes "tinv t" "applyReclaimInvalid S t tx = Inr t'"
  obtains p a b where "reclaim_payload (Payload tx) = Some p" "0 < ri_Amount p"
    "ri_FromDiscourseID p < TreasuryDscID" "Signer tx = ri_Admin p"
    "accts (tview t) TreasuryDscID = Some a" "Pubkey a = Some (ri_Admin p)"
    "ri_Nonce p = i64 (Nonce a + 1)" "accts (tview t) (ri_FromDiscourseID p) = Some b"
    "\<not> has_pubkey b" "ri_Amount p \<le> Balance b"
    "handled t ((accts (tview t))(ri_FromDiscourseID p \<mapsto> b\<lparr>Balance := i64 (Balance b - ri_Amount p)\<rparr>,
       TreasuryDscID \<mapsto> a\<lparr>Balance := i64 (Balance a + ri_Amount p), Nonce := ri_Nonce p\<rparr>)) t'"
proof -
  obtain p a b t1 where p: "reclaim_payload (Payload tx) = Some p" "0 < ri_Amount p"
    "ri_FromDiscourseID p < TreasuryDscID" "Signer tx = ri_Admin p"
    "GetAccountByPubKey S t (ri_Admin p) = Inr (Some a)" "DiscourseID a = TreasuryDscID"
    "ri_Nonce p = i64 (Nonce a + 1)" "\<not> has_pubkey b" "ri_Amount p \<le> Balance b"
    and r: "GetAccountByDiscourseID S t (ri_FromDiscourseID p) = Inr (Some b)"
    and u1: "UpsertAccount S t (b\<lparr>Balance := i64 (Balance b - ri_Amount p)\<rparr>) = Inr t1"
    and u2: "UpsertAccount S t1 (a\<lparr>Balance := i64 (Balance a + ri_Amount p), Nonce := ri_Nonce p\<rparr>) = Inr t'"
    using assms(2)
    by (auto simp: applyReclaimInvalid_def result_simps Let_def not_le not_less)
  note a = GetAccountByPubKey_law [OF assms(1) p(5)]
  note r = GetAccountByDiscourseID_law [OF assms(1) r, symmetric]
  then have b: "DiscourseID b = ri_FromDiscourseID p"
    using tview_wf [OF assms(1)] by (auto simp: wf_accts_def)
  have t1: "tinv t1" "log (tview t1) = log (tview t)"
    "accts (tview t1) = (accts (tview t))(ri_FromDiscourseID p \<mapsto> b\<lparr>Balance := i64 (Balance b - ri_Amount p)\<rparr>)"
    using upsert_read [OF assms(1) u1] r b by auto
  then have "accts (tview t1) (DiscourseID a) = Some a" using a p by simp
  with upsert_read [OF t1(1) u2] p t1
  have "handled t ((accts (tview t1))(TreasuryDscID \<mapsto>
      a\<lparr>Balance := i64 (Balance a + ri_Amount p), Nonce := ri_Nonce p\<rparr>)) t'"
    by (simp add: handled_def)
  with p a r t1 that [of p a b] show thesis by simp
qed

text \<open>One accepted transaction is one step.\<close>

lemma checkSupply_Inr:
  assumes "tinv t" "checkSupply S t ty = Inr t'"
  shows "t' = t" "requiresFullSupplyCheck ty \<Longrightarrow> i64 (sum_map Balance (accts (tview t))) = SupplyCap"
  using assms TotalBalance_law [OF assms(1)]
  by (auto simp: checkSupply_def result_simps split: if_splits)

lemma dispatch_refines:
  assumes "tinv t" "dispatch S t tx = Inr t1"
  shows "tinv t1 \<and> log (tview t1) = log (tview t)"
proof -
  consider "applyGenesis S t tx = Inr t1" | "applyTransfer S t tx = Inr t1"
    | "applyRotateKey S t tx = Inr t1" | "applyReclaimInvalid S t tx = Inr t1"
    using assms(2) by (auto simp: dispatch_def split: if_splits)
  then show ?thesis
  proof cases
    case 1
    with applyGenesis_refines [OF assms(1) this] show ?thesis by (auto simp: handled_def)
  next
    case 2
    with applyTransfer_refines [OF assms(1) this] show ?thesis by (auto simp: handled_def)
  next
    case 3
    with applyRotateKey_refines [OF assms(1) this] show ?thesis by (auto simp: handled_def)
  next
    case 4
    with applyReclaimInvalid_refines [OF assms(1) this] show ?thesis by (auto simp: handled_def)
  qed
qed

lemma dispatch_step:
  assumes "tinv t" "dispatch S t tx = Inr t1" "sealed ed (tview t) tx"
    and "requiresFullSupplyCheck (Type tx) \<Longrightarrow> i64 (sum_map Balance (accts (tview t1))) = SupplyCap"
  shows "ledger_step ed (tview t) tx (append_tx (accts (tview t1)) tx (tview t))"
proof -
  consider "Type tx = TxGenesis" "applyGenesis S t tx = Inr t1"
    | "Type tx = TxTransfer" "applyTransfer S t tx = Inr t1"
    | "Type tx = TxRotateKey" "applyRotateKey S t tx = Inr t1"
    | "Type tx = TxReclaimInvalid" "applyReclaimInvalid S t tx = Inr t1"
    using assms(2) by (auto simp: dispatch_def split: if_splits)
  then show ?thesis
  proof cases
    case 1
    obtain p a where g: "genesis_payload (Payload tx) = Some p" "length (gp_To p) = PubKeyLen"
        "gp_Amount p = SupplyCap" "Signer tx = gp_To p" "DiscourseID a = TreasuryDscID"
        "Balance a = SupplyCap" "Nonce a = 0"
        "accts (tview t) TreasuryDscID = None \<longrightarrow> a = treasury_account p"
        "handled t ((accts (tview t))(TreasuryDscID \<mapsto> a)) t1"
      by (rule applyGenesis_refines [OF assms(1) 1(2)])
    with ledger_step.genesis [OF assms(3) 1(1) g(1-8) refl] assms(4) 1(1) show ?thesis
      by (simp add: handled_def requiresFullSupplyCheck_def)
  next
    case 2
    show ?thesis
      by (rule applyTransfer_refines [OF assms(1) 2(2)],
          rule ledger_step.transfer [OF assms(3) 2(1)]) (auto simp: handled_def)
  next
    case 3
    show ?thesis
      by (rule applyRotateKey_refines [OF assms(1) 3(2)],
          rule ledger_step.rotate_key [OF assms(3) 3(1)]) (auto simp: handled_def)
  next
    case 4
    show ?thesis
      by (rule applyReclaimInvalid_refines [OF assms(1) 4(2)],
          rule ledger_step.reclaim [OF assms(3) 4(1)])
        (use assms(4) 4(1) in \<open>auto simp: handled_def requiresFullSupplyCheck_def\<close>)
  qed
qed

lemma link_tx_sealed:
  assumes "link_tx (lastTx L) tx = Inr tx1" "Build (Type tx1) (Payload tx1) (Signer tx1) (Sig tx1) (PrevHash tx1) = Inr b"
    and "VerifySig ed (Signer tx) (Payload tx) (Sig tx)"
  shows "sealed ed L (tx1\<lparr>TxHash := TxHash b\<rparr>)"
  using assms
  by (auto simp: link_tx_def sealed_def Build_def lastTx_def split: if_splits option.splits)

lemma apply_in_step:
  assumes "tinv t" "apply_in S t tx = (tx', Inr t')" "VerifySig ed (Signer tx) (Payload tx) (Sig tx)"
    and "\<And>tx x. sealed ed (tview t) tx \<Longrightarrow> x \<in> set (log (tview t)) \<Longrightarrow> LeafIndex x < LeafIndex tx"
  shows "tinv t' \<and> ledger_step ed (tview t) tx' (tview t')"
proof -
  obtain t0 where t0: "LockLedger S t = Inr t0"
    using assms(2) by (auto simp: apply_in_def with_context_def split: sum.splits)
  obtain l where l: "LastTx S t0 = Inr l"
    using assms(2) t0 by (auto simp: apply_in_def with_context_def split: sum.splits)
  obtain tx1 where tx1: "link_tx l tx = Inr tx1" "apply_linked S t0 tx1 = (tx', Inr t')"
    using assms(2) t0 l by (auto simp: apply_in_def split: sum.splits)
  obtain b where b: "Build (Type tx1) (Payload tx1) (Signer tx1) (Sig tx1) (PrevHash tx1) = Inr b"
    using tx1(2) by (auto simp: apply_linked_def split: sum.splits)
  obtain t1 t2 where t12: "tx' = tx1\<lparr>TxHash := TxHash b\<rparr>" "dispatch S t0 tx' = Inr t1"
    "InsertTx S t1 tx' = Inr t2" "checkSupply S t2 (Type tx') = Inr t'"
    using tx1(2) b by (auto simp: apply_linked_def Let_def and_then_Inr_iff with_context_Inr_iff)
  have t0': "tinv t0" "tview t0 = tview t" using LockLedger_law [OF assms(1) t0] by auto
  have sealed: "sealed ed (tview t) tx'"
    using link_tx_sealed [of "tview t" tx tx1 b ed] tx1 b assms(3) LastTx_law [OF t0'(1) l] t0' t12 by simp
  have t1: "tinv t1 \<and> log (tview t1) = log (tview t)"
    using dispatch_refines t0' t12 by metis
  with InsertTx_law [of t1 tx' t2] assms(4) [OF sealed] t12
  have t2: "tinv t2" "accts (tview t2) = accts (tview t1)" "log (tview t2) = log (tview t) @ [tx']"
    by auto
  note sup = checkSupply_Inr [OF t2(1) t12(4)]
  have "tview t' = append_tx (accts (tview t1)) tx' (tview t)"
    using sup(1) t2 by (simp add: append_tx_def)
  moreover have "ledger_step ed (tview t) tx' (append_tx (accts (tview t1)) tx' (tview t))"
    using dispatch_step [OF t0'(1) t12(2), of ed] sealed sup(2) t2 t0' by simp
  ultimately show ?thesis using sup(1) t2 by simp
qed

lemma Apply_step:
  assumes "sinv s" "Apply ed S s tx = (tx', Inr s')"
    and "\<And>tx x. sealed ed (sview s) tx \<Longrightarrow> x \<in> set (log (sview s)) \<Longrightarrow> LeafIndex x < LeafIndex tx"
  shows "sinv s' \<and> ledger_step ed (sview s) tx' (sview s')"
proof -
  have v: "VerifySig ed (Signer tx) (Payload tx) (Sig tx)"
    using assms(2) by (auto simp: Apply_def split: if_splits)
  obtain t where t: "Begin S s = Inr t"
    using assms(2) v by (auto simp: Apply_def with_context_def split: sum.splits)
  obtain t' where t': "apply_in S t tx = (tx', Inr t')" "Commit S s t' = Inr s'"
    using assms(2) v t by (auto simp: Apply_def and_then_Inr_iff split: prod.splits)
  have "tinv t" "tview t = sview s" using Begin_law [OF assms(1) t] by auto
  with apply_in_step [OF _ t'(1) v] assms(3) Commit_law [OF assms(1) _ t'(2)] show ?thesis by metis
qed

lemma Apply_refines:
  assumes "sinv s" "ledger_ok ed (sview s)" "room 0 (sview s)"
    and "Apply ed S s tx = (tx', Inr s')"
  shows "sinv s' \<and> ledger_step ed (sview s) tx' (sview s') \<and> ledger_ok ed (sview s')"
proof -
  have "indexed (sview s)" using assms(2,3) chain_indexed by (auto simp: ledger_ok_def)
  with Apply_step [OF assms(1,4)] indexed_fresh assms(3)
  have "sinv s' \<and> ledger_step ed (sview s) tx' (sview s')" by metis
  with step_ok assms(2) show ?thesis by blast
qed

text \<open>A sequence of calls; a call that fails leaves the store as it is.\<close>

lemma run_induct:
  assumes "sinv s" "P (sview s)" "indexed (sview s)" "room (length ts) (sview s)"
    and step: "\<And>L tx L'. ledger_step ed L tx L' \<Longrightarrow> indexed L \<Longrightarrow> room 0 L \<Longrightarrow> P L \<Longrightarrow> P L'"
  shows "sinv (run ed S s ts) \<and> P (sview (run ed S s ts)) \<and> indexed (sview (run ed S s ts)) \<and>
    length (log (sview (run ed S s ts))) \<le> length (log (sview s)) + length ts"
  using assms(1-4)
proof (induction ts arbitrary: s)
  case (Cons tx ts)
  have room: "room 0 (sview s)" using Cons.prems(4) by (simp add: room_def)
  obtain tx' r where r: "Apply ed S s tx = (tx', r)" by fastforce
  show ?case
  proof (cases r)
    case (Inl e)
    with r Cons.prems Cons.IH [of s] show ?thesis by (simp add: run_def room_def)
  next
    case (Inr s')
    have s': "sinv s' \<and> ledger_step ed (sview s) tx' (sview s')"
      using Apply_step [OF Cons.prems(1)] r Inr indexed_fresh [OF Cons.prems(3) room] by metis
    then have "P (sview s')" "indexed (sview s')" "length (log (sview s')) = Suc (length (log (sview s)))"
      using step step_indexed Cons.prems room by blast+
    then show ?thesis
      using s' Cons.prems(4) Cons.IH [of s'] r Inr by (simp add: run_def room_def)
  qed
qed (simp add: run_def)

lemma run_ok:
  assumes "sinv s" "ledger_ok ed (sview s)" "room (length ts) (sview s)"
  shows "sinv (run ed S s ts) \<and> ledger_ok ed (sview (run ed S s ts)) \<and>
    length (log (sview (run ed S s ts))) \<le> length (log (sview s)) + length ts"
proof -
  have "room 0 (sview s)" using assms(3) by (simp add: room_def)
  then have "indexed (sview s)" using assms(2) chain_indexed by (auto simp: ledger_ok_def)
  then show ?thesis
    using run_induct [of s "ledger_ok ed" ts] assms step_ok by blast
qed

lemma run_nonces:
  assumes "sinv s" "nonces_ok (sview s)" "indexed (sview s)" "room (length ts) (sview s)"
  shows "nonces_ok (sview (run ed S s ts)) \<and> nonce_of (sview s) d \<le> nonce_of (sview (run ed S s ts)) d"
  using run_induct [of s "\<lambda>L. nonces_ok L \<and> nonce_of (sview s) d \<le> nonce_of L d" ts ed]
    assms step_nonces_ok by (meson order_refl order_trans)

end

end
