(* ===== verification/MemStore.thy ===== *)
theory MemStore
  imports StoreContract
begin

text \<open>
  \<open>internal/ledger/memstore.go\<close>: the store in memory, two Go maps and a slice. A
  transaction works on private copies that \<open>Commit\<close> puts in place of the store's. The maps
  are association lists; \<open>byPubKey\<close> is the index from keys to account ids. It is an
  interpretation of the store contract.
\<close>

section \<open>State\<close>

record MemStore =
  byDiscourseID :: "(int \<times> Account) list"
  byPubKey :: "(bytes \<times> int) list"
  txs :: "Tx list"

record memTx = MemStore +
  done_flag :: bool

definition NewMemStore :: MemStore where
  "NewMemStore = \<lparr>byDiscourseID = [], byPubKey = [], txs = []\<rparr>"

section \<open>Operations\<close>

definition mem_Begin :: "MemStore \<Rightarrow> err + memTx" where
  "mem_Begin m =
     Inr \<lparr>byDiscourseID = byDiscourseID m, byPubKey = byPubKey m, txs = txs m, done_flag = False\<rparr>"

definition mem_Commit :: "MemStore \<Rightarrow> memTx \<Rightarrow> err + MemStore" where
  "mem_Commit parent t =
     (if done_flag t then Inl (Errorf ''tx already done'')
      else Inr \<lparr>byDiscourseID = byDiscourseID t, byPubKey = byPubKey t, txs = txs t\<rparr>)"

definition mem_LockLedger :: "memTx \<Rightarrow> err + memTx" where
  "mem_LockLedger t = Inr t"

definition mem_GetAccountByPubKey :: "memTx \<Rightarrow> bytes \<Rightarrow> err + Account option" where
  "mem_GetAccountByPubKey t pubkey =
     (if pubkey = [] then Inr None
      else case map_of (byPubKey t) pubkey of
        None \<Rightarrow> Inr None
      | Some did \<Rightarrow> Inr (map_of (byDiscourseID t) did))"

definition mem_GetAccountByDiscourseID :: "memTx \<Rightarrow> int \<Rightarrow> err + Account option" where
  "mem_GetAccountByDiscourseID t did = Inr (map_of (byDiscourseID t) did)"

definition mem_GetAccountsByDiscourseIDs :: "memTx \<Rightarrow> int list \<Rightarrow> err + (int \<times> Account) list" where
  "mem_GetAccountsByDiscourseIDs t dids =
     Inr (foldl (\<lambda>out did. case map_of (byDiscourseID t) did of
                   None \<Rightarrow> out | Some a \<Rightarrow> AList.update did a out) [] dids)"

text \<open>Deleting an account's old key from the index, and entering a new one if it is not empty.\<close>

definition deindex :: "bytes option \<Rightarrow> (bytes \<times> int) list \<Rightarrow> (bytes \<times> int) list" where
  "deindex k bp = (case k of Some key \<Rightarrow> AList.delete key bp | None \<Rightarrow> bp)"

definition enindex :: "bytes option \<Rightarrow> int \<Rightarrow> (bytes \<times> int) list \<Rightarrow> (bytes \<times> int) list" where
  "enindex k did bp = (case k of Some key \<Rightarrow> if key \<noteq> [] then AList.update key did bp else bp | None \<Rightarrow> bp)"

definition mem_UpsertAccount :: "memTx \<Rightarrow> Account \<Rightarrow> err + memTx" where
  "mem_UpsertAccount t a =
     (let bp = (case map_of (byDiscourseID t) (DiscourseID a) of
                  Some existing \<Rightarrow> deindex (Pubkey existing) (byPubKey t)
                | None \<Rightarrow> byPubKey t)
      in Inr (t\<lparr>byDiscourseID := AList.update (DiscourseID a) a (byDiscourseID t),
                byPubKey := enindex (Pubkey a) (DiscourseID a) bp\<rparr>))"

text \<open>A nil account behind an index entry would be a nil dereference, an error here.\<close>

definition mem_UpdatePubKey :: "memTx \<Rightarrow> bytes \<Rightarrow> bytes \<Rightarrow> err + memTx" where
  "mem_UpdatePubKey t oldPub newPub =
     (case map_of (byPubKey t) oldPub of
        None \<Rightarrow> Inl (Sentinel ErrUnknownAccount)
      | Some did \<Rightarrow>
          (case map_of (byDiscourseID t) did of
             None \<Rightarrow> Inl (Errorf ''nil pointer dereference'')
           | Some a \<Rightarrow>
               Inr (t\<lparr>byDiscourseID := AList.update did (a\<lparr>Pubkey := Some newPub\<rparr>) (byDiscourseID t),
                      byPubKey := AList.update newPub did (AList.delete oldPub (byPubKey t))\<rparr>)))"

definition mem_UpdateUsernameAndPubKey :: "memTx \<Rightarrow> int \<Rightarrow> bytes \<Rightarrow> bytes \<Rightarrow> err + memTx" where
  "mem_UpdateUsernameAndPubKey t did pubkey username =
     (case map_of (byDiscourseID t) did of
        None \<Rightarrow> Inl (Sentinel ErrUnknownAccount)
      | Some a \<Rightarrow>
          (let bp = deindex (Pubkey a) (byPubKey t)
           in Inr (t\<lparr>byDiscourseID :=
                       AList.update did (a\<lparr>Pubkey := Some pubkey, Username := username\<rparr>) (byDiscourseID t),
                     byPubKey := AList.update pubkey did bp\<rparr>)))"

definition mem_LastTx :: "memTx \<Rightarrow> err + Tx option" where
  "mem_LastTx t = (if txs t = [] then Inr None else Inr (Some (txs t ! (length (txs t) - 1))))"

definition mem_InsertTx :: "memTx \<Rightarrow> Tx \<Rightarrow> err + memTx" where
  "mem_InsertTx t tx =
     (if list_ex (\<lambda>existing. TxHash existing = TxHash tx) (txs t) then Inl (Errorf ''duplicate tx_hash'')
      else Inr (t\<lparr>txs := txs t @ [tx]\<rparr>))"

definition mem_GenesisExists :: "memTx \<Rightarrow> err + bool" where
  "mem_GenesisExists t = Inr (list_ex (\<lambda>tx. Type tx = TxGenesis) (txs t))"

definition mem_TotalBalance :: "memTx \<Rightarrow> err + int" where
  "mem_TotalBalance t = Inr (foldl (\<lambda>total (k, a). i64 (total + Balance a)) 0 (byDiscourseID t))"

definition MemOps :: "(MemStore, memTx) store_ops" where
  "MemOps =
     \<lparr>Begin = mem_Begin, Commit = mem_Commit, LockLedger = mem_LockLedger,
      GetAccountByPubKey = mem_GetAccountByPubKey,
      GetAccountByDiscourseID = mem_GetAccountByDiscourseID,
      GetAccountsByDiscourseIDs = mem_GetAccountsByDiscourseIDs,
      UpsertAccount = mem_UpsertAccount, UpdatePubKey = mem_UpdatePubKey,
      UpdateUsernameAndPubKey = mem_UpdateUsernameAndPubKey, LastTx = mem_LastTx,
      InsertTx = mem_InsertTx, GenesisExists = mem_GenesisExists, TotalBalance = mem_TotalBalance\<rparr>"

lemma MemOps_simps [simp]:
  "Begin MemOps = mem_Begin" "Commit MemOps = mem_Commit" "LockLedger MemOps = mem_LockLedger"
  "GetAccountByPubKey MemOps = mem_GetAccountByPubKey"
  "GetAccountByDiscourseID MemOps = mem_GetAccountByDiscourseID"
  "GetAccountsByDiscourseIDs MemOps = mem_GetAccountsByDiscourseIDs"
  "UpsertAccount MemOps = mem_UpsertAccount" "UpdatePubKey MemOps = mem_UpdatePubKey"
  "UpdateUsernameAndPubKey MemOps = mem_UpdateUsernameAndPubKey" "LastTx MemOps = mem_LastTx"
  "InsertTx MemOps = mem_InsertTx" "GenesisExists MemOps = mem_GenesisExists"
  "TotalBalance MemOps = mem_TotalBalance"
  by (simp_all add: MemOps_def)

section \<open>Invariant\<close>

text \<open>Every index entry for a key leads to an account that holds that key.\<close>

definition index_ok :: "(int \<rightharpoonup> Account) \<Rightarrow> (bytes \<rightharpoonup> int) \<Rightarrow> bool" where
  "index_ok B P \<longleftrightarrow> (\<forall>k d. k \<noteq> [] \<longrightarrow> P k = Some d \<longrightarrow> (\<exists>a. B d = Some a \<and> Pubkey a = Some k))"

lemma index_okD:
  "index_ok B P \<Longrightarrow> P k = Some d \<Longrightarrow> k \<noteq> [] \<Longrightarrow> \<exists>a. B d = Some a \<and> Pubkey a = Some k"
  by (simp add: index_ok_def)

definition mem_ok :: "'a MemStore_scheme \<Rightarrow> bool" where
  "mem_ok m \<longleftrightarrow>
     distinct (map fst (byDiscourseID m)) \<and>
     (\<forall>d a. map_of (byDiscourseID m) d = Some a \<longrightarrow> DiscourseID a = d) \<and>
     index_ok (map_of (byDiscourseID m)) (map_of (byPubKey m))"

lemma mem_ok_id: "mem_ok m \<Longrightarrow> map_of (byDiscourseID m) d = Some a \<Longrightarrow> DiscourseID a = d"
  by (simp add: mem_ok_def)

lemma mem_ok_index: "mem_ok m \<Longrightarrow> index_ok (map_of (byDiscourseID m)) (map_of (byPubKey m))"
  by (simp add: mem_ok_def)

definition mem_view :: "'a MemStore_scheme \<Rightarrow> ledger" where
  "mem_view m = \<lparr>accts = map_of (byDiscourseID m), log = txs m\<rparr>"

lemma mem_ok_new [simp]: "mem_ok NewMemStore" "mem_view NewMemStore = empty_ledger"
  by (simp_all add: mem_ok_def NewMemStore_def index_ok_def mem_view_def empty_ledger_def)

definition old_key :: "(int \<rightharpoonup> Account) \<Rightarrow> int \<Rightarrow> bytes option" where
  "old_key B d = Option.bind (B d) Pubkey"

lemma old_key_simps [simp]: "B d = None \<Longrightarrow> old_key B d = None" "B d = Some a \<Longrightarrow> old_key B d = Pubkey a"
  by (simp_all add: old_key_def)

lemma map_of_deindex: "map_of (deindex k bp) j = (if k = Some j then None else map_of bp j)"
  by (auto simp: deindex_def delete_conv' split: option.splits)

lemma map_of_enindex: "map_of (enindex k d bp) j = (if k = Some j \<and> j \<noteq> [] then Some d else map_of bp j)"
  by (auto simp: enindex_def update_conv' split: option.splits)

lemma upsert_index:
  "(case map_of (byDiscourseID t) d of Some e \<Rightarrow> deindex (Pubkey e) bp | None \<Rightarrow> bp)
   = deindex (old_key (map_of (byDiscourseID t)) d) bp"
  by (auto simp: deindex_def split: option.splits)

lemma index_ok_upsert:
  assumes "index_ok B P" "\<And>k e. k \<noteq> [] \<Longrightarrow> P' k = Some e \<Longrightarrow>
      (Pubkey a = Some k \<and> e = d) \<or> (P k = Some e \<and> old_key B d \<noteq> Some k)"
  shows "index_ok (B(d \<mapsto> a)) P'"
  unfolding index_ok_def
proof (intro allI impI)
  fix k e
  assume k: "k \<noteq> []" "P' k = Some e"
  from assms(2) [OF k] show "\<exists>x. (B(d \<mapsto> a)) e = Some x \<and> Pubkey x = Some k"
  proof
    assume "P k = Some e \<and> old_key B d \<noteq> Some k"
    moreover from this assms(1) k obtain x where "B e = Some x" "Pubkey x = Some k"
      unfolding index_ok_def by blast
    ultimately show ?thesis by (cases "e = d") auto
  qed auto
qed

lemma index_ok_rekey:
  assumes "index_ok B P" "P old = Some d" "old \<noteq> []" "B d = Some a" "Pubkey a' = Some new"
  shows "index_ok (B(d \<mapsto> a')) ((P(old := None))(new \<mapsto> d))"
  unfolding index_ok_def
proof (intro allI impI)
  fix k e
  assume k: "k \<noteq> []" "((P(old := None))(new \<mapsto> d)) k = Some e"
  show "\<exists>x. (B(d \<mapsto> a')) e = Some x \<and> Pubkey x = Some k"
  proof (cases "k = new")
    case True
    with k assms(5) show ?thesis by auto
  next
    case False
    with k have "k \<noteq> old" "P k = Some e" by (auto split: if_splits)
    moreover from this assms(1) k obtain x where "B e = Some x" "Pubkey x = Some k"
      unfolding index_ok_def by blast
    moreover have "Pubkey a = Some old" using assms unfolding index_ok_def by fastforce
    ultimately show ?thesis using assms(4) by (cases "e = d") auto
  qed
qed

lemma foldl_i64_sum:
  "foldl (\<lambda>total (k, a). i64 (total + f a)) (i64 n) m = i64 (n + sum_on f m)"
proof (induction m arbitrary: n)
  case (Cons p m)
  then show ?case by (cases p) (simp add: sum_on_def add.assoc)
qed (simp add: sum_on_def)

lemma foldl_lookup:
  "map_of (foldl (\<lambda>out d. case B d of None \<Rightarrow> out | Some a \<Rightarrow> AList.update d a out) acc ds)
   = map_of acc ++ (B |` set ds)"
proof (induction ds arbitrary: acc)
  case (Cons d ds)
  then show ?case
    by (auto simp: fun_eq_iff map_add_def restrict_map_def update_conv' split: option.splits)
qed simp

section \<open>The contract\<close>

lemma mem_view_simps [simp]:
  "accts (mem_view t) = map_of (byDiscourseID t)" "log (mem_view t) = txs t"
  by (simp_all add: mem_view_def)

lemma mem_GetAccountByPubKey_Some:
  assumes "mem_GetAccountByPubKey t k = Inr (Some a)" "mem_ok t"
  shows "k \<noteq> []" "map_of (byPubKey t) k = Some (DiscourseID a)"
    "map_of (byDiscourseID t) (DiscourseID a) = Some a" "Pubkey a = Some k"
proof -
  obtain d where d: "k \<noteq> []" "map_of (byPubKey t) k = Some d" "map_of (byDiscourseID t) d = Some a"
    using assms(1) by (auto simp: mem_GetAccountByPubKey_def split: if_splits option.splits)
  then have "DiscourseID a = d" using assms(2) by (simp add: mem_ok_def)
  moreover have "Pubkey a = Some k"
    using index_okD [of "map_of (byDiscourseID t)" "map_of (byPubKey t)" k d] d assms(2)
    by (auto simp: mem_ok_def)
  ultimately
  show "k \<noteq> []" "map_of (byPubKey t) k = Some (DiscourseID a)"
    "map_of (byDiscourseID t) (DiscourseID a) = Some a" "Pubkey a = Some k" using d by simp_all
qed

lemma mem_UpsertAccount_ok:
  assumes "mem_ok t" "mem_UpsertAccount t a = Inr t'"
  shows "mem_ok t'" "txs t' = txs t"
    "map_of (byDiscourseID t') = (map_of (byDiscourseID t))(DiscourseID a \<mapsto> a)"
    "Pubkey a = Some k \<Longrightarrow> k \<noteq> [] \<Longrightarrow> map_of (byPubKey t') k = Some (DiscourseID a)"
proof -
  let ?B = "map_of (byDiscourseID t)" and ?d = "DiscourseID a"
  have t': "t' = t\<lparr>byDiscourseID := AList.update ?d a (byDiscourseID t),
      byPubKey := enindex (Pubkey a) ?d (deindex (old_key ?B ?d) (byPubKey t))\<rparr>"
    using assms(2) by (simp add: mem_UpsertAccount_def upsert_index)
  then show maps: "map_of (byDiscourseID t') = ?B(?d \<mapsto> a)" and "txs t' = txs t"
    and "Pubkey a = Some k \<Longrightarrow> k \<noteq> [] \<Longrightarrow> map_of (byPubKey t') k = Some ?d"
    by (simp_all add: update_conv' map_of_enindex)
  have "index_ok (?B(?d \<mapsto> a)) (map_of (byPubKey t'))"
    using assms(1) t' by (intro index_ok_upsert [of ?B "map_of (byPubKey t)"])
      (auto simp: mem_ok_def map_of_enindex map_of_deindex split: if_splits)
  moreover have "distinct (map fst (byDiscourseID t'))"
    using assms(1) t' by (simp add: mem_ok_def distinct_update)
  ultimately show "mem_ok t'" using assms(1) maps by (auto simp: mem_ok_def)
qed

lemma mem_UpdatePubKey_ok:
  assumes "mem_ok t" "mem_GetAccountByPubKey t k = Inr (Some a)" "mem_UpdatePubKey t k k' = Inr t'"
  shows "mem_ok t'" "txs t' = txs t"
    "map_of (byDiscourseID t') = (map_of (byDiscourseID t))(DiscourseID a \<mapsto> a\<lparr>Pubkey := Some k'\<rparr>)"
proof -
  note a = mem_GetAccountByPubKey_Some [OF assms(2,1)]
  let ?B = "map_of (byDiscourseID t)" and ?P = "map_of (byPubKey t)" and ?d = "DiscourseID a"
  have t': "t' = t\<lparr>byDiscourseID := AList.update ?d (a\<lparr>Pubkey := Some k'\<rparr>) (byDiscourseID t),
      byPubKey := AList.update k' ?d (AList.delete k (byPubKey t))\<rparr>"
    using assms(3) a by (simp add: mem_UpdatePubKey_def)
  then show "map_of (byDiscourseID t') = ?B(?d \<mapsto> a\<lparr>Pubkey := Some k'\<rparr>)" "txs t' = txs t"
    by (simp_all add: update_conv')
  have "index_ok (?B(?d \<mapsto> a\<lparr>Pubkey := Some k'\<rparr>)) ((?P(k := None))(k' \<mapsto> ?d))"
    using index_ok_rekey [OF mem_ok_index [OF assms(1)] a(2,1,3), of "a\<lparr>Pubkey := Some k'\<rparr>" k'] by simp
  then have "index_ok (map_of (byDiscourseID t')) (map_of (byPubKey t'))"
    unfolding t' by (simp add: update_conv' delete_conv' del: fun_upd_apply)
  moreover have "distinct (map fst (byDiscourseID t'))"
    using assms(1) t' by (simp add: mem_ok_def distinct_update)
  moreover have "DiscourseID x = e" if "map_of (byDiscourseID t') e = Some x" for e x
    using that mem_ok_id [OF assms(1), of e x] by (auto simp: t' update_conv' split: if_splits)
  ultimately show "mem_ok t'" by (auto simp: mem_ok_def)
qed

lemma mem_UpdateUsernameAndPubKey_ok:
  assumes "mem_ok t" "mem_UpdateUsernameAndPubKey t d k u = Inr t'"
  obtains a where "mem_ok t'" "txs t' = txs t" "map_of (byDiscourseID t) d = Some a"
    "map_of (byDiscourseID t') = (map_of (byDiscourseID t))(d \<mapsto> a\<lparr>Pubkey := Some k, Username := u\<rparr>)"
proof -
  obtain a where a: "map_of (byDiscourseID t) d = Some a"
    using assms(2) by (auto simp: mem_UpdateUsernameAndPubKey_def split: option.splits)
  let ?a = "a\<lparr>Pubkey := Some k, Username := u\<rparr>"
  have d: "DiscourseID ?a = d" using assms(1) a by (auto simp: mem_ok_def)
  have t': "t' = t\<lparr>byDiscourseID := AList.update d ?a (byDiscourseID t),
      byPubKey := AList.update k d (deindex (Pubkey a) (byPubKey t))\<rparr>"
    using assms(2) a by (simp add: mem_UpdateUsernameAndPubKey_def Let_def)
  then have maps: "map_of (byDiscourseID t') = (map_of (byDiscourseID t))(d \<mapsto> ?a)"
    "txs t' = txs t" "distinct (map fst (byDiscourseID t'))"
    using assms(1) by (simp_all add: update_conv' mem_ok_def distinct_update)
  have "index_ok ((map_of (byDiscourseID t))(d \<mapsto> ?a)) (map_of (byPubKey t'))"
    using assms(1) t' a by (intro index_ok_upsert [of _ "map_of (byPubKey t)"])
      (auto simp: mem_ok_def update_conv' map_of_deindex split: if_splits)
  with maps assms(1) a d that [of a] show thesis by (auto simp: mem_ok_def)
qed

lemma mem_TotalBalance_sum:
  "mem_ok t \<Longrightarrow> mem_TotalBalance t = Inr (i64 (sum_map Balance (map_of (byDiscourseID t))))"
  using foldl_i64_sum [of Balance 0 "byDiscourseID t"]
  by (simp add: mem_TotalBalance_def mem_ok_def sum_on_eq_sum_map)

interpretation mem: ledger_store MemOps mem_ok mem_view mem_ok mem_view
proof unfold_locales
  fix t :: memTx and ds m
  assume "GetAccountsByDiscourseIDs MemOps t ds = Inr m"
  then show "map_of m = accts (mem_view t) |` set ds"
    using foldl_lookup [of "map_of (byDiscourseID t)" "[]" ds]
    by (auto simp: mem_GetAccountsByDiscourseIDs_def)
next
  fix t t' :: memTx and a
  assume "mem_ok t" "UpsertAccount MemOps t a = Inr t'"
  note u = mem_UpsertAccount_ok [OF this [unfolded MemOps_simps]]
  show "mem_ok t' \<and> log (mem_view t') = log (mem_view t) \<and>
      (\<exists>a'. stored_as (accts (mem_view t) (DiscourseID a)) a a' \<and>
            accts (mem_view t') = (accts (mem_view t))(DiscourseID a \<mapsto> a') \<and>
            (\<forall>k. Pubkey a = Some k \<longrightarrow> k \<noteq> [] \<longrightarrow> GetAccountByPubKey MemOps t' k = Inr (Some a')))"
    using u(1,2,3) u(4) by (auto simp: stored_as_def mem_GetAccountByPubKey_def intro!: exI [of _ a])
next
  fix t t' :: memTx and k k' a
  assume "mem_ok t" "GetAccountByPubKey MemOps t k = Inr (Some a)" "UpdatePubKey MemOps t k k' = Inr t'"
  from mem_UpdatePubKey_ok [OF this [unfolded MemOps_simps]]
  show "mem_ok t' \<and> log (mem_view t') = log (mem_view t) \<and>
      accts (mem_view t') = (accts (mem_view t))(DiscourseID a \<mapsto> a\<lparr>Pubkey := Some k'\<rparr>)"
    by simp
next
  fix t t' :: memTx and d k u
  assume "mem_ok t" "UpdateUsernameAndPubKey MemOps t d k u = Inr t'"
  then show "mem_ok t' \<and> log (mem_view t') = log (mem_view t) \<and>
      (\<exists>a. accts (mem_view t) d = Some a \<and>
           accts (mem_view t') = (accts (mem_view t))(d \<mapsto> a\<lparr>Pubkey := Some k, Username := u\<rparr>))"
    by (auto elim: mem_UpdateUsernameAndPubKey_ok)
qed (auto simp: mem_GetAccountByPubKey_Some mem_TotalBalance_sum wf_accts_def mem_ok_def
    finite_dom_map_of mem_Begin_def mem_Commit_def mem_view_def mem_LockLedger_def
    mem_GetAccountByDiscourseID_def mem_LastTx_def lastTx_def last_conv_nth mem_InsertTx_def
    mem_GenesisExists_def list_ex_iff split: if_splits)

end
