(* ===== verification/PgStore.thy ===== *)
theory PgStore
  imports StoreContract
begin

text \<open>
  \<open>internal/store/pgstore.go\<close> with the schema of \<open>internal/store/migrations\<close>: the
  PostgreSQL store. The tables are lists of rows; each operation is the SQL statement of the Go
  method, with the constraints that the migrations declare (primary keys, unique indexes, checks
  and the foreign key), a violated constraint being an error. A transaction state is the
  database as the transaction sees it. Failures of the connection are not modelled, nor are the
  columns that no modelled query reads (\<open>created_at\<close>, \<open>activated_at\<close>).
\<close>

section \<open>Tables\<close>

record TxRow = Tx +
  tr_amount :: "int option"
  tr_to_discourse_id :: "int option"
  tr_reward_source :: "bytes option"

record RewardRow =
  rr_tx_hash :: "bytes option"
  rr_paid_at :: int

record pgdb =
  accounts :: "(int \<times> Account) list"
  transactions :: "TxRow list"
  reward_events :: "((bytes \<times> bytes) \<times> RewardRow) list"
  reward_config :: "(bytes \<times> int \<times> bool) list"

text \<open>A \<open>TEXT\<close> value must be valid UTF-8 without a zero byte.\<close>

definition text_ok :: "bytes \<Rightarrow> bool" where
  "text_ok s \<longleftrightarrow> valid_utf8 s \<and> byte 0 \<notin> set s"

definition pg_error :: "string \<Rightarrow> err" where
  "pg_error s = Errorf s"

text \<open>The unique index on \<open>pubkey\<close>: may the row of account \<open>did\<close> hold \<open>k\<close>?\<close>

definition key_free :: "(int \<times> Account) list \<Rightarrow> int \<Rightarrow> bytes option \<Rightarrow> bool" where
  "key_free rows did k \<longleftrightarrow>
     k = None \<or> list_all (\<lambda>(d, a). d = did \<or> Pubkey a \<noteq> k) rows"

section \<open>Ledger operations\<close>

definition pg_Begin :: "pgdb \<Rightarrow> err + pgdb" where
  "pg_Begin db = Inr db"

definition pg_Commit :: "pgdb \<Rightarrow> pgdb \<Rightarrow> err + pgdb" where
  "pg_Commit db t = Inr (db\<lparr>accounts := accounts t, transactions := transactions t\<rparr>)"

definition pg_LockLedger :: "pgdb \<Rightarrow> err + pgdb" where
  "pg_LockLedger t = Inr t"

definition pg_GetAccountByPubKey :: "pgdb \<Rightarrow> bytes \<Rightarrow> err + Account option" where
  "pg_GetAccountByPubKey t pubkey =
     (if pubkey = [] then Inr None
      else Inr (map_option snd (find (\<lambda>(d, a). Pubkey a = Some pubkey) (accounts t))))"

definition pg_GetAccountByDiscourseID :: "pgdb \<Rightarrow> int \<Rightarrow> err + Account option" where
  "pg_GetAccountByDiscourseID t did = Inr (map_of (accounts t) did)"

definition pg_GetAccountsByDiscourseIDs :: "pgdb \<Rightarrow> int list \<Rightarrow> err + (int \<times> Account) list" where
  "pg_GetAccountsByDiscourseIDs t dids =
     (if dids = [] then Inr []
      else Inr (filter (\<lambda>(d, a). d \<in> set dids) (accounts t)))"

text \<open>The row that \<open>ON CONFLICT (discourse_id) DO UPDATE\<close> makes of the old row and the new values.\<close>

definition upsert_row :: "Account option \<Rightarrow> Account \<Rightarrow> Account" where
  "upsert_row old a =
     (case old of
        None \<Rightarrow> a
      | Some o' \<Rightarrow>
          \<lparr>DiscourseID = DiscourseID a,
           Pubkey = (case Pubkey a of Some k \<Rightarrow> Some k | None \<Rightarrow> Pubkey o'),
           Username = (if Username a = ''(pending)'' \<and> Username o' \<noteq> ''(pending)''
                       then Username o' else Username a),
           Nonce = Nonce a, Balance = Balance a\<rparr>)"

definition pg_UpsertAccount :: "pgdb \<Rightarrow> Account \<Rightarrow> err + pgdb" where
  "pg_UpsertAccount t a =
     (let pubArg = (case Pubkey a of Some k \<Rightarrow> if k = [] then None else Some k | None \<Rightarrow> None);
          new = upsert_row (map_of (accounts t) (DiscourseID a)) (a\<lparr>Pubkey := pubArg\<rparr>)
      in if \<not> text_ok (Username a) then Inl (pg_error ''invalid byte sequence'')
         else if Balance a < 0 then Inl (pg_error ''check constraint'')
         else if \<not> key_free (accounts t) (DiscourseID a) (Pubkey new) then Inl (pg_error ''unique constraint'')
         else Inr (t\<lparr>accounts := AList.update (DiscourseID a) new (accounts t)\<rparr>))"

definition pg_UpdatePubKey :: "pgdb \<Rightarrow> bytes \<Rightarrow> bytes \<Rightarrow> err + pgdb" where
  "pg_UpdatePubKey t oldPub newPub =
     (case find (\<lambda>(d, a). Pubkey a = Some oldPub) (accounts t) of
        None \<Rightarrow> Inl (Sentinel ErrUnknownAccount)
      | Some (d, a) \<Rightarrow>
          (if \<not> key_free (accounts t) d (Some newPub) then Inl (pg_error ''unique constraint'')
           else Inr (t\<lparr>accounts := AList.update d (a\<lparr>Pubkey := Some newPub\<rparr>) (accounts t)\<rparr>)))"

definition pg_UpdateUsernameAndPubKey :: "pgdb \<Rightarrow> int \<Rightarrow> bytes \<Rightarrow> bytes \<Rightarrow> err + pgdb" where
  "pg_UpdateUsernameAndPubKey t did pubkey username =
     (if \<not> text_ok username then Inl (pg_error ''invalid byte sequence'')
      else case map_of (accounts t) did of
        None \<Rightarrow> Inl (Sentinel ErrUnknownAccount)
      | Some a \<Rightarrow>
          (if \<not> key_free (accounts t) did (Some pubkey) then Inl (pg_error ''unique constraint'')
           else Inr (t\<lparr>accounts :=
                  AList.update did (a\<lparr>Pubkey := Some pubkey, Username := username\<rparr>) (accounts t)\<rparr>)))"

definition max_leaf :: "TxRow list \<Rightarrow> TxRow option" where
  "max_leaf rows =
     (case rows of
        [] \<Rightarrow> None
      | r # rs \<Rightarrow> Some (foldl (\<lambda>m x. if LeafIndex m < LeafIndex x then x else m) r rs))"

definition pg_LastTx :: "pgdb \<Rightarrow> err + Tx option" where
  "pg_LastTx t = Inr (map_option Tx.truncate (max_leaf (transactions t)))"

definition tx_type_check :: "bytes \<Rightarrow> bool" where
  "tx_type_check t \<longleftrightarrow>
     t \<in> set [TxGenesis, TxTransfer, TxRotateKey, TxReclaimInvalid, TxRotateAdmin, TxRewardConfig]"

definition pg_row :: "Tx \<Rightarrow> DerivedTxFields \<Rightarrow> TxRow" where
  "pg_row tx f =
     Tx.extend tx (TxRow.fields (df_Amount f) (df_ToDiscourseID f)
       (if df_RewardSource f = [] then None else Some (df_RewardSource f)))"

definition pg_InsertTx :: "pgdb \<Rightarrow> Tx \<Rightarrow> err + pgdb" where
  "pg_InsertTx t tx =
     and_then (DeriveTxFields (Type tx) (Payload tx)) (\<lambda>f.
       if \<not> text_ok (df_RewardSource f) \<or> \<not> text_ok (Type tx)
         then Inl (pg_error ''invalid byte sequence'')
       else if \<not> tx_type_check (Type tx) then Inl (pg_error ''check constraint'')
       else if list_ex (\<lambda>r. LeafIndex r = LeafIndex tx \<or> TxHash r = TxHash tx \<or>
                 (Type r = TxGenesis \<and> Type tx = TxGenesis)) (transactions t)
         then Inl (pg_error ''unique constraint'')
       else Inr (t\<lparr>transactions := transactions t @ [pg_row tx f]\<rparr>))"

definition pg_GenesisExists :: "pgdb \<Rightarrow> err + bool" where
  "pg_GenesisExists t = Inr (list_ex (\<lambda>r. Type r = TxGenesis) (transactions t))"

text \<open>The sum is exact in SQL; it is an error to read a number into an \<open>int64\<close> that it does not fit.\<close>

definition pg_TotalBalance :: "pgdb \<Rightarrow> err + int" where
  "pg_TotalBalance t =
     (let total = sum_on Balance (accounts t)
      in if in_i64 total then Inr total else Inl (pg_error ''out of range''))"

definition PgOps :: "(pgdb, pgdb) store_ops" where
  "PgOps =
     \<lparr>Begin = pg_Begin, Commit = pg_Commit, LockLedger = pg_LockLedger,
      GetAccountByPubKey = pg_GetAccountByPubKey,
      GetAccountByDiscourseID = pg_GetAccountByDiscourseID,
      GetAccountsByDiscourseIDs = pg_GetAccountsByDiscourseIDs,
      UpsertAccount = pg_UpsertAccount, UpdatePubKey = pg_UpdatePubKey,
      UpdateUsernameAndPubKey = pg_UpdateUsernameAndPubKey, LastTx = pg_LastTx,
      InsertTx = pg_InsertTx, GenesisExists = pg_GenesisExists, TotalBalance = pg_TotalBalance\<rparr>"

lemma PgOps_simps [simp]:
  "Begin PgOps = pg_Begin" "Commit PgOps = pg_Commit" "LockLedger PgOps = pg_LockLedger"
  "GetAccountByPubKey PgOps = pg_GetAccountByPubKey"
  "GetAccountByDiscourseID PgOps = pg_GetAccountByDiscourseID"
  "GetAccountsByDiscourseIDs PgOps = pg_GetAccountsByDiscourseIDs"
  "UpsertAccount PgOps = pg_UpsertAccount" "UpdatePubKey PgOps = pg_UpdatePubKey"
  "UpdateUsernameAndPubKey PgOps = pg_UpdateUsernameAndPubKey" "LastTx PgOps = pg_LastTx"
  "InsertTx PgOps = pg_InsertTx" "GenesisExists PgOps = pg_GenesisExists"
  "TotalBalance PgOps = pg_TotalBalance"
  by (simp_all add: PgOps_def)

section \<open>Reward events and configuration\<close>

definition RewardEventExists :: "pgdb \<Rightarrow> bytes \<Rightarrow> bytes \<Rightarrow> bool" where
  "RewardEventExists db ty key \<longleftrightarrow> map_of (reward_events db) (ty, key) \<noteq> None"

text \<open>\<open>now\<close> is the time of the statement, in seconds; a reservation is stale after 15 minutes.\<close>

definition stale_after :: int where "stale_after = 15 * 60"

definition purge_stale :: "int \<Rightarrow> pgdb \<Rightarrow> bytes \<Rightarrow> bytes \<Rightarrow> pgdb" where
  "purge_stale now db ty key =
     (case map_of (reward_events db) (ty, key) of
        Some r \<Rightarrow>
          if rr_tx_hash r = None \<and> rr_paid_at r < now - stale_after
          then db\<lparr>reward_events := AList.delete (ty, key) (reward_events db)\<rparr> else db
      | None \<Rightarrow> db)"

definition TryReserveRewardEvent :: "int \<Rightarrow> pgdb \<Rightarrow> bytes \<Rightarrow> bytes \<Rightarrow> bool \<times> pgdb" where
  "TryReserveRewardEvent now db ty key =
     (let db = purge_stale now db ty key
      in case map_of (reward_events db) (ty, key) of
           Some _ \<Rightarrow> (False, db)
         | None \<Rightarrow>
             (True, db\<lparr>reward_events :=
                AList.update (ty, key) \<lparr>rr_tx_hash = None, rr_paid_at = now\<rparr> (reward_events db)\<rparr>))"

definition CompleteRewardEvent :: "int \<Rightarrow> pgdb \<Rightarrow> bytes \<Rightarrow> bytes \<Rightarrow> bytes \<Rightarrow> err + pgdb" where
  "CompleteRewardEvent now db ty key txHash =
     (let put = (\<lambda>r. db\<lparr>reward_events := AList.update (ty, key) r (reward_events db)\<rparr>)
      in if \<not> list_ex (\<lambda>r. TxHash r = txHash) (transactions db) then Inl (pg_error ''foreign key constraint'')
         else case map_of (reward_events db) (ty, key) of
           None \<Rightarrow> Inr (put \<lparr>rr_tx_hash = Some txHash, rr_paid_at = now\<rparr>)
         | Some r \<Rightarrow>
             (case rr_tx_hash r of
                None \<Rightarrow> Inr (put \<lparr>rr_tx_hash = Some txHash, rr_paid_at = now\<rparr>)
              | Some h \<Rightarrow>
                  if h = txHash then Inr (put r)
                  else Inl (Errorf ''reward event already completed with a different tx_hash'')))"

definition RecordRewardEvent :: "int \<Rightarrow> pgdb \<Rightarrow> bytes \<Rightarrow> bytes \<Rightarrow> bytes \<Rightarrow> err + pgdb" where
  "RecordRewardEvent now db ty key txHash = CompleteRewardEvent now db ty key txHash"

definition ReleaseRewardEvent :: "pgdb \<Rightarrow> bytes \<Rightarrow> bytes \<Rightarrow> pgdb" where
  "ReleaseRewardEvent db ty key =
     (case map_of (reward_events db) (ty, key) of
        Some r \<Rightarrow>
          if rr_tx_hash r = None then db\<lparr>reward_events := AList.delete (ty, key) (reward_events db)\<rparr> else db
      | None \<Rightarrow> db)"

definition GetRewardAmount :: "pgdb \<Rightarrow> bytes \<Rightarrow> int \<times> bool" where
  "GetRewardAmount db ty =
     (case map_of (reward_config db) ty of None \<Rightarrow> (0, False) | Some (amt, enabled) \<Rightarrow> (amt, enabled))"

section \<open>Invariant\<close>

definition keys_unique :: "(int \<rightharpoonup> Account) \<Rightarrow> bool" where
  "keys_unique B \<longleftrightarrow>
     (\<forall>d e a b k. B d = Some a \<longrightarrow> B e = Some b \<longrightarrow> Pubkey a = Some k \<longrightarrow> Pubkey b = Some k \<longrightarrow> d = e)"

definition pg_ok :: "pgdb \<Rightarrow> bool" where
  "pg_ok db \<longleftrightarrow>
     distinct (map fst (accounts db)) \<and>
     (\<forall>d a. map_of (accounts db) d = Some a \<longrightarrow> DiscourseID a = d) \<and>
     keys_unique (map_of (accounts db)) \<and> sorted_wrt (<) (map LeafIndex (transactions db))"

definition pg_view :: "pgdb \<Rightarrow> ledger" where
  "pg_view db = \<lparr>accts = map_of (accounts db), log = map Tx.truncate (transactions db)\<rparr>"

lemma pg_view_simps [simp]:
  "accts (pg_view db) = map_of (accounts db)" "log (pg_view db) = map Tx.truncate (transactions db)"
  by (simp_all add: pg_view_def)

lemma pg_okD:
  assumes "pg_ok db"
  shows "distinct (map fst (accounts db))" "keys_unique (map_of (accounts db))"
    "sorted_wrt (<) (map LeafIndex (transactions db))"
    "\<And>d a. map_of (accounts db) d = Some a \<Longrightarrow> DiscourseID a = d"
  using assms by (auto simp: pg_ok_def)

lemma key_free_iff:
  "distinct (map fst rows) \<Longrightarrow>
   key_free rows d k \<longleftrightarrow> (\<forall>e a. map_of rows e = Some a \<longrightarrow> e \<noteq> d \<longrightarrow> k = None \<or> Pubkey a \<noteq> k)"
  by (auto simp: key_free_def list_all_iff dest: map_of_SomeD)

lemma keys_unique_update:
  assumes "keys_unique B" "\<forall>e a. B e = Some a \<longrightarrow> e \<noteq> d \<longrightarrow> Pubkey x = None \<or> Pubkey a \<noteq> Pubkey x"
  shows "keys_unique (B(d \<mapsto> x))"
  using assms unfolding keys_unique_def by (auto split: if_splits)

lemma find_key:
  assumes "pg_ok db"
  shows "find (\<lambda>(d, a). Pubkey a = Some k) (accounts db) = Some (d, a) \<longleftrightarrow>
    map_of (accounts db) d = Some a \<and> Pubkey a = Some k"
proof
  assume "find (\<lambda>(d, a). Pubkey a = Some k) (accounts db) = Some (d, a)"
  then have "(d, a) \<in> set (accounts db) \<and> Pubkey a = Some k"
    by (auto simp: find_Some_iff in_set_conv_nth)
  with pg_okD(1) [OF assms] show "map_of (accounts db) d = Some a \<and> Pubkey a = Some k" by simp
next
  assume a: "map_of (accounts db) d = Some a \<and> Pubkey a = Some k"
  then have mem: "(d, a) \<in> set (accounts db)" by (auto dest: map_of_SomeD)
  then have "find (\<lambda>(d, a). Pubkey a = Some k) (accounts db) \<noteq> None"
    using a by (auto simp: find_None_iff)
  then obtain e b where f: "find (\<lambda>(d, a). Pubkey a = Some k) (accounts db) = Some (e, b)" by auto
  then have "(e, b) \<in> set (accounts db) \<and> Pubkey b = Some k"
    by (auto simp: find_Some_iff in_set_conv_nth)
  with pg_okD(1) [OF assms] have eb: "map_of (accounts db) e = Some b" "Pubkey b = Some k" by auto
  with pg_okD(2) [OF assms] a have "d = e" unfolding keys_unique_def by blast
  with eb a f show "find (\<lambda>(d, a). Pubkey a = Some k) (accounts db) = Some (d, a)" by simp
qed

section \<open>The contract\<close>

lemma pg_GetAccountByPubKey_iff:
  assumes "pg_ok t"
  shows "pg_GetAccountByPubKey t k = Inr (Some a) \<longleftrightarrow>
    k \<noteq> [] \<and> map_of (accounts t) (DiscourseID a) = Some a \<and> Pubkey a = Some k"
proof -
  have "map_option snd m = Some a \<longleftrightarrow> (\<exists>d. m = Some (d, a))" for m :: "(int \<times> Account) option"
    by (cases m) auto
  then show ?thesis
    using find_key [OF assms] pg_okD(4) [OF assms] by (auto simp: pg_GetAccountByPubKey_def)
qed

lemma pg_write_ok:
  assumes "pg_ok t" "DiscourseID x = d" "key_free (accounts t) d (Pubkey x)"
  shows "pg_ok (t\<lparr>accounts := AList.update d x (accounts t)\<rparr>)"
proof -
  have "keys_unique ((map_of (accounts t))(d \<mapsto> x))"
    using assms(3) pg_okD(1,2) [OF assms(1)] by (intro keys_unique_update) (auto simp: key_free_iff)
  with assms(1,2) show ?thesis
    by (auto simp: pg_ok_def distinct_update update_conv')
qed

lemma pg_UpsertAccount_ok:
  assumes "pg_ok t" "pg_UpsertAccount t a = Inr t'"
  obtains a' where "pg_ok t'" "transactions t' = transactions t" "Pubkey a \<noteq> None \<longrightarrow> Pubkey a \<noteq> Some [] \<longrightarrow> Pubkey a' = Pubkey a"
    "stored_as (map_of (accounts t) (DiscourseID a)) a a'"
    "map_of (accounts t') = (map_of (accounts t))(DiscourseID a \<mapsto> a')"
proof -
  define new where "new = upsert_row (map_of (accounts t) (DiscourseID a))
    (a\<lparr>Pubkey := case Pubkey a of Some k \<Rightarrow> if k = [] then None else Some k | None \<Rightarrow> None\<rparr>)"
  have t': "t' = t\<lparr>accounts := AList.update (DiscourseID a) new (accounts t)\<rparr>"
    "key_free (accounts t) (DiscourseID a) (Pubkey new)"
    using assms(2) by (auto simp: pg_UpsertAccount_def Let_def new_def split: if_splits)
  have "DiscourseID new = DiscourseID a"
    by (simp add: new_def upsert_row_def split: option.splits)
  with pg_write_ok [OF assms(1) _ t'(2)] t' have "pg_ok t'" by simp
  moreover have "stored_as (map_of (accounts t) (DiscourseID a)) a new"
    by (cases a) (auto simp: stored_as_def new_def upsert_row_def split: option.splits)
  moreover have "Pubkey a \<noteq> None \<longrightarrow> Pubkey a \<noteq> Some [] \<longrightarrow> Pubkey new = Pubkey a"
    by (auto simp: new_def upsert_row_def split: option.splits)
  ultimately show thesis using t'(1) that by (simp add: update_conv')
qed

lemma pg_UpdatePubKey_ok:
  assumes "pg_ok t" "pg_GetAccountByPubKey t k = Inr (Some a)" "pg_UpdatePubKey t k k' = Inr t'"
  shows "pg_ok t'" "transactions t' = transactions t"
    "map_of (accounts t') = (map_of (accounts t))(DiscourseID a \<mapsto> a\<lparr>Pubkey := Some k'\<rparr>)"
proof -
  have "find (\<lambda>(d, a). Pubkey a = Some k) (accounts t) = Some (DiscourseID a, a)"
    using assms(1,2) by (simp add: find_key pg_GetAccountByPubKey_iff)
  with assms(3) have t': "t' = t\<lparr>accounts := AList.update (DiscourseID a) (a\<lparr>Pubkey := Some k'\<rparr>) (accounts t)\<rparr>"
    "key_free (accounts t) (DiscourseID a) (Some k')"
    by (auto simp: pg_UpdatePubKey_def split: if_splits)
  with pg_write_ok [OF assms(1), of "a\<lparr>Pubkey := Some k'\<rparr>"]
  show "pg_ok t'" "transactions t' = transactions t"
    "map_of (accounts t') = (map_of (accounts t))(DiscourseID a \<mapsto> a\<lparr>Pubkey := Some k'\<rparr>)"
    by (simp_all add: update_conv')
qed

lemma pg_UpdateUsernameAndPubKey_ok:
  assumes "pg_ok t" "pg_UpdateUsernameAndPubKey t d k u = Inr t'"
  obtains a where "pg_ok t'" "transactions t' = transactions t" "map_of (accounts t) d = Some a"
    "map_of (accounts t') = (map_of (accounts t))(d \<mapsto> a\<lparr>Pubkey := Some k, Username := u\<rparr>)"
proof -
  obtain a where a: "map_of (accounts t) d = Some a" "key_free (accounts t) d (Some k)"
    "t' = t\<lparr>accounts := AList.update d (a\<lparr>Pubkey := Some k, Username := u\<rparr>) (accounts t)\<rparr>"
    using assms(2) by (auto simp: pg_UpdateUsernameAndPubKey_def split: if_splits option.splits)
  with pg_write_ok [OF assms(1), of "a\<lparr>Pubkey := Some k, Username := u\<rparr>" d] pg_okD(4) [OF assms(1) a(1)] that
  show thesis by (simp add: update_conv')
qed

text \<open>The row with the largest leaf index is the last one of a table in order.\<close>

lemma max_leaf_sorted:
  assumes "sorted_wrt (<) (map LeafIndex rows)"
  shows "max_leaf rows = (if rows = [] then None else Some (last rows))"
proof -
  have "foldl (\<lambda>m x. if LeafIndex m < LeafIndex x then x else m) r rs = last (r # rs)"
    if "sorted_wrt (<) (map LeafIndex (r # rs))" for r and rs :: "TxRow list"
    using that by (induction rs arbitrary: r) auto
  with assms show ?thesis by (cases rows) (simp_all add: max_leaf_def)
qed

lemma truncate_simps [simp]:
  "LeafIndex (Tx.truncate r) = LeafIndex r" "Type (Tx.truncate r) = Type r"
  "TxHash (Tx.truncate r) = TxHash r" "Tx.truncate (Tx.extend tx m) = tx" "LeafIndex (Tx.extend tx m) = LeafIndex tx"
  by (simp_all add: Tx.defs)

lemma pg_row_simps [simp]: "Tx.truncate (pg_row tx f) = tx" "LeafIndex (pg_row tx f) = LeafIndex tx"
  by (simp_all add: pg_row_def)

lemma pg_InsertTx_ok:
  assumes "pg_InsertTx t tx = Inr t'"
  obtains f where "t' = t\<lparr>transactions := transactions t @ [pg_row tx f]\<rparr>"
  using assms by (auto simp: pg_InsertTx_def result_simps)

lemma map_of_filter_fst: "map_of (filter (\<lambda>(d, a). d \<in> A) rows) = map_of rows |` A"
  by (induction rows) (auto simp: restrict_map_def fun_eq_iff)

interpretation pg: ledger_store PgOps pg_ok pg_view pg_ok pg_view
proof unfold_locales
  fix t k a
  assume "pg_ok t" "GetAccountByPubKey PgOps t k = Inr (Some a)"
  then show "accts (pg_view t) (DiscourseID a) = Some a \<and> Pubkey a = Some k"
    by (simp add: pg_GetAccountByPubKey_iff)
next
  fix t t' a
  assume t: "pg_ok t" "UpsertAccount PgOps t a = Inr t'"
  obtain a' where a': "pg_ok t'" "transactions t' = transactions t"
    "Pubkey a \<noteq> None \<longrightarrow> Pubkey a \<noteq> Some [] \<longrightarrow> Pubkey a' = Pubkey a"
    "stored_as (map_of (accounts t) (DiscourseID a)) a a'"
    "map_of (accounts t') = (map_of (accounts t))(DiscourseID a \<mapsto> a')"
    by (rule pg_UpsertAccount_ok [OF t [unfolded PgOps_simps]])
  then have "DiscourseID a' = DiscourseID a" by (simp add: stored_as_def)
  with a' show "pg_ok t' \<and> log (pg_view t') = log (pg_view t) \<and>
      (\<exists>a'. stored_as (accts (pg_view t) (DiscourseID a)) a a' \<and>
            accts (pg_view t') = (accts (pg_view t))(DiscourseID a \<mapsto> a') \<and>
            (\<forall>k. Pubkey a = Some k \<longrightarrow> k \<noteq> [] \<longrightarrow> GetAccountByPubKey PgOps t' k = Inr (Some a')))"
    by (intro conjI exI [of _ a']) (simp_all add: pg_GetAccountByPubKey_iff)
next
  fix t k a k' t'
  assume "pg_ok t" "GetAccountByPubKey PgOps t k = Inr (Some a)" "UpdatePubKey PgOps t k k' = Inr t'"
  from pg_UpdatePubKey_ok [OF this [unfolded PgOps_simps]]
  show "pg_ok t' \<and> log (pg_view t') = log (pg_view t) \<and>
      accts (pg_view t') = (accts (pg_view t))(DiscourseID a \<mapsto> a\<lparr>Pubkey := Some k'\<rparr>)"
    by simp
next
  fix t d k u t'
  assume "pg_ok t" "UpdateUsernameAndPubKey PgOps t d k u = Inr t'"
  then show "pg_ok t' \<and> log (pg_view t') = log (pg_view t) \<and>
      (\<exists>a. accts (pg_view t) d = Some a \<and>
           accts (pg_view t') = (accts (pg_view t))(d \<mapsto> a\<lparr>Pubkey := Some k, Username := u\<rparr>))"
    by (auto elim: pg_UpdateUsernameAndPubKey_ok)
next
  fix t tx t'
  assume t: "pg_ok t" "InsertTx PgOps t tx = Inr t'" "\<forall>x\<in>set (log (pg_view t)). LeafIndex x < LeafIndex tx"
  then obtain f where "t' = t\<lparr>transactions := transactions t @ [pg_row tx f]\<rparr>"
    by (auto elim: pg_InsertTx_ok)
  with t show "pg_ok t' \<and> accts (pg_view t') = accts (pg_view t) \<and> log (pg_view t') = log (pg_view t) @ [tx]"
    by (auto simp: pg_ok_def sorted_wrt_append)
next
  fix t b
  assume "pg_ok t" "GenesisExists PgOps t = Inr b"
  then show "b \<longleftrightarrow> (\<exists>x\<in>set (log (pg_view t)). Type x = TxGenesis)"
    by (auto simp: pg_GenesisExists_def list_ex_iff)
next
  fix t n
  assume "pg_ok t" "TotalBalance PgOps t = Inr n"
  then show "n = i64 (sum_map Balance (accts (pg_view t)))"
    by (auto simp: pg_TotalBalance_def Let_def sum_on_eq_sum_map pg_okD split: if_splits)
next
  fix t l
  assume "pg_ok t" "LastTx PgOps t = Inr l"
  then show "l = lastTx (pg_view t)"
    by (auto simp: pg_LastTx_def max_leaf_sorted pg_okD lastTx_def last_map)
next
  fix t ds m
  assume "GetAccountsByDiscourseIDs PgOps t ds = Inr m"
  then show "map_of m = accts (pg_view t) |` set ds"
    by (auto simp: pg_GetAccountsByDiscourseIDs_def map_of_filter_fst split: if_splits)
qed (auto simp: wf_accts_def finite_dom_map_of pg_Begin_def pg_Commit_def pg_ok_def pg_view_def
    pg_LockLedger_def pg_GetAccountByDiscourseID_def)

end
