(* ===== verification/ShaEval.thy ===== *)
theory ShaEval
  imports Sha256
begin

text \<open>
  Evaluation of SHA-256 by rewriting: one rule per round, with every word brought below
  $2^{32}$ at once. It serves the witnesses that need to know that two concrete hashes differ.
\<close>

unbundle bit_operations_syntax

definition n32 :: "u32 \<Rightarrow> u32" where "n32 x = x"

named_theorems sha_eval \<open>evaluation of the compression function\<close>

lemma n32_numeral [sha_eval]: "n32 (numeral k) = word_of_int (numeral k mod 4294967296)"
proof -
  have "(word_of_int (x mod 2 ^ LENGTH(32)) :: u32) = word_of_int x" for x
    by (rule word_uint_eqI) (simp only: uint_word_of_int mod_mod_trivial)
  then have "(word_of_int (x mod 4294967296) :: u32) = word_of_int x" for x by simp
  from this [of "numeral k"] show ?thesis by (simp only: n32_def word_of_int_numeral)
qed

lemma n32_01 [sha_eval]: "n32 0 = 0" "n32 1 = 1" by (simp_all add: n32_def)

definition mix :: "u32 \<Rightarrow> u32 \<Rightarrow> u32 \<Rightarrow> u32 \<Rightarrow> u32 \<Rightarrow> u32 \<Rightarrow> u32 \<Rightarrow> u32 \<Rightarrow> u32 \<Rightarrow> u32 list" where
  "mix t1 t2 a b c d e f g = [t1 + t2, a, b, c, d + t1, e, f, g]"

lemma mix_numeral [sha_eval]:
  "mix (numeral x) (numeral y) a b c d e f g =
   [n32 (numeral x + numeral y), a, b, c, n32 (d + numeral x), e, f, g]"
  by (simp add: mix_def n32_def)

lemma sha_step [sha_eval]:
  "sha_rounds (k # ks) [w0, w1, w2, w3, w4, w5, w6, w7, w8, w9, w10, w11, w12, w13, w14, w15]
     [a, b, c, d, e, f, g, h] =
   sha_rounds ks [w1, w2, w3, w4, w5, w6, w7, w8, w9, w10, w11, w12, w13, w14, w15,
       n32 (n32 (sha_s1 w14) + w9 + n32 (sha_s0 w1) + w0)]
     (mix (n32 (h + n32 (sha_S1 e) + ((e AND f) XOR (NOT e AND g)) + k + w0))
       (n32 (n32 (sha_S0 a) + ((a AND b) XOR (a AND c) XOR (b AND c)))) a b c d e f g)"
  by (simp add: n32_def mix_def Let_def sha_rounds.simps sha_next.simps sha_round.simps)

lemmas sha_sigmas [sha_eval] = sha_S0_def sha_S1_def sha_s0_def sha_s1_def rotr_def

lemma sha_block_eval:
  "sha_block s blk = map2 (\<lambda>x y. n32 (x + y)) s (sha_rounds sha_k (map be32 (chunks 16 4 blk)) s)"
  by (simp add: sha_block_def n32_def)

text \<open>The hash of a message whose padded blocks are known as words.\<close>

lemma sha_fold_words:
  "map (\<lambda>b. map be32 (chunks 16 4 b)) bs = ws \<Longrightarrow>
   foldl sha_block s bs = foldl (\<lambda>s w. map2 (\<lambda>x y. n32 (x + y)) s (sha_rounds sha_k w s)) s ws"
  by (induction bs arbitrary: s ws) (auto simp: sha_block_eval)

lemma sha256_words:
  "length (sha_pad m) div 64 = n \<Longrightarrow> map (\<lambda>b. map be32 (chunks 16 4 b)) (chunks n 64 (sha_pad m)) = ws \<Longrightarrow>
   sha256 m = concat (map (\<lambda>w. be_bytes 4 (uint w))
     (foldl (\<lambda>s w. map2 (\<lambda>x y. n32 (x + y)) s (sha_rounds sha_k w s)) sha_init ws))"
  by (simp add: sha256_def Let_def sha_fold_words)

text \<open>The known answer of FIPS 180-4 for the message \<open>abc\<close>.\<close>

lemma abc_block:
  "map2 (\<lambda>x y. n32 (x + y)) sha_init (sha_rounds sha_k [1633837952, 0, 0, 0, 0, 0, 0, 0, 0, 0, 0, 0, 0, 0, 0, 24] sha_init) =
   [3128432319, 2399260650, 1094795486, 1571693091, 2953011619, 2518121116, 3021012833, 4060091821]"
  by (simp add: sha_k_def sha_init_def sha_eval)

lemma abc_words: "map be32 (chunks 16 4 (sha_pad ''abc'')) = [1633837952, 0, 0, 0, 0, 0, 0, 0, 0, 0, 0, 0, 0, 0, 0, 24]"
  by code_simp

lemma sha256_abc:
  "sha256 ''abc'' = map byte [186, 120, 22, 191, 143, 1, 207, 234, 65, 65, 64, 222, 93, 174, 34, 35, 176, 3, 97, 163, 150, 23, 122, 156, 180, 16, 255, 97, 242, 0, 21, 173]"
proof -
  have "length (sha_pad ''abc'') = 64" "chunks 1 64 (sha_pad ''abc'') = [sha_pad ''abc'']" by code_simp+
  then have "sha256 ''abc'' = concat (map (\<lambda>w. be_bytes 4 (uint w)) (sha_block sha_init (sha_pad ''abc'')))"
    by (simp add: sha256_def Let_def)
  also have "\<dots> = concat (map (\<lambda>w. be_bytes 4 (uint w)) ([3128432319, 2399260650, 1094795486, 1571693091, 2953011619, 2518121116, 3021012833, 4060091821] :: u32 list))"
    by (simp only: sha_block_eval abc_words abc_block)
  also have "\<dots> = map byte [186, 120, 22, 191, 143, 1, 207, 234, 65, 65, 64, 222, 93, 174, 34, 35, 176, 3, 97, 163, 150, 23, 122, 156, 180, 16, 255, 97, 242, 0, 21, 173]" by code_simp
  finally show ?thesis .
qed

end
