(* ===== verification/Samples.thy ===== *)
theory Samples
  imports ShaEval LedgerApply
begin

text \<open>
  Concrete inputs for the witnesses: a key of 32 zero bytes, a toy signature scheme (the
  signature of any message is the key, twice), signed payloads as the bytes of their JSON, and
  the hash of one transaction.
\<close>

definition zero_key :: bytes where "zero_key = replicate 32 (byte 0)"

definition toy_ed :: "bytes \<Rightarrow> bytes \<Rightarrow> bytes \<Rightarrow> bool" where
  "toy_ed key msg sig \<longleftrightarrow> sig = key @ key"

definition zero_sig :: bytes where "zero_sig = replicate 64 (byte 0)"

definition quoted :: "bytes \<Rightarrow> bytes" where "quoted s = quote # s @ [quote]"

definition zero_key_base64 :: bytes where "zero_key_base64 = replicate 43 CHR ''A'' @ ''=''"

definition genesis_json :: bytes where
  "genesis_json = ''{'' @ quoted ''to'' @ '':'' @ quoted zero_key_base64 @ '','' @
     quoted ''amount'' @ '':50000000}''"

definition transfer_json :: bytes where
  "transfer_json = ''{'' @ quoted ''from'' @ '':'' @ quoted zero_key_base64 @ '','' @
     quoted ''to_discourse_id'' @ '':7,'' @ quoted ''amount'' @ '':5,'' @ quoted ''nonce'' @ '':1}''"

lemma genesis_json_payload:
  "genesis_payload genesis_json =
     Some \<lparr>gp_To = zero_key, gp_TreasuryUser = [], gp_Amount = 50000000, gp_Memo = []\<rparr>"
  by code_simp

lemma transfer_json_payload:
  "transfer_payload transfer_json =
     Some \<lparr>tp_From = zero_key, tp_ToDiscourseID = 7, tp_Amount = 5, tp_Nonce = 1, tp_Meta = []\<rparr>"
  by code_simp

definition genesis_tx :: Tx where
  "genesis_tx = \<lparr>LeafIndex = 0, Type = TxGenesis, Payload = genesis_json, Sig = zero_sig,
     Signer = zero_key, PrevHash = [], TxHash = []\<rparr>"

definition transfer_tx :: Tx where
  "transfer_tx = \<lparr>LeafIndex = 0, Type = TxTransfer, Payload = transfer_json, Sig = zero_sig,
     Signer = zero_key, PrevHash = [], TxHash = []\<rparr>"

lemma zero_key_simps [simp]:
  "length zero_key = 32" "length zero_sig = 64" "toy_ed zero_key m zero_sig" "zero_key \<noteq> []"
  by (auto simp: zero_key_def zero_sig_def toy_ed_def replicate_add [symmetric])

text \<open>The hash of the transfer after a transaction whose hash is \<^const>\<open>ZeroHash\<close>.\<close>

lemma transfer_block_0:
  "map2 (\<lambda>x y. n32 (x + y)) [1779033703, 3144134277, 1013904242, 2773480762, 1359893119, 2600822924, 528734635, 1541459225]
     (sha_rounds sha_k [2065852018, 1869423162, 574701889, 1094795585, 1094795585, 1094795585, 1094795585, 1094795585, 1094795585, 1094795585, 1094795585, 1094795585, 1094795585, 1025649698, 1953455972, 1769169775]
       [1779033703, 3144134277, 1013904242, 2773480762, 1359893119, 2600822924, 528734635, 1541459225]) =
   [817957434, 955054524, 1872468679, 39326405, 2885768626, 2958908423, 4012201641, 2498806377]"
  by (simp add: sha_k_def sha_eval)

lemma transfer_block_1:
  "map2 (\<lambda>x y. n32 (x + y)) [817957434, 955054524, 1872468679, 39326405, 2885768626, 2958908423, 4012201641, 2498806377]
     (sha_rounds sha_k [1970434917, 1600742434, 976694306, 1634561909, 1853104698, 892084846, 1869505381, 574239101, 0, 0, 0, 0, 0, 0, 0, 0]
       [817957434, 955054524, 1872468679, 39326405, 2885768626, 2958908423, 4012201641, 2498806377]) =
   [1424148452, 456251357, 487363513, 1042890985, 3657520864, 4019710110, 3224897149, 2730939528]"
  by (simp add: sha_k_def sha_eval)

lemma transfer_block_2:
  "map2 (\<lambda>x y. n32 (x + y)) [1424148452, 456251357, 487363513, 1042890985, 3657520864, 4019710110, 3224897149, 2730939528]
     (sha_rounds sha_k [0, 0, 0, 0, 0, 0, 0, 0, 0, 0, 0, 0, 0, 0, 0, 0]
       [1424148452, 456251357, 487363513, 1042890985, 3657520864, 4019710110, 3224897149, 2730939528]) =
   [3316023204, 2139168432, 2454023222, 3028480971, 429162734, 869907414, 3381763096, 4179333795]"
  by (simp add: sha_k_def sha_eval)

lemma transfer_block_3:
  "map2 (\<lambda>x y. n32 (x + y)) [3316023204, 2139168432, 2454023222, 3028480971, 429162734, 869907414, 3381763096, 4179333795]
     (sha_rounds sha_k [2147483648, 0, 0, 0, 0, 0, 0, 0, 0, 0, 0, 0, 0, 0, 0, 1536]
       [3316023204, 2139168432, 2454023222, 3028480971, 429162734, 869907414, 3381763096, 4179333795]) =
   [2141682040, 270497090, 2682905414, 2143565755, 4290389193, 1565960052, 3066280501, 2523054592]"
  by (simp add: sha_k_def sha_eval)

lemma transfer_words:
  "map (\<lambda>b. map be32 (chunks 16 4 b)) (chunks 4 64 (sha_pad (transfer_json @ zero_sig @ ZeroHash))) =
   [[2065852018, 1869423162, 574701889, 1094795585, 1094795585, 1094795585, 1094795585, 1094795585, 1094795585, 1094795585, 1094795585, 1094795585, 1094795585, 1025649698, 1953455972, 1769169775],
    [1970434917, 1600742434, 976694306, 1634561909, 1853104698, 892084846, 1869505381, 574239101, 0, 0, 0, 0, 0, 0, 0, 0],
    [0, 0, 0, 0, 0, 0, 0, 0, 0, 0, 0, 0, 0, 0, 0, 0],
    [2147483648, 0, 0, 0, 0, 0, 0, 0, 0, 0, 0, 0, 0, 0, 0, 1536]]"
  by code_simp

lemma transfer_hash: "tx_hash transfer_json zero_sig ZeroHash = map byte [127, 167, 121, 120, 16, 31, 117, 66, 159, 233, 227, 70, 127, 196, 55, 187, 255, 186, 36, 201, 93, 86, 167, 116, 182, 195, 186, 53, 150, 98, 194, 0]"
proof -
  have n: "length (sha_pad (transfer_json @ zero_sig @ ZeroHash)) div 64 = 4" by code_simp
  show ?thesis
    unfolding tx_hash_def sha256_words [OF n transfer_words]
    by (simp only: foldl.simps sha_init_def transfer_block_0 [unfolded sha_init_def]
        transfer_block_1 transfer_block_2 transfer_block_3) code_simp
qed

lemma transfer_hash_fresh: "tx_hash transfer_json zero_sig ZeroHash \<noteq> ZeroHash"
  unfolding transfer_hash by code_simp

end
