(* ===== verification/LedgerProperties.thy ===== *)
theory LedgerProperties
  imports MemStore PgStore Samples
begin

text \<open>
  The properties of \<open>Apply\<close> over the two stores, from the facts of the interpretations
  \<open>mem\<close> and \<open>pg\<close> of the store contract.
\<close>

section \<open>The database after the migrations, and a sample in use\<close>

definition pg_empty :: pgdb where
  "pg_empty = \<lparr>accounts = [], transactions = [], reward_events = [],
     reward_config = [(''signup_bonus'', 100, True), (''first_post_ever'', 50, True), (''quality_post'', 500, True)]\<rparr>"

lemma pg_empty_ok [simp]: "pg_ok pg_empty" "pg_view pg_empty = empty_ledger"
  by (simp_all add: pg_ok_def pg_empty_def keys_unique_def pg_view_def empty_ledger_def)

lemma pg_empty_accounts: "accounts pg_empty = []"
  by (simp add: pg_empty_def)

lemma empty_ledger_log [simp]: "log empty_ledger = []"
  by (simp add: empty_ledger_def)

definition sample_account :: "int \<Rightarrow> Account" where
  "sample_account b = \<lparr>DiscourseID = 0, Pubkey = Some zero_key, Username = ''TREASURY'', Nonce = 0, Balance = b\<rparr>"

definition sample_db :: pgdb where
  "sample_db = pg_empty\<lparr>accounts := [(0, sample_account SupplyCap)],
     transactions := [pg_row (genesis_tx\<lparr>PrevHash := ZeroHash, TxHash := ZeroHash\<rparr>)
       \<lparr>df_Amount = None, df_ToDiscourseID = None, df_RewardSource = []\<rparr>]\<rparr>"

definition sample_db' :: "Tx \<Rightarrow> pgdb" where
  "sample_db' tx = sample_db\<lparr>accounts :=
      [(0, (sample_account (SupplyCap - 5))\<lparr>Nonce := 1\<rparr>),
       (7, \<lparr>DiscourseID = 7, Pubkey = None, Username = ''(pending)'', Nonce = 0, Balance = 5\<rparr>)],
     transactions := transactions sample_db @
       [pg_row tx \<lparr>df_Amount = Some 5, df_ToDiscourseID = Some 7, df_RewardSource = []\<rparr>]\<rparr>"

lemma text_ok_samples [simp]: "text_ok ''TREASURY''" "text_ok ''(pending)''" "text_ok []"
  "text_ok TxTransfer" "text_ok TxGenesis"
  by code_simp+

lemma sample_db_ok [simp]: "pg_ok sample_db" "wf_accts (pg_view sample_db)" "supply_ok (pg_view sample_db)"
  by (auto simp: sample_db_def pg_empty_def pg_ok_def keys_unique_def sample_account_def
      wf_accts_def supply_ok_def SupplyCap_def sum_map_update val_at_def split: if_splits)

lemma sample_transfer_verified [simp]:
  "VerifySig toy_ed (Signer transfer_tx) (Payload transfer_tx) (Sig transfer_tx)"
  "VerifySig toy_ed (Signer genesis_tx) (Payload genesis_tx) (Sig genesis_tx)"
  by (simp_all add: VerifySig_def transfer_tx_def genesis_tx_def PubKeyLen_def SigLen_def)

text \<open>The sample transfer of five points to user 7, evaluated on the sample database.\<close>

lemma sample_applyTransfer:
  "Signer tx = zero_key \<Longrightarrow> Payload tx = transfer_json \<Longrightarrow>
   applyTransfer PgOps sample_db tx = Inr (sample_db\<lparr>accounts :=
      [(0, (sample_account (SupplyCap - 5))\<lparr>Nonce := 1\<rparr>),
       (7, \<lparr>DiscourseID = 7, Pubkey = None, Username = ''(pending)'', Nonce = 0, Balance = 5\<rparr>)]\<rparr>)"
  by (simp add: applyTransfer_def transfer_json_payload TreasuryDscID_def PubKeyLen_def
      pg_GetAccountByPubKey_def sample_db_def pg_empty_def sample_account_def i64_def SupplyCap_def
      pg_GetAccountByDiscourseID_def pending_account_def meta_string_def Let_def
      pg_UpsertAccount_def upsert_row_def key_free_def)

definition sample_tx' :: Tx where
  "sample_tx' = transfer_tx\<lparr>LeafIndex := 1, PrevHash := ZeroHash,
     TxHash := tx_hash transfer_json zero_sig ZeroHash\<rparr>"

lemma sample_DeriveTxFields:
  "DeriveTxFields TxTransfer transfer_json =
     Inr \<lparr>df_Amount = Some 5, df_ToDiscourseID = Some 7, df_RewardSource = []\<rparr>"
  by (simp add: DeriveTxFields_def transfer_json_payload meta_string_def)

lemma sample_Apply: "Apply toy_ed PgOps sample_db transfer_tx = (sample_tx', Inr (sample_db' sample_tx'))"
proof -
  have lst: "pg_LastTx sample_db = Inr (Some (genesis_tx\<lparr>PrevHash := ZeroHash, TxHash := ZeroHash\<rparr>))"
    by (simp add: pg_LastTx_def sample_db_def pg_empty_def max_leaf_def)
  have link: "link_tx (Some (genesis_tx\<lparr>PrevHash := ZeroHash, TxHash := ZeroHash\<rparr>)) transfer_tx
      = Inr (transfer_tx\<lparr>LeafIndex := 1, PrevHash := ZeroHash\<rparr>)"
    by (simp add: link_tx_def transfer_tx_def genesis_tx_def i64_def)
  have "pg_InsertTx (sample_db\<lparr>accounts := as\<rparr>) sample_tx' = Inr (sample_db\<lparr>accounts := as,
      transactions := transactions sample_db @ [pg_row sample_tx'
        \<lparr>df_Amount = Some 5, df_ToDiscourseID = Some 7, df_RewardSource = []\<rparr>]\<rparr>)" for as
    using transfer_hash_fresh not_sym [OF transfer_hash_fresh]
    by (simp add: pg_InsertTx_def sample_tx'_def transfer_tx_def sample_DeriveTxFields tx_type_check_def
        sample_db_def pg_empty_def pg_row_def Tx.defs genesis_tx_def)
  then show ?thesis
    using lst link sample_transfer_verified(1)
    by (simp add: Apply_def pg_Begin_def apply_in_def pg_LockLedger_def apply_linked_def Build_def
        transfer_tx_def PubKeyLen_def SigLen_def sample_tx'_def dispatch_def sample_applyTransfer
        checkSupply_def requiresFullSupplyCheck_def pg_Commit_def sample_db'_def Let_def)
qed

lemma genesis_Apply_empty:
  "\<exists>tx' db'. Apply toy_ed PgOps pg_empty genesis_tx = (tx', Inr db')"
  using sample_transfer_verified(2)
  by (simp add: Apply_def pg_Begin_def apply_in_def pg_LockLedger_def pg_LastTx_def pg_empty_def
      max_leaf_def link_tx_def genesis_tx_def apply_linked_def Build_def PubKeyLen_def SigLen_def
      dispatch_def applyGenesis_def pg_GenesisExists_def genesis_json_payload SupplyCap_def
      treasury_account_def TreasuryDscID_def pg_UpsertAccount_def upsert_row_def key_free_def
      pg_InsertTx_def DeriveTxFields_def tx_type_check_def checkSupply_def requiresFullSupplyCheck_def
      pg_TotalBalance_def sum_on_def in_i64_def pg_Commit_def Let_def)

section \<open>Apply is one step of the abstract ledger\<close>

text \<open>
  Claim C2. Refinement: over the PostgreSQL store, a call of \<open>Apply\<close> that succeeds on a
  well-formed database is exactly one step of the abstract ledger, for the transaction with the
  index, the links and the hash that \<open>Apply\<close> sets, and the database is well-formed again.
\<close>

theorem pg_Apply_refines:
  assumes "pg_ok db" "ledger_ok ed (pg_view db)" "room 0 (pg_view db)"
    and "Apply ed PgOps db tx = (tx', Inr db')"
  shows "pg_ok db' \<and> ledger_step ed (pg_view db) tx' (pg_view db')"
  using pg.Apply_refines [OF assms] by simp

theorem pg_Apply_refines_witness:
  "\<exists>tx' db'. pg_ok db' \<and> ledger_step toy_ed (pg_view pg_empty) tx' (pg_view db')"
proof -
  obtain tx' db' where "Apply toy_ed PgOps pg_empty genesis_tx = (tx', Inr db')"
    using genesis_Apply_empty by blast
  from pg_Apply_refines [OF _ _ _ this] show ?thesis
    by (intro exI [of _ tx'] exI [of _ db']) (simp add: room_def)
qed

text \<open>
  The same refinement over the store in memory.
\<close>

theorem mem_Apply_refines:
  assumes "mem_ok m" "ledger_ok ed (mem_view m)" "room 0 (mem_view m)"
    and "Apply ed MemOps m tx = (tx', Inr m')"
  shows "mem_ok m' \<and> ledger_step ed (mem_view m) tx' (mem_view m')"
  using mem.Apply_refines [OF assms] by simp

lemma genesis_Apply_mem: "\<exists>tx' m'. Apply toy_ed MemOps NewMemStore genesis_tx = (tx', Inr m')"
  using sample_transfer_verified(2)
  by (simp add: Apply_def mem_Begin_def apply_in_def mem_LockLedger_def mem_LastTx_def NewMemStore_def
      link_tx_def genesis_tx_def apply_linked_def Build_def PubKeyLen_def SigLen_def
      dispatch_def applyGenesis_def mem_GenesisExists_def genesis_json_payload SupplyCap_def
      treasury_account_def TreasuryDscID_def mem_UpsertAccount_def mem_InsertTx_def checkSupply_def
      requiresFullSupplyCheck_def mem_TotalBalance_def i64_def mem_Commit_def Let_def)

theorem mem_Apply_refines_witness:
  "\<exists>tx' (m' :: MemStore). mem_ok m' \<and> ledger_step toy_ed (mem_view NewMemStore) tx' (mem_view m')"
proof -
  obtain tx' m' where "Apply toy_ed MemOps NewMemStore genesis_tx = (tx', Inr m')"
    using genesis_Apply_mem by blast
  from mem_Apply_refines [OF _ _ _ this] show ?thesis
    by (intro exI [of _ tx'] exI [of _ m']) (simp add: room_def)
qed

section \<open>What every sequence of calls keeps\<close>

lemma pg_run_ok:
  assumes "int (length ts) < 2 ^ 62"
  shows "pg_ok (run ed PgOps pg_empty ts)" "ledger_ok ed (pg_view (run ed PgOps pg_empty ts))"
    "length (transactions (run ed PgOps pg_empty ts)) \<le> length ts"
  using pg.run_ok [of pg_empty ed ts] assms by (simp_all add: room_def)

text \<open>
  From the empty database on, after any sequence of submitted transactions, accepted
  or not: no balance is negative, and the balances add up to nothing before the genesis and to
  exactly the supply cap after it.
\<close>

theorem pg_supply_constant:
  assumes "int (length ts) < 2 ^ 62"
  shows "list_all (\<lambda>(d, a). 0 \<le> Balance a) (accounts (run ed PgOps pg_empty ts)) \<and>
    sum_on Balance (accounts (run ed PgOps pg_empty ts)) =
      (if transactions (run ed PgOps pg_empty ts) = [] then 0 else SupplyCap)"
  using pg_run_ok [OF assms, of ed]
  by (auto simp: ledger_ok_def supply_ok_def sum_on_eq_sum_map pg_okD list_all_iff)

theorem pg_supply_constant_witness:
  "list_all (\<lambda>(d, a). 0 \<le> Balance a) (accounts (run toy_ed PgOps pg_empty [genesis_tx, transfer_tx])) \<and>
    sum_on Balance (accounts (run toy_ed PgOps pg_empty [genesis_tx, transfer_tx])) =
      (if transactions (run toy_ed PgOps pg_empty [genesis_tx, transfer_tx]) = [] then 0 else SupplyCap)"
  by (rule pg_supply_constant) simp

text \<open>
  From the empty database on, the log of transactions is at all times a hash chain:
  the indexes count from 0 without a gap, each transaction names the hash of the one before (32
  zero bytes for the first), has the hash of its payload, signature and link, and carries a
  signature that verifies; the genesis is first and only first.
\<close>

theorem pg_log_is_chain:
  assumes "int (length ts) < 2 ^ 62"
  shows "chain_from ed 0 ZeroHash (log (pg_view (run ed PgOps pg_empty ts)))"
  using pg_run_ok(2) [OF assms] by (simp add: ledger_ok_def)

theorem pg_log_is_chain_witness:
  "chain_from toy_ed 0 ZeroHash (log (pg_view (run toy_ed PgOps pg_empty [genesis_tx, transfer_tx])))"
  by (rule pg_log_is_chain) simp

lemma pg_Apply_step:
  "pg_ok db \<Longrightarrow> indexed (pg_view db) \<Longrightarrow> room 0 (pg_view db) \<Longrightarrow> Apply ed PgOps db tx = (tx', Inr db') \<Longrightarrow>
   pg_ok db' \<and> ledger_step ed (pg_view db) tx' (pg_view db')"
  using pg.Apply_step indexed_fresh by metis

lemma apply_in_fields:
  "apply_in S t tx = (tx', r) \<Longrightarrow>
   Type tx' = Type tx \<and> Payload tx' = Payload tx \<and> Sig tx' = Sig tx \<and> Signer tx' = Signer tx"
  by (auto simp: apply_in_def apply_linked_def link_tx_def Let_def
      split: if_splits sum.splits option.splits prod.splits)

lemma Apply_fields:
  "Apply ed S s tx = (tx', r) \<Longrightarrow>
   Type tx' = Type tx \<and> Payload tx' = Payload tx \<and> Sig tx' = Sig tx \<and> Signer tx' = Signer tx"
  by (auto simp: Apply_def dest: apply_in_fields split: if_splits sum.splits prod.splits)

lemma sample_db_facts [simp]:
  "indexed (pg_view sample_db)" "room 0 (pg_view sample_db)" "nonces_ok (pg_view sample_db)"
  by (simp_all add: indexed_def room_def sample_db_def pg_empty_def nonces_ok_def nonce_of_def
      val_at_def sample_account_def genesis_tx_def)

text \<open>
  Claim C8. Only its owner spends an account: a call of \<open>Apply\<close> lowers a balance only
  with a transfer signed by the key registered for that account, or, for an account without a
  key and with a negative id, with a reclaim signed by the treasury's key.
\<close>

theorem pg_Apply_authorised:
  assumes "pg_ok db" "supply_ok (pg_view db)" "indexed (pg_view db)" "room 0 (pg_view db)"
    and "Apply ed PgOps db tx = (tx', Inr db')"
    and "map_of (accounts db) d = Some a" "map_of (accounts db') d = Some a'" "Balance a' < Balance a"
  shows "(Type tx = TxTransfer \<and> Pubkey a = Some (Signer tx)) \<or>
    (Type tx = TxReclaimInvalid \<and> d < TreasuryDscID \<and> \<not> has_pubkey a \<and>
      (\<exists>t. map_of (accounts db) TreasuryDscID = Some t \<and> Pubkey t = Some (Signer tx)))"
proof -
  have "ledger_step ed (pg_view db) tx' (pg_view db')" using pg_Apply_step assms(1,3,4,5) by blast
  from step_authorised [OF this pg.tview_wf [OF assms(1)] assms(2)] assms(6-8)
  have "authorised (pg_view db) tx' d" by simp
  with assms(6) Apply_fields [OF assms(5)] show ?thesis by (auto simp: authorised_def)
qed

theorem pg_Apply_authorised_witness:
  "Balance (sample_account (SupplyCap - 5)) < Balance (sample_account SupplyCap) \<and>
   ((Type transfer_tx = TxTransfer \<and> Pubkey (sample_account SupplyCap) = Some (Signer transfer_tx)) \<or>
    (Type transfer_tx = TxReclaimInvalid \<and> 0 < TreasuryDscID \<and> \<not> has_pubkey (sample_account SupplyCap) \<and>
      (\<exists>t. map_of (accounts sample_db) TreasuryDscID = Some t \<and> Pubkey t = Some (Signer transfer_tx))))"
  using pg_Apply_authorised [OF sample_db_ok(1,3) sample_db_facts(1,2) sample_Apply, of 0 "sample_account SupplyCap"]
  by (simp add: sample_db_def sample_db'_def sample_account_def)

text \<open>
  Nonces count: a call of \<open>Apply\<close> that succeeds, other than the genesis, raises the
  nonce of exactly one account, by one; that account holds the signer's key, and its new nonce is
  the one in the signed payload. No other account's nonce changes.
\<close>

theorem pg_Apply_nonce:
  assumes "pg_ok db" "indexed (pg_view db)" "room 0 (pg_view db)"
    and "Apply ed PgOps db tx = (tx', Inr db')" "Type tx \<noteq> TxGenesis"
  shows "\<exists>d a. map_of (accounts db) d = Some a \<and> Pubkey a = Some (Signer tx) \<and>
    signed_nonce tx = Some (nonce_of (pg_view db') d) \<and>
    nonce_of (pg_view db') = (nonce_of (pg_view db))(d := i64 (Nonce a + 1))"
proof -
  note same = Apply_fields [OF assms(4)]
  have "ledger_step ed (pg_view db) tx' (pg_view db')" using pg_Apply_step assms(1-4) by blast
  from step_nonce [OF this] same assms(5) obtain d a where
    "accts (pg_view db) d = Some a" "Pubkey a = Some (Signer tx)"
    "signed_nonce tx' = Some (nonce_of (pg_view db') d)"
    "nonce_of (pg_view db') = (nonce_of (pg_view db))(d := i64 (nonce_of (pg_view db) d + 1))" by auto
  moreover have "signed_nonce tx' = signed_nonce tx" using same by (simp add: signed_nonce_def)
  moreover have "nonce_of (pg_view db) d = Nonce a" if "accts (pg_view db) d = Some a"
    using that by (simp add: nonce_of_def val_at_def)
  ultimately show ?thesis by (intro exI [of _ d] exI [of _ a]) simp
qed

theorem pg_Apply_nonce_witness:
  "\<exists>d a. map_of (accounts sample_db) d = Some a \<and> Pubkey a = Some (Signer transfer_tx) \<and>
    signed_nonce transfer_tx = Some (nonce_of (pg_view (sample_db' sample_tx')) d) \<and>
    nonce_of (pg_view (sample_db' sample_tx')) = (nonce_of (pg_view sample_db))(d := i64 (Nonce a + 1))"
  by (rule pg_Apply_nonce [OF sample_db_ok(1) sample_db_facts(1,2) sample_Apply])
    (simp add: transfer_tx_def)

lemma pg_one_key: "pg_ok db \<Longrightarrow> one_key (pg_view db)"
  by (simp add: pg_ok_def keys_unique_def one_key_def)

text \<open>
  Claim C7. No replay: once a signed transaction has been accepted, it is rejected for ever after,
  whatever is submitted in between, as long as the account that signed it still holds the key.
\<close>

theorem pg_no_replay:
  assumes "pg_ok db" "nonces_ok (pg_view db)" "indexed (pg_view db)" "room (Suc (length ts)) (pg_view db)"
    and "Apply ed PgOps db tx = (tx', Inr db')" "Type tx \<noteq> TxGenesis"
    and "map_of (accounts db) d = Some a" "Pubkey a = Some (Signer tx)"
    and "map_of (accounts (run ed PgOps db' ts)) d = Some b" "Pubkey b = Some (Signer tx)"
  shows "\<exists>e. snd (Apply ed PgOps (run ed PgOps db' ts) tx) = Inl e"
proof (rule ccontr)
  let ?r = "run ed PgOps db' ts"
  assume "\<not> ?thesis"
  then obtain tx2 db2 where again: "Apply ed PgOps ?r tx = (tx2, Inr db2)"
    by (cases "Apply ed PgOps ?r tx"; cases "snd (Apply ed PgOps ?r tx)") auto
  have room: "room 0 (pg_view db)" using assms(4) by (simp add: room_def)
  have step: "pg_ok db'" "ledger_step ed (pg_view db) tx' (pg_view db')"
    using pg_Apply_step [OF assms(1,3) room assms(5)] by auto
  note n1 = step_nonces_ok [OF step(2) assms(2) room]
  note i1 = step_indexed [OF step(2) assms(3) room]
  have room1: "room (length ts) (pg_view db')" using assms(4) i1(2) by (simp add: room_def)
  have r: "pg_ok ?r \<and> indexed (pg_view ?r) \<and> length (log (pg_view ?r)) \<le> length (log (pg_view db')) + length ts"
    using pg.run_induct [OF step(1) _ i1(1) room1, of "\<lambda>_. True"] by simp
  have n2: "nonces_ok (pg_view ?r)" "nonce_of (pg_view db') d \<le> nonce_of (pg_view ?r) d"
    using pg.run_nonces [OF step(1) n1(1) i1(1) room1] by auto
  have room2: "room 0 (pg_view ?r)" using r room1 by (simp add: room_def)
  obtain d1 a1 where f1: "map_of (accounts db) d1 = Some a1" "Pubkey a1 = Some (Signer tx)"
    "signed_nonce tx = Some (nonce_of (pg_view db') d1)"
    using pg_Apply_nonce [OF assms(1,3) room assms(5,6)] by blast
  obtain d2 a2 where f2: "map_of (accounts ?r) d2 = Some a2" "Pubkey a2 = Some (Signer tx)"
    "signed_nonce tx = Some (nonce_of (pg_view db2) d2)"
    "nonce_of (pg_view db2) = (nonce_of (pg_view ?r))(d2 := i64 (Nonce a2 + 1))"
    using pg_Apply_nonce [OF _ _ room2 again assms(6)] r by blast
  have "d1 = d" using one_keyD [OF pg_one_key [OF assms(1)]] f1 assms(7,8) by simp
  moreover have "d2 = d" using one_keyD [OF pg_one_key, of ?r d b _ d2 a2] r f2 assms(9,10) by simp
  moreover have nonce: "nonce_of (pg_view ?r) d2 = Nonce a2"
    using f2(1) by (simp add: nonce_of_def val_at_def)
  ultimately have "nonce_of (pg_view db') d = i64 (nonce_of (pg_view ?r) d + 1)"
    using f1(3) f2(3,4) nonce by simp
  moreover have "i64 (nonce_of (pg_view ?r) d + 1) = nonce_of (pg_view ?r) d + 1"
    using n2(1) room2 by (intro i64_id) (auto simp: nonces_ok_def room_def in_i64_def dest: spec [of _ d])
  ultimately show False using n2(2) by simp
qed

theorem pg_no_replay_witness:
  "\<exists>e. snd (Apply toy_ed PgOps (run toy_ed PgOps (sample_db' sample_tx') []) transfer_tx) = Inl e"
  by (rule pg_no_replay [OF sample_db_ok(1) sample_db_facts(3,1) _ sample_Apply,
        where ts = "[]" and d = 0 and a = "sample_account SupplyCap"
          and b = "(sample_account (SupplyCap - 5))\<lparr>Nonce := 1\<rparr>"])
    (simp_all add: transfer_tx_def sample_db_def sample_db'_def sample_account_def run_def room_def pg_empty_def)

text \<open>
  Claim C13. The two stores agree: from stores that hold the same ledger, in which no two accounts
  share a key, a transaction that both accept leaves them with the same ledger again.
\<close>

theorem stores_agree:
  assumes "pg_ok db" "mem_ok m" "mem_view m = pg_view db" "indexed (pg_view db)" "room 0 (pg_view db)"
    and "transactions db = [] \<longrightarrow> map_of (accounts db) TreasuryDscID = None"
    and "Apply ed PgOps db tx = (tx1, Inr db')" "Apply ed MemOps m tx = (tx2, Inr m')"
  shows "tx1 = tx2 \<and> mem_view m' = pg_view db'"
proof -
  have s1: "ledger_step ed (pg_view db) tx1 (pg_view db')" using pg_Apply_step assms(1,4,5,7) by blast
  have s2: "ledger_step ed (pg_view db) tx2 (mem_view m')"
    using mem.Apply_step [OF assms(2,8)] indexed_fresh assms(3-5) by metis
  have "tx1 = tx2"
    using step_log [OF s1] step_log [OF s2] Apply_fields [OF assms(7)] Apply_fields [OF assms(8)]
    by (intro Tx.equality) (auto simp: sealed_def)
  with step_deterministic [OF s1 _ pg_one_key [OF assms(1)]] s2 assms(6) show ?thesis by auto
qed

theorem stores_agree_witness:
  "\<exists>tx1 tx2 db' (m' :: MemStore). snd (Apply toy_ed PgOps pg_empty genesis_tx) = Inr db' \<and>
     tx1 = tx2 \<and> mem_view m' = pg_view db'"
proof -
  obtain tx1 db' tx2 m' where a: "Apply toy_ed PgOps pg_empty genesis_tx = (tx1, Inr db')"
    "Apply toy_ed MemOps NewMemStore genesis_tx = (tx2, Inr m')"
    using genesis_Apply_empty genesis_Apply_mem by blast
  from stores_agree [OF _ _ _ _ _ _ a] have "tx1 = tx2 \<and> mem_view m' = pg_view db'"
    by (simp add: indexed_def room_def pg_empty_accounts)
  with a(1) show ?thesis by (metis snd_conv)
qed

text \<open>
  The store in memory does not order concurrent writers: its \<open>LockLedger\<close> does
  nothing, so of two transactions that start from the same state and both commit, the one that
  commits first is lost, with its log entry.
\<close>

theorem mem_lost_update:
  assumes "mem_ok m" "indexed (mem_view m)" "room 0 (mem_view m)" "mem_Begin m = Inr t"
    and "VerifySig ed (Signer tx1) (Payload tx1) (Sig tx1)" "apply_in MemOps t tx1 = (tx1', Inr t1)"
    and "VerifySig ed (Signer tx2) (Payload tx2) (Sig tx2)" "apply_in MemOps t tx2 = (tx2', Inr t2)"
    and "mem_Commit m t1 = Inr m1" "mem_Commit m1 t2 = Inr m2"
  shows "txs m1 = txs m @ [tx1'] \<and> txs m2 = txs m @ [tx2'] \<and> mem_Commit m t2 = Inr m2"
proof -
  have t: "mem_ok t" "mem_view t = mem_view m"
    using assms(1,4) by (auto simp: mem_Begin_def mem_ok_def mem_view_def)
  have fresh: "LeafIndex x < LeafIndex tx"
    if "sealed ed (mem_view t) tx" "x \<in> set (log (mem_view t))" for tx x
    using indexed_fresh [OF assms(2,3)] that t(2) by metis
  have "log (mem_view t1) = log (mem_view t) @ [tx1']" "log (mem_view t2) = log (mem_view t) @ [tx2']"
    using mem.apply_in_step [OF t(1) assms(6,5) fresh] mem.apply_in_step [OF t(1) assms(8,7) fresh]
      step_log by metis+
  moreover have "txs t = txs m" using assms(4) by (auto simp: mem_Begin_def)
  ultimately show ?thesis
    using assms(9,10) by (auto simp: mem_Commit_def split: if_splits)
qed

lemma genesis_apply_in:
  assumes "Signer tx = zero_key" "genesis_payload (Payload tx) = genesis_payload genesis_json"
    "Type tx = TxGenesis" "Sig tx = zero_sig" "mem_Begin NewMemStore = Inr t"
  shows "\<exists>tx' t'. apply_in MemOps t tx = (tx', Inr t') \<and> \<not> done_flag t'"
  using assms
  by (auto simp: apply_in_def mem_Begin_def mem_LockLedger_def mem_LastTx_def NewMemStore_def
      link_tx_def apply_linked_def Build_def PubKeyLen_def SigLen_def
      dispatch_def applyGenesis_def mem_GenesisExists_def genesis_json_payload SupplyCap_def
      treasury_account_def TreasuryDscID_def mem_UpsertAccount_def mem_InsertTx_def checkSupply_def
      requiresFullSupplyCheck_def mem_TotalBalance_def i64_def Let_def)

lemma genesis_json_space: "genesis_payload (CHR '' '' # genesis_json) = genesis_payload genesis_json"
  by code_simp

theorem mem_lost_update_witness:
  "\<exists>tx1' tx2' (m1 :: MemStore) (m2 :: MemStore). txs m1 = txs NewMemStore @ [tx1'] \<and> txs m2 = txs NewMemStore @ [tx2'] \<and>
     Payload tx1' \<noteq> Payload tx2'"
proof -
  let ?tx2 = "genesis_tx\<lparr>Payload := CHR '' '' # genesis_json\<rparr>"
  obtain t where t: "mem_Begin NewMemStore = Inr t" by (simp add: mem_Begin_def)
  obtain tx1' t1 where a1: "apply_in MemOps t genesis_tx = (tx1', Inr t1)" "\<not> done_flag t1"
    using genesis_apply_in [OF _ _ _ _ t, of genesis_tx] by (auto simp: genesis_tx_def)
  obtain tx2' t2 where a2: "apply_in MemOps t ?tx2 = (tx2', Inr t2)" "\<not> done_flag t2"
    using genesis_apply_in [OF _ _ _ _ t, of ?tx2] by (auto simp: genesis_tx_def genesis_json_space)
  obtain m1 m2 where c: "mem_Commit NewMemStore t1 = Inr m1" "mem_Commit m1 t2 = Inr m2"
    using a1(2) a2(2) by (simp add: mem_Commit_def)
  have v: "VerifySig toy_ed (Signer ?tx2) (Payload ?tx2) (Sig ?tx2)"
    by (simp add: VerifySig_def genesis_tx_def PubKeyLen_def SigLen_def)
  have "txs m1 = txs NewMemStore @ [tx1'] \<and> txs m2 = txs NewMemStore @ [tx2'] \<and> mem_Commit NewMemStore t2 = Inr m2"
    by (rule mem_lost_update [OF _ _ _ t sample_transfer_verified(2) a1(1) v a2(1) c])
      (simp_all add: indexed_def room_def)
  moreover have "Payload tx1' = genesis_json" "Payload tx2' = CHR '' '' # genesis_json"
    using apply_in_fields [OF a1(1)] apply_in_fields [OF a2(1)] by (simp_all add: genesis_tx_def)
  ultimately show ?thesis by (intro exI [of _ tx1'] exI [of _ tx2'] exI [of _ m1] exI [of _ m2]) simp
qed

end
