(* ===== verification/JsonPrint.thy ===== *)
theory JsonPrint
  imports Json
begin

text \<open>
  The encoder of \<open>encoding/json\<close> for the values that the program encodes (integers, valid
  UTF-8 strings, byte slices as base64, objects with their members in order), and the round trip:
  what the encoder writes, the decoder reads back. The flag \<open>html\<close> is \<open>SetEscapeHTML\<close>: on in
  \<open>json.Marshal\<close>, off in \<open>CanonicalJSON\<close>.
\<close>

section \<open>The encoder\<close>

definition escape_char :: "bool \<Rightarrow> char \<Rightarrow> bytes" where
  "escape_char html c =
     (if c = quote \<or> c = backslash then [backslash, c]
      else if c = CHR 0x08 then [backslash, CHR ''b'']
      else if c = CHR 0x0C then [backslash, CHR ''f'']
      else if c = CHR 0x0A then [backslash, CHR ''n'']
      else if c = CHR 0x0D then [backslash, CHR ''r'']
      else if c = CHR 0x09 then [backslash, CHR ''t'']
      else if code c < 0x20 \<or> (html \<and> c \<in> set ''<>&'')
        then [backslash, CHR ''u'', CHR ''0'', CHR ''0'', hex_digit (code c div 16), hex_digit (code c mod 16)]
      else [c])"

text \<open>An escape \<open>\uXXXX\<close> of a code point below 65536.\<close>

definition escape_rune :: "nat \<Rightarrow> bytes" where
  "escape_rune r =
     [backslash, CHR ''u'', hex_digit (r div 4096 mod 16), hex_digit (r div 256 mod 16),
      hex_digit (r div 16 mod 16), hex_digit (r mod 16)]"

text \<open>The rest of a string literal, with its closing quote.\<close>

function print_chars :: "bool \<Rightarrow> bytes \<Rightarrow> bytes" where
  "print_chars html [] = [quote]"
| "print_chars html (c # s) =
     (if code c < 0x80 then escape_char html c @ print_chars html s
      else
        (let (r, w) = decode_rune (c # s)
         in (if r = rune_error \<and> w = 1 then escape_rune 0xFFFD
             else if r = 0x2028 \<or> r = 0x2029 then escape_rune (nat r)
             else take w (c # s))
            @ print_chars html (drop (w - 1) s)))"
  by pat_completeness auto
termination by (relation "measure (length \<circ> snd)") auto

declare print_chars.simps(2) [simp del]

fun json_print :: "bool \<Rightarrow> json \<Rightarrow> bytes"
and print_elems :: "bool \<Rightarrow> json list \<Rightarrow> bytes"
and print_members :: "bool \<Rightarrow> (bytes \<times> json) list \<Rightarrow> bytes" where
  "json_print h JNull = ''null''"
| "json_print h (JBool b) = (if b then ''true'' else ''false'')"
| "json_print h (JNum l) = l"
| "json_print h (JStr s) = quote # print_chars h s"
| "json_print h (JArr vs) = (if vs = [] then ''[]'' else CHR ''['' # print_elems h vs)"
| "json_print h (JObj ms) = (if ms = [] then ''{}'' else CHR ''{'' # print_members h ms)"
| "print_elems h [] = []"
| "print_elems h (v # vs) = json_print h v @ (if vs = [] then '']'' else CHR '','' # print_elems h vs)"
| "print_members h [] = []"
| "print_members h ((k, v) # ms) =
     quote # print_chars h k @ CHR '':'' # json_print h v @
     (if ms = [] then ''}'' else CHR '','' # print_members h ms)"

text \<open>The encoding of an \<open>int64\<close>, a \<open>string\<close> and a \<open>[]byte\<close>.\<close>

definition enc_int :: "int \<Rightarrow> json" where "enc_int n = JNum (format_int n)"
definition enc_bytes :: "bytes \<Rightarrow> json" where "enc_bytes b = JStr (StdEncode b)"

text \<open>\<open>json.NewDecoder(r).Decode(&x)\<close> reads the first value and leaves what follows it.\<close>

definition Decode :: "('a \<Rightarrow> bytes \<Rightarrow> json \<Rightarrow> 'a option) \<Rightarrow> 'a \<Rightarrow> bytes \<Rightarrow> 'a option" where
  "Decode f z s =
     (case parse_value (2 * length s + 2) max_depth s of
        Some (v, r) \<Rightarrow> decode_struct f z v
      | None \<Rightarrow> None)"

text \<open>
  A slice: \<open>null\<close> empties it, and an element is decoded over the element that is there already, if
  the same member came before.
\<close>

fun dec_elems :: "('a \<Rightarrow> json \<Rightarrow> 'a option) \<Rightarrow> 'a \<Rightarrow> 'a list \<Rightarrow> json list \<Rightarrow> 'a list option" where
  "dec_elems dec z old [] = Some []"
| "dec_elems dec z old (v # vs) =
     (case (dec (case old of [] \<Rightarrow> z | x # _ \<Rightarrow> x) v, dec_elems dec z (tl old) vs) of
        (Some x, Some xs) \<Rightarrow> Some (x # xs)
      | _ \<Rightarrow> None)"

definition dec_slice :: "('a \<Rightarrow> json \<Rightarrow> 'a option) \<Rightarrow> 'a \<Rightarrow> 'a list \<Rightarrow> json \<Rightarrow> 'a list option" where
  "dec_slice dec z old v = (case v of JNull \<Rightarrow> Some [] | JArr vs \<Rightarrow> dec_elems dec z old vs | _ \<Rightarrow> None)"

text \<open>Decoding a slice that is the whole value.\<close>

definition Decode_slice :: "('a \<Rightarrow> json \<Rightarrow> 'a option) \<Rightarrow> 'a \<Rightarrow> bytes \<Rightarrow> 'a list option" where
  "Decode_slice dec z s =
     (case parse_value (2 * length s + 2) max_depth s of
        Some (v, r) \<Rightarrow> dec_slice dec z [] v
      | None \<Rightarrow> None)"

section \<open>Characters\<close>

text \<open>The escape of one byte below 128 is read back as that byte; checked for each of the 128.\<close>

definition escape_reads_back :: "bool \<Rightarrow> nat \<Rightarrow> bool" where
  "escape_reads_back html n =
     (let c = byte n
      in case escape_char html c of
           [x] \<Rightarrow> x = c \<and> \<not> c = quote \<and> \<not> c = backslash \<and> 32 \<le> code c \<and> code c < 128
         | [b, e] \<Rightarrow> b = backslash \<and> \<not> e = CHR ''u'' \<and> simple_escape e = Some c
         | [b, u, p, q, r, s] \<Rightarrow>
             b = backslash \<and> u = CHR ''u'' \<and> hex4 [p, q, r, s] = Some (int n) \<and> encode_rune (int n) = [c]
         | _ \<Rightarrow> False)"

lemma escapes_checked:
  "list_all (escape_reads_back True) [0..<128]" "list_all (escape_reads_back False) [0..<128]"
  by code_simp+

lemma hex4_append: "length u = 4 \<Longrightarrow> hex4 (u @ t) = hex4 u"
  by (auto simp: hex4_def numeral_eq_Suc length_Suc_conv)

lemma parse_escaped:
  assumes "code c < 0x80"
  shows "parse_string (escape_char html c @ t) = prepend [c] (parse_string t)"
proof -
  have "code c \<in> set [0..<128]" using assms by simp
  then have "escape_reads_back html (code c)"
    using escapes_checked unfolding list_all_iff by (cases html) (metis (full_types))+
  then consider (self) "escape_char html c = [c]" "c \<noteq> quote" "c \<noteq> backslash" "32 \<le> code c"
    | (short) e where "escape_char html c = [backslash, e]" "e \<noteq> CHR ''u''" "simple_escape e = Some c"
    | (long) p q r s where "escape_char html c = [backslash, CHR ''u'', p, q, r, s]"
        "hex4 [p, q, r, s] = Some (int (code c))" "encode_rune (int (code c)) = [c]"
    by (auto simp: escape_reads_back_def Let_def split: list.splits)
  then show ?thesis
  proof cases
    case self
    with assms show ?thesis by (simp add: parse_string.simps(2))
  next
    case short
    then show ?thesis by (simp add: parse_string.simps(2) backslash_def quote_def)
  next
    case long
    have "hex4 (p # q # r # s # t) = Some (int (code c))"
      using hex4_append [of "[p, q, r, s]" t] long(2) by simp
    with long assms show ?thesis
      by (simp add: parse_string.simps(2) backslash_def quote_def surrogate_def)
  qed
qed

text \<open>A well-formed multi-byte character is decoded in any context, and encoded as it was.\<close>

lemma digit_mod: "0 \<le> r \<Longrightarrow> r < m \<Longrightarrow> (q * m + r) div m = q \<and> (q * m + r) mod m = (r :: int)"
  by simp

lemma ubyte_code: "n = int (code c) \<Longrightarrow> ubyte n = c"
  by (simp add: ubyte_def)

lemma mod_above: "m * d \<le> n \<Longrightarrow> n < m * d + d \<Longrightarrow> int (n mod d) = int n - int (m * d)" for n m d :: nat
proof -
  assume "m * d \<le> n" "n < m * d + d"
  then have "n = (n - m * d) + m * d" "n - m * d < d" by simp_all
  then have "n mod d = n - m * d" by (metis mod_less mod_mult_self1)
  with \<open>m * d \<le> n\<close> show ?thesis by (simp add: of_nat_diff)
qed

lemma code_mod_high:
  "between 0xC2 0xDF a \<Longrightarrow> int (code a mod 32) = int (code a) - 192"
  "between 0xE0 0xEF a \<Longrightarrow> int (code a mod 16) = int (code a) - 224"
  "between 0xF0 0xF4 a \<Longrightarrow> int (code a mod 8) = int (code a) - 240"
  using mod_above [of 6 32 "code a"] mod_above [of 14 16 "code a"] mod_above [of 30 8 "code a"]
  by (simp_all add: between_def)

lemma low6_cont:
  assumes "cont b" shows "low6 b = int (code b) - 128" "0 \<le> low6 b" "low6 b < 64"
  using assms mod_above [of 2 64 "code b"] by (simp_all add: low6_def cont_def)

lemma second_cont: "second_ok a b \<Longrightarrow> cont b"
  by (auto simp: between_def cont_def split: if_splits)


lemma decode_rune_cases:
  assumes "decode_rune (c # s) = (r, w)" "r = rune_error \<longrightarrow> w \<noteq> 1" "0x80 \<le> code c"
  obtains (two) b u where "s = b # u" "between 0xC2 0xDF c" "cont b" "w = 2"
      "r = int (code c mod 32) * 64 + low6 b"
  | (three) b d u where "s = b # d # u" "between 0xE0 0xEF c" "second_ok c b" "cont d" "w = 3"
      "r = int (code c mod 16) * 4096 + low6 b * 64 + low6 d"
  | (four) b d e u where "s = b # d # e # u" "between 0xF0 0xF4 c" "second_ok c b" "cont d" "cont e" "w = 4"
      "r = int (code c mod 8) * 262144 + low6 b * 4096 + low6 d * 64 + low6 e"
  using assms
  by (simp add: decode_rune_def not_less split: if_splits list.splits)

text \<open>The sixty-fours' digits of a code point, as the encoder takes them apart.\<close>

lemma digits_64:
  fixes x y z w :: int
  assumes "0 \<le> y" "y < 64" "0 \<le> z" "z < 64" "0 \<le> w" "w < 64"
  shows "(x * 64 + y) div 64 = x" "(x * 64 + y) mod 64 = y"
    "(x * 4096 + y * 64 + z) div 4096 = x" "(x * 4096 + y * 64 + z) div 64 mod 64 = y"
    "(x * 4096 + y * 64 + z) mod 64 = z"
    "(x * 262144 + y * 4096 + z * 64 + w) div 262144 = x"
    "(x * 262144 + y * 4096 + z * 64 + w) div 4096 mod 64 = y"
    "(x * 262144 + y * 4096 + z * 64 + w) div 64 mod 64 = z"
    "(x * 262144 + y * 4096 + z * 64 + w) mod 64 = w"
  using assms digit_mod [of y 64 x] digit_mod [of z 64 "x * 64 + y"] digit_mod [of "y * 64 + z" 4096 x]
    digit_mod [of w 64 "x * 4096 + y * 64 + z"] digit_mod [of "z * 64 + w" 4096 "x * 64 + y"]
    digit_mod [of "y * 4096 + z * 64 + w" 262144 x] digit_mod [of z 64 "x * 64 + y"]
  by (simp_all add: algebra_simps)

lemma encode_two:
  assumes "between 0xC2 0xDF c" "cont b"
  shows "encode_rune (int (code c mod 32) * 64 + low6 b) = [c, b]"
proof -
  obtain x where x: "x = int (code c) - 192" "2 \<le> x" "x < 32"
    using assms(1) by (auto simp: between_def)
  obtain y where y: "low6 b = y" "y = int (code b) - 128" "0 \<le> y" "y < 64"
    using low6_cont [OF assms(2)] by auto
  have "ubyte (192 + x) = c" "ubyte (128 + y) = b" using x y by (auto intro: ubyte_code)
  moreover have "(x * 64 + y) div 64 = x" "(x * 64 + y) mod 64 = y"
    by (fact digits_64 [OF y(3,4) y(3,4) y(3,4)])+
  ultimately have "encode_rune (x * 64 + y) = [c, b]"
    using x(2,3) y(3,4) by (simp add: encode_rune_def)
  then show ?thesis using code_mod_high(1) [OF assms(1)] x y by simp
qed

lemma encode_rune_three:
  "0x800 \<le> r \<Longrightarrow> r < 0x10000 \<Longrightarrow> r < 0xD800 \<or> 0xDFFF < r \<Longrightarrow>
   encode_rune r = [ubyte (0xE0 + r div 4096), ubyte (0x80 + r div 64 mod 64), ubyte (0x80 + r mod 64)]"
  by (auto simp: encode_rune_def Let_def)

lemma encode_rune_four:
  "0x10000 \<le> r \<Longrightarrow> r \<le> 0x10FFFF \<Longrightarrow>
   encode_rune r = [ubyte (0xF0 + r div 262144), ubyte (0x80 + r div 4096 mod 64),
     ubyte (0x80 + r div 64 mod 64), ubyte (0x80 + r mod 64)]"
  by (auto simp: encode_rune_def Let_def)

lemma encode_three:
  assumes "between 0xE0 0xEF c" "second_ok c b" "cont d"
  shows "encode_rune (int (code c mod 16) * 4096 + low6 b * 64 + low6 d) = [c, b, d]"
proof -
  obtain x where x: "x = int (code c) - 224" "0 \<le> x" "x < 16"
    using assms(1) by (auto simp: between_def)
  obtain y where y: "low6 b = y" "y = int (code b) - 128" "0 \<le> y" "y < 64"
    using low6_cont [OF second_cont [OF assms(2)]] by auto
  obtain z where z: "low6 d = z" "z = int (code d) - 128" "0 \<le> z" "z < 64"
    using low6_cont [OF assms(3)] by auto
  have r: "0x800 \<le> x * 4096 + y * 64 + z" "x * 4096 + y * 64 + z < 0x10000"
    "x * 4096 + y * 64 + z < 0xD800 \<or> 0xDFFF < x * 4096 + y * 64 + z"
    using assms(1,2) x y z by (auto simp: between_def cont_def split: if_splits)
  have "ubyte (224 + x) = c" "ubyte (128 + y) = b" "ubyte (128 + z) = d"
    using x y z by (auto intro: ubyte_code)
  moreover have "(x * 4096 + y * 64 + z) div 4096 = x" "(x * 4096 + y * 64 + z) div 64 mod 64 = y"
    "(x * 4096 + y * 64 + z) mod 64 = z" by (fact digits_64 [OF y(3,4) z(3,4) z(3,4)])+
  ultimately have "encode_rune (x * 4096 + y * 64 + z) = [c, b, d]"
    by (simp only: encode_rune_three [OF r])
  then show ?thesis using code_mod_high(2) [OF assms(1)] x y z by simp
qed

lemma encode_four:
  assumes "between 0xF0 0xF4 c" "second_ok c b" "cont d" "cont e"
  shows "encode_rune (int (code c mod 8) * 262144 + low6 b * 4096 + low6 d * 64 + low6 e) = [c, b, d, e]"
proof -
  obtain x where x: "x = int (code c) - 240" "0 \<le> x" "x < 5"
    using assms(1) by (auto simp: between_def)
  obtain y where y: "low6 b = y" "y = int (code b) - 128" "0 \<le> y" "y < 64"
    using low6_cont [OF second_cont [OF assms(2)]] by auto
  obtain z where z: "low6 d = z" "z = int (code d) - 128" "0 \<le> z" "z < 64"
    using low6_cont [OF assms(3)] by auto
  obtain v where v: "low6 e = v" "v = int (code e) - 128" "0 \<le> v" "v < 64"
    using low6_cont [OF assms(4)] by auto
  have r: "0x10000 \<le> x * 262144 + y * 4096 + z * 64 + v"
    "x * 262144 + y * 4096 + z * 64 + v \<le> 0x10FFFF"
    using assms(1,2) x y z v by (auto simp: between_def cont_def split: if_splits)
  have "ubyte (240 + x) = c" "ubyte (128 + y) = b" "ubyte (128 + z) = d" "ubyte (128 + v) = e"
    using x y z v by (auto intro: ubyte_code)
  moreover have "(x * 262144 + y * 4096 + z * 64 + v) div 262144 = x"
    "(x * 262144 + y * 4096 + z * 64 + v) div 4096 mod 64 = y"
    "(x * 262144 + y * 4096 + z * 64 + v) div 64 mod 64 = z"
    "(x * 262144 + y * 4096 + z * 64 + v) mod 64 = v"
    by (fact digits_64 [OF y(3,4) z(3,4) v(3,4)])+
  ultimately have "encode_rune (x * 262144 + y * 4096 + z * 64 + v) = [c, b, d, e]"
    by (simp only: encode_rune_four [OF r])
  then show ?thesis using code_mod_high(3) [OF assms(1)] x y z v by simp
qed

lemma decode_rune_multi:
  assumes "decode_rune (c # s) = (r, w)" "r = rune_error \<longrightarrow> w \<noteq> 1" "0x80 \<le> code c"
  shows "decode_rune (take w (c # s) @ t) = (r, w) \<and> encode_rune r = take w (c # s) \<and> 2 \<le> w \<and> w \<le> length (c # s)"
  using assms
proof (cases rule: decode_rune_cases)
  case (two b u)
  then show ?thesis using assms(3) encode_two by (simp add: decode_rune_def)
next
  case (three b d u)
  then show ?thesis using assms(3) encode_three
    by (simp add: decode_rune_def between_def del: second_ok.simps)
next
  case (four b d e u)
  then show ?thesis using assms(3) encode_four
    by (simp add: decode_rune_def between_def del: second_ok.simps)
qed


lemma parse_escape_rune:
  assumes "r \<in> {0x2028, 0x2029}"
  shows "parse_string (escape_rune (nat r) @ t) = prepend (encode_rune r) (parse_string t)"
proof -
  have h: "hex4 (drop 2 (escape_rune (nat r))) = Some r" "take 2 (escape_rune (nat r)) = [backslash, CHR ''u'']"
    using assms by (elim insertE emptyE; simp; code_simp)+
  obtain p q u v where e: "escape_rune (nat r) = [backslash, CHR ''u'', p, q, u, v]"
    by (simp add: escape_rune_def)
  have "hex4 (p # q # u # v # t) = Some r"
    using hex4_append [of "[p, q, u, v]" t] h e by simp
  with e assms show ?thesis
    by (auto simp: parse_string.simps(2) backslash_def quote_def surrogate_def)
qed

lemma prepend_Some [simp]: "prepend p (Some (s, r)) = Some (p @ s, r)"
  by (simp add: prepend_def)

lemma quote_small: "code quote < 0x80" "code backslash < 0x80"
  by (simp_all add: quote_def backslash_def code_def)

lemma parse_print_chars: "valid_utf8 s \<Longrightarrow> parse_string (print_chars html s @ t) = Some (s, t)"
proof (induction html s rule: print_chars.induct)
  case (1 html)
  then show ?case by (simp add: parse_string.simps(2))
next
  case (2 html c s)
  show ?case
  proof (cases "code c < 0x80")
    case True
    then have "decode_rune (c # s) = (int (code c), 1)" by (simp add: decode_rune_def)
    with 2 True have "parse_string (print_chars html s @ t) = Some (s, t)"
      by (simp add: rune_error_def valid_utf8.simps(2))
    with True show ?thesis by (simp add: print_chars.simps(2) parse_escaped)
  next
    case False
    obtain r w where rw: "decode_rune (c # s) = (r, w)" by fastforce
    with 2(3) have ok: "r = rune_error \<longrightarrow> w \<noteq> 1" and v: "valid_utf8 (drop (w - 1) s)"
      by (auto simp: valid_utf8.simps(2) split: if_splits)
    have m: "decode_rune (take w (c # s) @ u) = (r, w) \<and> encode_rune r = take w (c # s) \<and> 2 \<le> w \<and>
        w \<le> length (c # s)" for u
      using decode_rune_multi [OF rw ok] False by simp
    have "parse_string (print_chars html (drop (w - 1) s) @ t) = Some (drop (w - 1) s, t)"
      using 2(2) [OF False rw [symmetric] refl] v by simp
    moreover have "take w (c # s) = c # take (w - 1) s" using m [of "[]"] by (cases w) auto
    moreover have "min (length s) (w - Suc 0) = w - Suc 0" using m [of "[]"] by auto
    moreover have "c \<noteq> quote" "c \<noteq> backslash" using False quote_small by auto
    ultimately show ?thesis
      using m rw ok False parse_escape_rune [of r]
      by (auto simp: print_chars.simps(2) [of html c] parse_string.simps(2) [of c] Let_def)
  qed
qed


section \<open>Values\<close>

text \<open>What may follow a value: the end, a comma, a closing bracket or the line break that \<open>Encode\<close> writes.\<close>

definition value_end :: "bytes \<Rightarrow> bool" where
  "value_end t \<longleftrightarrow> t = [] \<or> hd t \<in> set (CHR 0x0A # '',}]'')"

lemma takeWhile_digits:
  "list_all is_digit d \<Longrightarrow> value_end t \<Longrightarrow> takeWhile is_digit (d @ t) = d"
  by (cases t) (auto simp: takeWhile_append list_all_iff value_end_def is_digit_def)

lemma format_nat_head: "0 < n \<Longrightarrow> hd (format_nat n) \<noteq> CHR ''0''"
proof (induction n rule: format_nat.induct)
  case (1 n)
  show ?case
  proof (cases "n < 10")
    case True
    then obtain k where "n = int k" "k \<in> {0, 1, 2, 3, 4, 5, 6, 7, 8, 9}"
      using 1(2) ten_cases by (metis nonneg_int_cases of_nat_less_iff of_nat_numeral order_less_imp_le)
    with 1(2) True show ?thesis by (auto simp: format_nat.simps digit_char_def)
  next
    case False
    with 1 have "hd (format_nat (n div 10)) \<noteq> CHR ''0''" by simp
    with False show ?thesis
      using format_nat_digits [of "n div 10"] by (simp add: format_nat.simps [of n])
  qed
qed

lemma parse_int_part_format:
  assumes "0 \<le> n" "value_end t"
  shows "parse_int_part (format_nat n @ t) = Some (format_nat n, t)"
proof (cases "n = 0")
  case True
  then show ?thesis by (simp add: parse_int_part_def format_nat.simps digit_char_def)
next
  case False
  with format_nat_head [of n] format_nat_digits [OF assms(1)] assms(1)
  obtain c r where c: "format_nat n = c # r" "c \<noteq> CHR ''0''" "is_digit c" "list_all is_digit (c # r)"
    by (cases "format_nat n") auto
  from takeWhile_digits [OF c(4) assms(2)] c show ?thesis
    by (simp add: parse_int_part_def digits_prefix_def)
qed

lemma parse_frac_end: "value_end t \<Longrightarrow> parse_frac t = Some ([], t)"
  by (cases t) (auto simp: parse_frac_def value_end_def)

lemma parse_exp_end: "value_end t \<Longrightarrow> parse_exp t = Some ([], t)"
  by (cases t) (auto simp: parse_exp_def value_end_def)

lemma parse_number_format: "value_end t \<Longrightarrow> parse_number (format_int n @ t) = Some (format_int n, t)"
proof (cases "n < 0")
  case False
  moreover obtain c r where "format_nat n = c # r" "is_digit c"
    using format_nat_digits [of n] False by (cases "format_nat n") auto
  moreover assume "value_end t"
  ultimately show ?thesis
    using is_digit_not_sign [of c] parse_int_part_format [of n t]
    by (simp add: parse_number_def format_int_def parse_frac_end parse_exp_end)
next
  case True
  assume "value_end t"
  then show ?thesis
    using True parse_int_part_format [of "- n" t]
    by (simp add: parse_number_def format_int_def parse_frac_end parse_exp_end)
qed

text \<open>The trees that the program encodes: integers, valid strings, arrays and objects, no deeper than \<open>d\<close> levels.\<close>

fun printable :: "int \<Rightarrow> json \<Rightarrow> bool" where
  "printable d (JNum l) \<longleftrightarrow> (\<exists>n. l = format_int n)"
| "printable d (JStr s) \<longleftrightarrow> valid_utf8 s"
| "printable d (JArr vs) \<longleftrightarrow> 0 < d \<and> list_all (printable (d - 1)) vs"
| "printable d (JObj ms) \<longleftrightarrow> 0 < d \<and> list_all (\<lambda>(k, v). valid_utf8 k \<and> printable (d - 1) v) ms"
| "printable d v \<longleftrightarrow> True"

lemma format_int_head:
  obtains c r where "format_int n = c # r" "is_digit c \<or> c = CHR ''-''"
proof (cases "format_int n")
  case Nil
  then show ?thesis using format_nat_digits [of n] by (auto simp: format_int_def split: if_splits)
next
  case (Cons c r)
  then show ?thesis
    using that format_nat_digits [of n] by (cases "n < 0") (auto simp: format_int_def)
qed

lemma printed_head:
  assumes "printable d v"
  obtains c r where "json_print h v = c # r" "\<not> is_ws c" "c \<noteq> CHR '']''"
proof (cases v)
  case (JNum l)
  with assms obtain n where "l = format_int n" by auto
  with JNum that show ?thesis
    by (cases rule: format_int_head [of n]) (auto simp: is_digit_def is_ws_def)
next
  case (JBool b)
  with that show ?thesis by (cases b) (auto simp: is_ws_def)
next
  case (JArr vs)
  with that show ?thesis by (cases "vs = []") (auto simp: is_ws_def)
next
  case (JObj ms)
  with that show ?thesis by (cases "ms = []") (auto simp: is_ws_def)
qed (use that in \<open>auto simp: is_ws_def quote_def\<close>)


text \<open>
  The round trip: with fuel for twice the printed length and enough depth, what the encoder
  writes is parsed back, and the rest of the input is left.
\<close>

lemma skip_ws_Cons: "\<not> is_ws c \<Longrightarrow> skip_ws (c # r) = c # r"
  by (simp add: skip_ws_def)

lemma not_ws [simp]: "\<not> is_ws quote" "\<not> is_ws CHR '',''" "\<not> is_ws CHR '':''" "\<not> is_ws CHR ''}''"
  "\<not> is_ws CHR '']''" "\<not> is_ws CHR ''{''" "\<not> is_ws CHR ''[''"
  by (auto simp: is_ws_def quote_def)

lemma value_end_simps [simp]:
  "value_end []" "value_end (CHR '','' # t)" "value_end (CHR ''}'' # t)" "value_end (CHR '']'' # t)"
  by (simp_all add: value_end_def)

lemma starts_Cons [simp]: "starts c (d # s) \<longleftrightarrow> d = c"
  by (simp add: starts_def)

lemma quote_neq [simp]: "quote \<noteq> CHR ''}''" "quote \<noteq> CHR ''{''" "quote \<noteq> CHR ''[''"
  by (simp_all add: quote_def)

lemma parse_print_leaf:
  assumes "value_end t" "printable d v" "2 * length (json_print h v) \<le> n"
    "\<And>ms. v \<noteq> JObj ms" "\<And>vs. v \<noteq> JArr vs"
  shows "parse_value n d (json_print h v @ t) = Some (v, t)"
proof (cases v)
  case (JNum l)
  then obtain k where l: "l = format_int k" using assms(2) by auto
  obtain c r where c: "format_int k = c # r" "is_digit c \<or> c = CHR ''-''" by (rule format_int_head)
  with assms(3) JNum l obtain m where n: "n = Suc m" by (cases n) auto
  have "\<not> is_ws c" "c \<notin> {CHR ''{'', CHR ''['', quote, CHR ''t'', CHR ''f'', CHR ''n''}"
    using c(2) by (auto simp: is_digit_def is_ws_def quote_def)
  then show ?thesis
    using parse_number_format [OF assms(1), of k] by (simp add: JNum l n c(1) skip_ws_Cons)
next
  case (JStr s)
  then obtain m where "n = Suc m" using assms(3) by (cases n) auto
  with JStr assms(2) parse_print_chars [of s h t] show ?thesis
    by (simp add: skip_ws_Cons)
next
  case JNull
  then obtain m where "n = Suc m" using assms(3) by (cases n) auto
  with JNull show ?thesis by (simp add: skip_ws_def is_ws_def quote_def strip_prefix_def)
next
  case (JBool b)
  then obtain m where "n = Suc m" using assms(3) by (cases n) (auto split: if_splits)
  with JBool show ?thesis by (simp add: skip_ws_def is_ws_def quote_def strip_prefix_def)
qed (use assms in auto)

lemma starts_quote: "starts quote (skip_ws (quote # s))" "\<not> starts CHR ''}'' (skip_ws (quote # s))"
  by (simp_all add: skip_ws_Cons)

lemma print_members_Cons:
  "ms \<noteq> [] \<Longrightarrow> \<exists>r. print_members h ms = quote # r"
  by (cases ms) auto

lemma parse_print_members:
  assumes "\<And>k v t n. (k, v) \<in> set ms \<Longrightarrow> value_end t \<Longrightarrow> printable d v \<Longrightarrow> 2 * length (json_print h v) \<le> n \<Longrightarrow>
      parse_value n d (json_print h v @ t) = Some (v, t)"
    and "ms \<noteq> []" "list_all (\<lambda>(k, v). valid_utf8 k \<and> printable d v) ms" "2 * length (print_members h ms) \<le> n"
  shows "parse_members n d (print_members h ms @ t) = Some (ms, t)"
  using assms
proof (induction ms arbitrary: n)
  case (Cons m ms)
  obtain k v where m: "m = (k, v)" by fastforce
  obtain i where n: "n = Suc i" using Cons.prems(4) m by (cases n) auto
  let ?e = "(if ms = [] then ''}'' else CHR '','' # print_members h ms) @ t"
  have k: "parse_string (print_chars h k @ CHR '':'' # json_print h v @ ?e) = Some (k, CHR '':'' # json_print h v @ ?e)"
    using Cons.prems(3) m by (simp add: parse_print_chars)
  have v: "parse_value i d (json_print h v @ ?e) = Some (v, ?e)"
    using Cons.prems(3,4) m n
    by (intro Cons.prems(1) [of k v]) (auto split: if_splits)
  have t: "ms = [] \<or> parse_members i d (print_members h ms @ t) = Some (ms, t)"
  proof (cases "ms = []")
    case False
    moreover have "\<And>k v t n. (k, v) \<in> set ms \<Longrightarrow> value_end t \<Longrightarrow> printable d v \<Longrightarrow>
        2 * length (json_print h v) \<le> n \<Longrightarrow> parse_value n d (json_print h v @ t) = Some (v, t)"
      using Cons.prems(1) by auto
    ultimately show ?thesis using Cons.prems(3,4) m n Cons.IH [of i] by simp
  qed simp
  have s: "starts quote (skip_ws (quote # x))" "tl (skip_ws (quote # x)) = x"
    "starts CHR '':'' (skip_ws (CHR '':'' # x))" "tl (skip_ws (CHR '':'' # x)) = x" for x
    by (simp_all add: skip_ws_Cons)
  show ?case
    using k v t by (cases "ms = []") (simp_all add: m n s skip_ws_Cons)
qed simp

lemma parse_print_elems:
  assumes "\<And>v t n. v \<in> set vs \<Longrightarrow> value_end t \<Longrightarrow> printable d v \<Longrightarrow> 2 * length (json_print h v) \<le> n \<Longrightarrow>
      parse_value n d (json_print h v @ t) = Some (v, t)"
    and "vs \<noteq> []" "list_all (printable d) vs" "2 * length (print_elems h vs) \<le> n"
  shows "parse_elems n d (print_elems h vs @ t) = Some (vs, t)"
  using assms
proof (induction vs arbitrary: n)
  case (Cons v vs)
  obtain i where n: "n = Suc i" using Cons.prems(4) by (cases n) (auto split: if_splits)
  let ?e = "(if vs = [] then '']'' else CHR '','' # print_elems h vs) @ t"
  have v: "parse_value i d (json_print h v @ ?e) = Some (v, ?e)"
    using Cons.prems(3,4) n by (intro Cons.prems(1)) (auto split: if_splits)
  have "vs = [] \<or> parse_elems i d (print_elems h vs @ t) = Some (vs, t)"
  proof (cases "vs = []")
    case False
    moreover have "\<And>v t n. v \<in> set vs \<Longrightarrow> value_end t \<Longrightarrow> printable d v \<Longrightarrow>
        2 * length (json_print h v) \<le> n \<Longrightarrow> parse_value n d (json_print h v @ t) = Some (v, t)"
      using Cons.prems(1) by auto
    ultimately show ?thesis using Cons.prems(3,4) n Cons.IH [of i] by simp
  qed simp
  with v show ?case by (cases "vs = []") (simp_all add: n skip_ws_Cons)
qed simp

lemma json_size_elem: "v \<in> set vs \<Longrightarrow> size v < size (JArr vs)"
  by (induction vs) auto

lemma json_size_member: "(k, v) \<in> set ms \<Longrightarrow> size v < size (JObj ms)"
  by (induction ms) auto

lemma parse_print:
  "value_end t \<Longrightarrow> printable d v \<Longrightarrow> 2 * length (json_print h v) \<le> n \<Longrightarrow>
   parse_value n d (json_print h v @ t) = Some (v, t)"
proof (induction "size v" arbitrary: v n d t rule: less_induct)
  case less
  show ?case
  proof (cases "\<exists>ms. v = JObj ms")
    case True
    then obtain ms where v: "v = JObj ms" by auto
    with less.prems(3) obtain m where n: "n = Suc m" by (cases n) (auto split: if_splits)
    have d: "0 < d" using less.prems(2) v by simp
    show ?thesis
    proof (cases "ms = []")
      case True
      with v n d show ?thesis by (simp add: skip_ws_Cons)
    next
      case False
      then obtain r where r: "print_members h ms = quote # r" using print_members_Cons by blast
      have "parse_members m (d - 1) (print_members h ms @ t) = Some (ms, t)"
        using less.prems(2,3) v n False less.hyps json_size_member
        by (intro parse_print_members) auto
      with v n d False r show ?thesis by (simp add: skip_ws_Cons starts_quote)
    qed
  next
    case obj: False
    show ?thesis
    proof (cases "\<exists>vs. v = JArr vs")
      case True
      then obtain vs where v: "v = JArr vs" by auto
      with less.prems(3) obtain m where n: "n = Suc m" by (cases n) (auto split: if_splits)
      have d: "0 < d" using less.prems(2) v by simp
      show ?thesis
      proof (cases "vs = []")
        case True
        with v n d show ?thesis by (simp add: skip_ws_Cons)
      next
        case False
        then obtain w ws where w: "vs = w # ws" by (cases vs) auto
        moreover have "printable (d - 1) w" using less.prems(2) v w by simp
        then obtain c r where "json_print h w = c # r" "\<not> is_ws c" "c \<noteq> CHR '']''" by (rule printed_head)
        ultimately have "\<not> starts CHR '']'' (skip_ws (print_elems h vs @ t))" by (simp add: skip_ws_Cons)
        moreover have "parse_elems m (d - 1) (print_elems h vs @ t) = Some (vs, t)"
          using less.prems(2,3) v n False less.hyps json_size_elem
          by (intro parse_print_elems) auto
        ultimately show ?thesis using v n d False by (simp add: skip_ws_Cons)
      qed
    qed (use less.prems obj parse_print_leaf in auto)
  qed
qed

text \<open>The three forms in which the other theories use it.\<close>

lemma json_parse_print: "printable max_depth v \<Longrightarrow> json_parse (json_print h v) = Some v"
  using parse_print [of "[]" max_depth v h "2 * length (json_print h v) + 2"]
  by (simp add: json_parse_def skip_ws_def)

lemma Unmarshal_print:
  "printable max_depth v \<Longrightarrow> Unmarshal f z (json_print h v) = decode_struct f z v"
  by (simp add: Unmarshal_def json_parse_print)

lemma Decode_print_line:
  assumes "printable max_depth v"
  shows "Decode f z (json_print h v @ [CHR 0x0A]) = decode_struct f z v"
proof -
  have "parse_value (2 * length (json_print h v @ [CHR 0x0A]) + 2) max_depth (json_print h v @ [CHR 0x0A])
      = Some (v, [CHR 0x0A])"
    by (rule parse_print) (simp_all only: assms value_end_def list.simps hd_conv_nth, simp_all)
  then show ?thesis by (simp only: Decode_def option.case prod.case)
qed

lemma Decode_print:
  "printable max_depth v \<Longrightarrow> Decode f z (json_print h v) = decode_struct f z v"
  using parse_print [of "[]" max_depth v h "2 * length (json_print h v) + 2"] by (simp add: Decode_def)

text \<open>Encoded integers and byte slices are read back.\<close>

lemma printable_enc [simp]: "printable d (enc_int n)"
  by (auto simp: enc_int_def)

lemma ascii_valid_utf8: "list_all (\<lambda>c. code c < 0x80) s \<Longrightarrow> valid_utf8 s"
  by (induction s) (auto simp: decode_rune_def rune_error_def valid_utf8.simps(2))

lemma printable_enc_bytes [simp]: "printable d (enc_bytes b)"
proof -
  have "\<forall>c\<in>insert CHR ''='' (set b64_std). code c < 0x80" by code_simp
  with set_StdEncode [of b] have "list_all (\<lambda>c. code c < 0x80) (StdEncode b)"
    unfolding list_all_iff by blast
  then show ?thesis by (simp add: enc_bytes_def ascii_valid_utf8)
qed

lemma dec_int64_enc [simp]: "in_i64 n \<Longrightarrow> dec_int64 old (enc_int n) = Some n"
  by (simp add: dec_int64_def enc_int_def)

lemma dec_bytes_enc [simp]: "dec_bytes old (enc_bytes b) = Some b"
  by (simp add: dec_bytes_def enc_bytes_def)

lemma dec_string_JStr [simp]: "dec_string old (JStr s) = Some s"
  by (simp add: dec_string_def)

end
