(* ===== verification/Http.thy ===== *)
theory Http
  imports JsonPrint LedgerTx
begin

text \<open>
  The parts of \<open>net/http\<close> that the handlers read and write: a request as the record of what
  they look at, a response as its status with the JSON it carries or the error that
  \<open>writeErr\<close> reports, and strings helpers (\<open>strings.SplitN\<close> at a dot, \<open>hmac\<close>).
\<close>

record request =
  rq_method :: bytes
  rq_host :: bytes
  rq_path :: bytes
  rq_header :: "bytes \<Rightarrow> bytes"
  rq_cookie :: "bytes \<Rightarrow> bytes option"
  rq_query :: "bytes \<Rightarrow> bytes"
  rq_body :: bytes

text \<open>\<open>rq_header\<close> and \<open>rq_query\<close> give the empty string for a name that is absent, as \<open>Get\<close> does.\<close>

datatype response =
    Reply int json
  | Fail int err

fun status :: "response \<Rightarrow> int" where
  "status (Reply c _) = c"
| "status (Fail c _) = c"

definition enc_hex :: "bytes \<Rightarrow> json" where "enc_hex b = JStr (hex_encode b)"

lemma hex_encode_Nil [simp]: "hex_encode b = [] \<longleftrightarrow> b = []"
  by (cases b) auto

text \<open>Hexadecimal and base64 are ASCII.\<close>

lemma hex_ascii: "list_all (\<lambda>c. code c < 0x80) (hex_encode b)"
proof -
  have "\<forall>c\<in>set ''0123456789abcdef''. code c < 0x80" by code_simp
  then show ?thesis using set_hex_encode [of b] unfolding list_all_iff by (meson subsetD)
qed

lemma RawURL_ascii: "list_all (\<lambda>c. code c < 0x80) (RawURLEncode b)"
proof -
  have "\<forall>c\<in>set b64_url. code c < 0x80" by code_simp
  then show ?thesis using set_RawURLEncode [of b] unfolding list_all_iff by (meson subsetD)
qed

lemma hex_valid_utf8 [simp]: "valid_utf8 (hex_encode b)"
  by (rule ascii_valid_utf8) (rule hex_ascii)

text \<open>\<open>hex.DecodeString\<close> with its error ignored: the bytes decoded before the first bad digit.\<close>

fun hex_decode_prefix :: "bytes \<Rightarrow> bytes" where
  "hex_decode_prefix (h # l # r) =
     (case (from_hex_digit h, from_hex_digit l) of
        (Some x, Some y) \<Rightarrow> byte (16 * x + y) # hex_decode_prefix r
      | _ \<Rightarrow> [])"
| "hex_decode_prefix _ = []"

lemma hex_decode_prefix_eq: "hex_decode s = Some b \<Longrightarrow> hex_decode_prefix s = b"
  by (induction s arbitrary: b rule: hex_decode.induct) (auto split: option.splits)

lemma hex_decode_prefix_encode [simp]: "hex_decode_prefix (hex_encode b) = b"
  by (rule hex_decode_prefix_eq) simp

text \<open>The digits of \<open>strconv.Atoi\<close> and of \<open>ParseInt\<close> are read alike on 64 bits.\<close>

definition Atoi :: "bytes \<Rightarrow> int option" where
  "Atoi s = ParseInt s"

text \<open>
  The number that \<open>ParseInt\<close> returns when its error is ignored: 0 for a syntax error, the nearest
  \<open>int64\<close> for a number out of range.
\<close>

definition ParseInt_value :: "bytes \<Rightarrow> int" where
  "ParseInt_value s =
     (case ParseInt s of
        Some n \<Rightarrow> n
      | None \<Rightarrow>
          (let neg = (s \<noteq> [] \<and> hd s = CHR ''-'');
               digits = (if s \<noteq> [] \<and> hd s \<in> set ''+-'' then tl s else s)
           in if parse_uint digits = None then 0 else if neg then - (2 ^ 63) else 2 ^ 63 - 1))"

text \<open>A \<open>limit\<close> parameter: the default unless it is a number from 1 to \<open>most\<close>.\<close>

definition limit_param :: "int \<Rightarrow> int \<Rightarrow> bytes \<Rightarrow> int" where
  "limit_param dflt most l =
     (if l \<noteq> [] then (case Atoi l of Some n \<Rightarrow> if 0 < n \<and> n \<le> most then n else dflt | None \<Rightarrow> dflt)
      else dflt)"

lemma limit_param_bounds: "0 < dflt \<Longrightarrow> dflt \<le> most \<Longrightarrow> 0 < limit_param dflt most l \<and> limit_param dflt most l \<le> most"
  by (auto simp: limit_param_def split: option.splits)

end
