(* ===== verification/TxLog.thy ===== *)
theory TxLog
  imports PgStore MerkleProperties Http
begin

text \<open>
  \<open>internal/txlog/service.go\<close>: the Merkle log over the transactions table. The leaves are the
  transaction hashes; a cached snapshot is extended by the rows that were added; a signed tree
  head is stored once per tree size. The signature scheme is given by \<open>sign\<close> and \<open>ed\<close>.
\<close>

section \<open>State\<close>

record merkleSnapshot =
  ms_TreeSize :: int
  ms_TxHashes :: "bytes list"
  ms_LeafHashes :: "bytes list"
  ms_RootHash :: bytes

record LogService =
  ls_AdminPrivKey :: bytes
  ls_AdminPubKey :: bytes
  ls_snapshot :: "merkleSnapshot option"

text \<open>A row of the \<open>checkpoints\<close> table, keyed by its tree size.\<close>

record checkpoint =
  cp_root_hash :: bytes
  cp_timestamp_ms :: int
  cp_admin_sig :: bytes
  cp_admin_pubkey :: "bytes option"
  cp_ots_receipt :: "bytes option"

type_synonym checkpoints = "(int \<times> checkpoint) list"

record STH =
  sth_TreeSize :: int
  sth_RootHash :: bytes
  sth_TimestampMS :: int
  sth_AdminSig :: bytes
  sth_AdminPubKey :: bytes

record LeafRecord =
  lr_LeafIndex :: int
  lr_TxType :: bytes
  lr_Payload :: bytes
  lr_Sig :: bytes
  lr_Signer :: bytes
  lr_PrevHash :: bytes
  lr_TxHash :: bytes

section \<open>Queries\<close>

text \<open>\<open>WHERE from <= leaf_index < to ORDER BY leaf_index\<close>.\<close>

definition leaf_rows :: "pgdb \<Rightarrow> int \<Rightarrow> int \<Rightarrow> TxRow list" where
  "leaf_rows db start to =
     sort_key LeafIndex (filter (\<lambda>r. start \<le> LeafIndex r \<and> LeafIndex r < to) (transactions db))"

text \<open>
  PostgreSQL's \<open>encode(b, 'base64')\<close> breaks the line after every 76 digits, that is after every
  57 bytes.
\<close>

function pg_base64 :: "bytes \<Rightarrow> bytes" where
  "pg_base64 b =
     (if length b < 57 then StdEncode b else StdEncode (take 57 b) @ CHR 0x0A # pg_base64 (drop 57 b))"
  by pat_completeness auto
termination by (relation "measure length") auto

declare pg_base64.simps [simp del]

definition leaf_record :: "TxRow \<Rightarrow> LeafRecord" where
  "leaf_record r =
     \<lparr>lr_LeafIndex = LeafIndex r, lr_TxType = Type r, lr_Payload = pg_base64 (Payload r),
      lr_Sig = hex_encode (Sig r), lr_Signer = hex_encode (Signer r),
      lr_PrevHash = hex_encode (PrevHash r), lr_TxHash = hex_encode (TxHash r)\<rparr>"

definition RangeLeaves :: "pgdb \<Rightarrow> int \<Rightarrow> int \<Rightarrow> LeafRecord list" where
  "RangeLeaves db start to =
     map leaf_record (take 10000
       (sort_key LeafIndex (filter (\<lambda>r. start \<le> LeafIndex r \<and> (to < 0 \<or> LeafIndex r < to)) (transactions db))))"

definition CurrentTreeSize :: "pgdb \<Rightarrow> err + int" where
  "CurrentTreeSize db =
     (case max_leaf (transactions db) of
        None \<Rightarrow> Inr 0
      | Some r \<Rightarrow> if in_i64 (LeafIndex r + 1) then Inr (LeafIndex r + 1) else Inl (pg_error ''bigint out of range''))"

section \<open>Snapshots\<close>

text \<open>
  The loop over the rows from index \<open>next\<close> on: the hashes collected and the index reached.
\<close>

fun collect_rows :: "int \<Rightarrow> TxRow list \<Rightarrow> err + bytes list \<times> int" where
  "collect_rows nxt [] = Inr ([], nxt)"
| "collect_rows nxt (r # rs) =
     (if LeafIndex r \<noteq> nxt then Inl (Errorf ''transaction log gap'')
      else and_then (collect_rows (nxt + 1) rs) (\<lambda>(hs, n). Inr (TxHash r # hs, n)))"

text \<open>
  \<open>merkleSnapshot\<close> holds the lock while it looks at the cache, gives it up while it reads the
  table, and takes it again to store what it made. \<open>from_cache\<close>, \<open>extend_snapshot\<close> and
  \<open>store_snapshot\<close> are these three parts; other calls may come between them.
\<close>

definition from_cache :: "merkleSnapshot option \<Rightarrow> int \<Rightarrow> merkleSnapshot option" where
  "from_cache cached target =
     (case cached of
        Some c \<Rightarrow>
          if target \<le> ms_TreeSize c then
            Some \<lparr>ms_TreeSize = target, ms_TxHashes = take (nat target) (ms_TxHashes c),
                  ms_LeafHashes = take (nat target) (ms_LeafHashes c),
                  ms_RootHash = RootFromLeafHashes (take (nat target) (ms_LeafHashes c))\<rparr>
          else None
      | None \<Rightarrow> None)"

definition extend_snapshot :: "merkleSnapshot option \<Rightarrow> pgdb \<Rightarrow> int \<Rightarrow> err + merkleSnapshot" where
  "extend_snapshot cached db target =
     (let start = (case cached of Some c \<Rightarrow> ms_TreeSize c | None \<Rightarrow> 0);
          old = (case cached of Some c \<Rightarrow> ms_TxHashes c | None \<Rightarrow> []);
          oldLeaves = (case cached of Some c \<Rightarrow> ms_LeafHashes c | None \<Rightarrow> []);
          found = (if start < target then
                     and_then (collect_rows start (leaf_rows db start target)) (\<lambda>(hs, n).
                       if n \<noteq> target then Inl (Errorf ''transaction log ended'') else Inr hs)
                   else Inr [])
      in and_then found (\<lambda>hs.
           Inr \<lparr>ms_TreeSize = target, ms_TxHashes = old @ hs, ms_LeafHashes = oldLeaves @ map LeafHash hs,
                ms_RootHash = RootFromLeafHashes (oldLeaves @ map LeafHash hs)\<rparr>))"

definition store_snapshot :: "LogService \<Rightarrow> merkleSnapshot \<Rightarrow> LogService" where
  "store_snapshot s snap =
     (case ls_snapshot s of
        Some c \<Rightarrow> if ms_TreeSize snap \<ge> ms_TreeSize c then s\<lparr>ls_snapshot := Some snap\<rparr> else s
      | None \<Rightarrow> s\<lparr>ls_snapshot := Some snap\<rparr>)"

definition snapshot_of :: "LogService \<Rightarrow> pgdb \<Rightarrow> int \<Rightarrow> (err + merkleSnapshot) \<times> LogService" where
  "snapshot_of s db treeSize =
     (case (if treeSize < 0 then CurrentTreeSize db else Inr treeSize) of
        Inl e \<Rightarrow> (Inl e, s)
      | Inr target \<Rightarrow>
          (if target < 0 then (Inl (Errorf ''bad tree size''), s)
           else case from_cache (ls_snapshot s) target of
             Some out \<Rightarrow> (Inr out, s)
           | None \<Rightarrow>
               (case extend_snapshot (ls_snapshot s) db target of
                  Inl e \<Rightarrow> (Inl e, s)
                | Inr snap \<Rightarrow> (Inr snap, store_snapshot s snap))))"

definition AllTxHashes :: "LogService \<Rightarrow> pgdb \<Rightarrow> (err + bytes list) \<times> LogService" where
  "AllTxHashes s db = (case snapshot_of s db (-1) of (r, s) \<Rightarrow> (and_then r (\<lambda>snap. Inr (ms_TxHashes snap)), s))"

definition LeafHashes :: "LogService \<Rightarrow> pgdb \<Rightarrow> int \<Rightarrow> (err + bytes list) \<times> LogService" where
  "LeafHashes s db treeSize =
     (case snapshot_of s db treeSize of (r, s) \<Rightarrow> (and_then r (\<lambda>snap. Inr (ms_LeafHashes snap)), s))"

section \<open>Signed tree heads\<close>

definition signedSTHBytes :: "int \<Rightarrow> bytes \<Rightarrow> int \<Rightarrow> bytes" where
  "signedSTHBytes treeSize rootHash tsMS =
     ''fp.sth.v1|'' @ format_int treeSize @ ''|'' @ hex_encode rootHash @ ''|'' @ format_int tsMS"

text \<open>
  \<open>checkpointPubKey\<close> returns the key stored with a checkpoint; a checkpoint of the time before
  the key was stored gets the current key, if its signature verifies with that.
\<close>

definition checkpointPubKey ::
  "(bytes \<Rightarrow> bytes \<Rightarrow> bytes \<Rightarrow> bool) \<Rightarrow> LogService \<Rightarrow> checkpoints \<Rightarrow> int \<Rightarrow> bytes \<Rightarrow> int \<Rightarrow> bytes \<Rightarrow> bytes \<Rightarrow>
   err + bytes \<times> checkpoints" where
  "checkpointPubKey ed s cps treeSize root tsMS sig storedPub =
     (if 0 < length storedPub then Inr (storedPub, cps)
      else if \<not> ed (ls_AdminPubKey s) (signedSTHBytes treeSize root tsMS) sig
        then Inl (Errorf ''checkpoint has no stored admin_pubkey and does not verify with current admin key'')
      else Inr (ls_AdminPubKey s,
             AList.map_entry treeSize (\<lambda>c. if cp_admin_pubkey c = None
               then c\<lparr>cp_admin_pubkey := Some (ls_AdminPubKey s)\<rparr> else c) cps))"

definition stored_pub :: "checkpoint \<Rightarrow> bytes" where
  "stored_pub c = (case cp_admin_pubkey c of Some k \<Rightarrow> k | None \<Rightarrow> [])"

text \<open>\<open>INSERT ... ON CONFLICT (tree_size) DO NOTHING\<close>, then the row that is there.\<close>

definition insert_checkpoint :: "checkpoints \<Rightarrow> int \<Rightarrow> checkpoint \<Rightarrow> checkpoint \<times> checkpoints" where
  "insert_checkpoint cps treeSize new =
     (case map_of cps treeSize of
        None \<Rightarrow> (new, AList.update treeSize new cps)
      | Some c \<Rightarrow> (c, cps))"

definition persistCheckpoint ::
  "(bytes \<Rightarrow> bytes \<Rightarrow> bytes \<Rightarrow> bool) \<Rightarrow> (bytes \<Rightarrow> bytes \<Rightarrow> bytes) \<Rightarrow> LogService \<Rightarrow> int \<Rightarrow> checkpoints \<Rightarrow> int \<Rightarrow> bytes \<Rightarrow>
   (err + STH) \<times> checkpoints" where
  "persistCheckpoint ed sign s ts cps treeSize root =
     (let sig = sign (ls_AdminPrivKey s) (signedSTHBytes treeSize root ts);
          new = \<lparr>cp_root_hash = root, cp_timestamp_ms = ts, cp_admin_sig = sig,
                 cp_admin_pubkey = Some (ls_AdminPubKey s), cp_ots_receipt = None\<rparr>;
          (c, cps) = insert_checkpoint cps treeSize new
      in if cp_root_hash c \<noteq> root then (Inl (Errorf ''checkpoint has another root''), cps)
         else case checkpointPubKey ed s cps treeSize (cp_root_hash c) (cp_timestamp_ms c) (cp_admin_sig c) (stored_pub c) of
           Inl e \<Rightarrow> (Inl e, cps)
         | Inr (pub, cps) \<Rightarrow>
             (Inr \<lparr>sth_TreeSize = treeSize, sth_RootHash = hex_encode (cp_root_hash c),
                   sth_TimestampMS = cp_timestamp_ms c, sth_AdminSig = hex_encode (cp_admin_sig c),
                   sth_AdminPubKey = hex_encode pub\<rparr>, cps))"

definition CurrentSTH ::
  "(bytes \<Rightarrow> bytes \<Rightarrow> bytes \<Rightarrow> bool) \<Rightarrow> (bytes \<Rightarrow> bytes \<Rightarrow> bytes) \<Rightarrow> LogService \<Rightarrow> pgdb \<Rightarrow> int \<Rightarrow> checkpoints \<Rightarrow>
   (err + STH) \<times> LogService \<times> checkpoints" where
  "CurrentSTH ed sign s db ts cps =
     (case snapshot_of s db (-1) of
        (Inl e, s) \<Rightarrow> (Inl e, s, cps)
      | (Inr snap, s) \<Rightarrow>
          (case persistCheckpoint ed sign s ts cps (ms_TreeSize snap) (ms_RootHash snap) of
             (r, cps) \<Rightarrow> (r, s, cps)))"

record CheckpointSummary = STH +
  cs_HasOTSReceipt :: bool

text \<open>The loop of \<open>Checkpoints\<close>, which may fill in keys as it goes.\<close>

fun summarise ::
  "(bytes \<Rightarrow> bytes \<Rightarrow> bytes \<Rightarrow> bool) \<Rightarrow> LogService \<Rightarrow> checkpoints \<Rightarrow> (int \<times> checkpoint) list \<Rightarrow>
   (err + CheckpointSummary list) \<times> checkpoints" where
  "summarise ed s cps [] = (Inr [], cps)"
| "summarise ed s cps ((sz, c) # rows) =
     (case checkpointPubKey ed s cps sz (cp_root_hash c) (cp_timestamp_ms c) (cp_admin_sig c) (stored_pub c) of
        Inl e \<Rightarrow> (Inl e, cps)
      | Inr (pub, cps) \<Rightarrow>
          (case summarise ed s cps rows of
             (r, cps) \<Rightarrow>
               (and_then r (\<lambda>out. Inr (
                  \<lparr>sth_TreeSize = sz, sth_RootHash = hex_encode (cp_root_hash c),
                   sth_TimestampMS = cp_timestamp_ms c, sth_AdminSig = hex_encode (cp_admin_sig c),
                   sth_AdminPubKey = hex_encode pub, cs_HasOTSReceipt = (cp_ots_receipt c \<noteq> None)\<rparr> # out)), cps)))"

definition Checkpoints ::
  "(bytes \<Rightarrow> bytes \<Rightarrow> bytes \<Rightarrow> bool) \<Rightarrow> LogService \<Rightarrow> checkpoints \<Rightarrow> int \<Rightarrow> (err + CheckpointSummary list) \<times> checkpoints" where
  "Checkpoints ed s cps limit =
     (let limit = (if limit \<le> 0 \<or> limit > 500 then 50 else limit)
      in summarise ed s cps (take (nat limit) (rev (sort_key fst cps))))"


section \<open>Facts\<close>

text \<open>The line breaks of PostgreSQL do not disturb Go's decoder.\<close>

lemma b64_encode_append:
  "length x = 3 * k \<Longrightarrow> b64_encode al pad (x @ y) = b64_encode al pad x @ b64_encode al pad y"
proof (induction k arbitrary: x)
  case (Suc k)
  then obtain a b c r where "x = a # b # c # r" "length r = 3 * k"
    by (auto simp: length_Suc_conv numeral_eq_Suc)
  with Suc.IH show ?case by simp
qed simp

lemma filter_StdEncode: "filter (\<lambda>c. c \<noteq> CHR 0x0D \<and> c \<noteq> CHR 0x0A) (StdEncode b) = StdEncode b"
  using set_b64_encode [OF alphabet_std, of True b] alphabet_std
  by (intro filter_True) (auto simp: alphabet_def StdEncode_def)

lemma StdDecode_pg_base64 [simp]: "StdDecode (pg_base64 b) = Some b"
proof -
  have "filter (\<lambda>c. c \<noteq> CHR 0x0D \<and> c \<noteq> CHR 0x0A) (pg_base64 b) = StdEncode b"
  proof (induction b rule: pg_base64.induct)
    case (1 b)
    show ?case
    proof (cases "length b < 57")
      case False
      then have "StdEncode (take 57 b) @ StdEncode (drop 57 b) = StdEncode b"
        using b64_encode_append [of "take 57 b" 19 b64_std True "drop 57 b"] by (simp add: StdEncode_def)
      with 1 False show ?thesis by (simp add: pg_base64.simps [of b] filter_StdEncode)
    qed (simp add: pg_base64.simps [of b] filter_StdEncode)
  qed
  then have "StdDecode (pg_base64 b) = b64_decode_digits b64_std True (StdEncode b)"
    by (simp add: StdDecode_def b64_decode_def)
  also have "\<dots> = StdDecode (StdEncode b)"
    by (simp add: StdDecode_def b64_decode_def filter_StdEncode)
  finally show ?thesis by simp
qed

text \<open>A table whose rows are numbered from 0 on, in order.\<close>

definition numbered :: "nat \<Rightarrow> TxRow list \<Rightarrow> bool" where
  "numbered k rows \<longleftrightarrow> (\<forall>i<length rows. LeafIndex (rows ! i) = int (k + i))"

lemma numbered_Cons: "numbered k (r # rs) \<longleftrightarrow> LeafIndex r = int k \<and> numbered (Suc k) rs"
  by (auto simp: numbered_def nth_Cons split: nat.splits)

lemma numbered_view: "indexed (pg_view db) \<longleftrightarrow> numbered 0 (transactions db)"
  by (auto simp: indexed_def numbered_def)

lemma numbered_sorted: "numbered k rows \<Longrightarrow> sorted (map LeafIndex rows)"
  by (auto simp: numbered_def sorted_iff_nth_mono)

lemma sort_numbered: "numbered k rows \<Longrightarrow> sort_key LeafIndex (filter P rows) = filter P rows"
  using numbered_sorted sorted_filter [of LeafIndex rows P] by (simp add: sort_key_id_if_sorted)

lemma filter_numbered:
  "numbered k rows \<Longrightarrow> a \<le> b \<Longrightarrow>
   filter (\<lambda>r. int a \<le> LeafIndex r \<and> LeafIndex r < int b) rows = take (b - max a k) (drop (a - k) rows)"
proof (induction rows arbitrary: k)
  case (Cons r rs)
  then have r: "LeafIndex r = int k" "numbered (Suc k) rs" by (simp_all add: numbered_Cons)
  note IH = Cons.IH [OF r(2) Cons.prems(2)]
  consider "k < a" | "a \<le> k" "k < b" | "b \<le> k" "a \<le> k" using Cons.prems(2) by linarith
  then show ?case
  proof cases
    case 1
    then have "drop (a - k) (r # rs) = drop (a - Suc k) rs" "max a k = max a (Suc k)"
      by (simp_all add: drop_Cons' )
    with 1 r IH show ?thesis by simp
  next
    case 2
    then have "b - k = Suc (b - Suc k)" by simp
    with 2 r IH show ?thesis by (simp add: max_def)
  qed (use r IH in \<open>simp add: max_def\<close>)
qed simp

lemma leaf_rows_numbered:
  assumes "numbered 0 (transactions db)" "a \<le> b"
  shows "leaf_rows db (int a) (int b) = take (b - a) (drop a (transactions db))"
  unfolding leaf_rows_def sort_numbered [OF assms(1)] using filter_numbered [OF assms] by simp

lemma collect_rows_numbered:
  "numbered k rows \<Longrightarrow> collect_rows (int k) rows = Inr (map TxHash rows, int (k + length rows))"
proof (induction rows arbitrary: k)
  case (Cons r rs)
  then show ?case using Cons.IH [of "Suc k"] by (simp add: numbered_Cons add.commute)
qed simp

lemma numbered_take_drop: "numbered k rows \<Longrightarrow> numbered (k + a) (take n (drop a rows))"
  by (auto simp: numbered_def)

lemma CurrentTreeSize_numbered:
  assumes "numbered 0 (transactions db)" "int (length (transactions db)) < 2 ^ 63"
  shows "CurrentTreeSize db = Inr (int (length (transactions db)))"
proof (cases "transactions db = []")
  case False
  have "sorted_wrt (<) (map LeafIndex (transactions db))"
    using assms(1) by (auto simp: numbered_def sorted_wrt_iff_nth_less)
  moreover have "LeafIndex (last (transactions db)) = int (length (transactions db)) - 1"
    using assms(1) False by (simp add: numbered_def last_conv_nth of_nat_diff Suc_le_eq)
  ultimately show ?thesis
    using False assms(2) by (simp add: CurrentTreeSize_def max_leaf_sorted in_i64_def)
qed (simp add: CurrentTreeSize_def max_leaf_def)


section \<open>Snapshots are what a recomputation gives\<close>

definition snap_at :: "pgdb \<Rightarrow> nat \<Rightarrow> merkleSnapshot" where
  "snap_at db n =
     (let hs = map TxHash (take n (transactions db))
      in \<lparr>ms_TreeSize = int n, ms_TxHashes = hs, ms_LeafHashes = map LeafHash hs, ms_RootHash = Root hs\<rparr>)"

definition snap_ok :: "pgdb \<Rightarrow> merkleSnapshot option \<Rightarrow> bool" where
  "snap_ok db c \<longleftrightarrow> (\<forall>x. c = Some x \<longrightarrow> (\<exists>n\<le>length (transactions db). x = snap_at db n))"

lemma snap_at_size [simp]: "ms_TreeSize (snap_at db n) = int n"
  by (simp add: snap_at_def Let_def)

lemma from_cache_snap:
  assumes "snap_ok db c" "from_cache c (int n) = Some out"
  shows "out = snap_at db n \<and> n \<le> length (transactions db)"
proof -
  obtain x where x: "c = Some x" "int n \<le> ms_TreeSize x"
    using assms(2) by (auto simp: from_cache_def split: option.splits if_splits)
  then obtain m where m: "m \<le> length (transactions db)" "x = snap_at db m"
    using assms(1) by (auto simp: snap_ok_def)
  with x assms(2) show ?thesis
    by (auto simp: from_cache_def snap_at_def Let_def take_map min_def)
qed

lemma take_append_drop: "m \<le> n \<Longrightarrow> take m xs @ take (n - m) (drop m xs) = take n xs"
  by (metis le_add_diff_inverse take_add)

lemma extend_snap:
  assumes "snap_ok db c" "numbered 0 (transactions db)" "n \<le> length (transactions db)"
    and "\<And>x. c = Some x \<Longrightarrow> ms_TreeSize x < int n"
  shows "extend_snapshot c db (int n) = Inr (snap_at db n)"
proof -
  define m where "m = (case c of Some x \<Rightarrow> nat (ms_TreeSize x) | None \<Rightarrow> 0)"
  have c: "(case c of Some x \<Rightarrow> ms_TreeSize x | None \<Rightarrow> 0) = int m"
      "(case c of Some x \<Rightarrow> ms_TxHashes x | None \<Rightarrow> []) = map TxHash (take m (transactions db))"
      "(case c of Some x \<Rightarrow> ms_LeafHashes x | None \<Rightarrow> []) = map LeafHash (map TxHash (take m (transactions db)))"
    and m: "m \<le> n"
    using assms(1,4) by (auto simp: m_def snap_ok_def snap_at_def Let_def split: option.splits)
  have "collect_rows (int m) (leaf_rows db (int m) (int n)) =
      Inr (map TxHash (take (n - m) (drop m (transactions db))), int n)"
    using collect_rows_numbered [OF numbered_take_drop [OF assms(2), of m "n - m"]]
      leaf_rows_numbered [OF assms(2) m] assms(3) m by simp
  moreover have "take m (transactions db) @ take (n - m) (drop m (transactions db)) = take n (transactions db)"
    by (rule take_append_drop [OF m])
  ultimately show ?thesis
    unfolding extend_snapshot_def c
    using m by (auto simp: snap_at_def Let_def simp flip: map_append)
qed

lemma store_snap_ok:
  "snap_ok db (ls_snapshot s) \<Longrightarrow> n \<le> length (transactions db) \<Longrightarrow>
   snap_ok db (ls_snapshot (store_snapshot s (snap_at db n)))"
  by (auto simp: store_snapshot_def snap_ok_def split: option.splits)

text \<open>The index a request resolves to: the current size for a negative argument.\<close>

definition resolved :: "pgdb \<Rightarrow> int \<Rightarrow> nat" where
  "resolved db treeSize = (if treeSize < 0 then length (transactions db) else nat treeSize)"

lemma snapshot_of_snap:
  assumes "snap_ok db (ls_snapshot s)" "numbered 0 (transactions db)"
    and "int (length (transactions db)) < 2 ^ 63" "treeSize \<le> int (length (transactions db))"
  shows "\<exists>s'. snapshot_of s db treeSize = (Inr (snap_at db (resolved db treeSize)), s') \<and>
    snap_ok db (ls_snapshot s') \<and> ls_AdminPubKey s' = ls_AdminPubKey s \<and> ls_AdminPrivKey s' = ls_AdminPrivKey s"
proof -
  let ?n = "resolved db treeSize"
  have n: "?n \<le> length (transactions db)" using assms(4) by (auto simp: resolved_def)
  have t: "(if treeSize < 0 then CurrentTreeSize db else Inr treeSize) = Inr (int ?n)"
    using CurrentTreeSize_numbered [OF assms(2,3)] by (simp add: resolved_def)
  show ?thesis
  proof (cases "from_cache (ls_snapshot s) (int ?n)")
    case (Some out)
    with from_cache_snap [OF assms(1) Some] t assms(1) show ?thesis by (simp add: snapshot_of_def)
  next
    case None
    then have "ls_snapshot s = Some x \<Longrightarrow> ms_TreeSize x < int ?n" for x
      by (auto simp: from_cache_def split: if_splits)
    with extend_snap [OF assms(1,2) n] None t store_snap_ok [OF assms(1) n] show ?thesis
      by (auto simp: snapshot_of_def store_snapshot_def split: option.splits)
  qed
qed

lemma snapshot_of_beyond:
  assumes "snap_ok db (ls_snapshot s)" "numbered 0 (transactions db)" "int (length (transactions db)) < treeSize"
  shows "\<exists>e. snapshot_of s db treeSize = (Inl e, s)"
proof -
  define m where "m = (case ls_snapshot s of Some x \<Rightarrow> nat (ms_TreeSize x) | None \<Rightarrow> 0)"
  have m: "m \<le> length (transactions db)" "(case ls_snapshot s of Some x \<Rightarrow> ms_TreeSize x | None \<Rightarrow> 0) = int m"
    and c: "from_cache (ls_snapshot s) treeSize = None"
    using assms(1,3) by (auto simp: m_def snap_ok_def from_cache_def split: option.splits)
  have t: "treeSize = int (nat treeSize)" "m \<le> nat treeSize" "int m < treeSize" using assms(3) m by auto
  have "leaf_rows db (int m) treeSize = drop m (transactions db)"
    using leaf_rows_numbered [OF assms(2) t(2)] assms(3) t(1) by simp
  then have "collect_rows (int m) (leaf_rows db (int m) treeSize) =
      Inr (map TxHash (drop m (transactions db)), int (length (transactions db)))"
    using collect_rows_numbered [OF numbered_take_drop [OF assms(2), of m "length (transactions db)"]] m by simp
  with c t assms(3) show ?thesis
    by (simp add: snapshot_of_def extend_snapshot_def Let_def m(2))
qed

end
