(* ===== verification/LogApi.thy ===== *)
theory LogApi
  imports TxLog
begin

text \<open>
  \<open>internal/api/log.go\<close>: the handlers of \<open>/api/v1/log/*\<close>, over the log service. Each returns its
  response with the new state of the service (its cache) and of the checkpoints table.
\<close>

definition merkle_failure :: "merkle_error + 'a \<Rightarrow> err + 'a" where
  "merkle_failure r = (case r of Inl _ \<Rightarrow> Inl (Errorf ''merkle'') | Inr x \<Rightarrow> Inr x)"

definition reply_or_500 :: "err + json \<Rightarrow> response" where
  "reply_or_500 r = (case r of Inl e \<Rightarrow> Fail 500 e | Inr j \<Rightarrow> Reply 200 j)"

definition sth_members :: "'a STH_scheme \<Rightarrow> (bytes \<times> json) list" where
  "sth_members t =
     [(''tree_size'', enc_int (sth_TreeSize t)), (''root_hash_hex'', JStr (sth_RootHash t)),
      (''timestamp_ms'', enc_int (sth_TimestampMS t)), (''admin_sig_hex'', JStr (sth_AdminSig t)),
      (''admin_pubkey_hex'', JStr (sth_AdminPubKey t))]"

definition leaf_members :: "LeafRecord \<Rightarrow> (bytes \<times> json) list" where
  "leaf_members l =
     [(''leaf_index'', enc_int (lr_LeafIndex l)), (''tx_type'', JStr (lr_TxType l)),
      (''payload_b64'', JStr (lr_Payload l)), (''sig_hex'', JStr (lr_Sig l)),
      (''signer_hex'', JStr (lr_Signer l)), (''prev_hash_hex'', JStr (lr_PrevHash l)),
      (''tx_hash_hex'', JStr (lr_TxHash l))]"

definition logSTH ::
  "(bytes \<Rightarrow> bytes \<Rightarrow> bytes \<Rightarrow> bool) \<Rightarrow> (bytes \<Rightarrow> bytes \<Rightarrow> bytes) \<Rightarrow> LogService \<Rightarrow> pgdb \<Rightarrow> int \<Rightarrow> checkpoints \<Rightarrow>
   response \<times> LogService \<times> checkpoints" where
  "logSTH ed sign s db ts cps =
     (case CurrentSTH ed sign s db ts cps of
        (r, s, cps) \<Rightarrow> (reply_or_500 (and_then r (\<lambda>sth. Inr (JObj (sth_members sth)))), s, cps))"

definition logLeaves :: "pgdb \<Rightarrow> request \<Rightarrow> response" where
  "logLeaves db rq =
     (let start = ParseInt_value (rq_query rq ''from'');
          answer = (\<lambda>to. let leaves = RangeLeaves db start to
                    in Reply 200 (JObj [(''from'', enc_int start), (''to'', enc_int to),
                         (''count'', enc_int (int (length leaves))),
                         (''leaves'', JArr (map (JObj \<circ> leaf_members) leaves))]))
      in if rq_query rq ''to'' \<noteq> [] then
           (case ParseInt (rq_query rq ''to'') of
              None \<Rightarrow> Fail 400 (Errorf ''bad to'')
            | Some to \<Rightarrow> answer to)
         else answer (-1))"

definition logInclusion :: "LogService \<Rightarrow> pgdb \<Rightarrow> request \<Rightarrow> response \<times> LogService" where
  "logInclusion s db rq =
     (case ParseInt (rq_query rq ''leaf_index'') of
        None \<Rightarrow> (Fail 400 (Errorf ''bad leaf_index''), s)
      | Some idx \<Rightarrow>
          (case CurrentTreeSize db of
             Inl e \<Rightarrow> (Fail 500 e, s)
           | Inr totalSize \<Rightarrow>
               (let sz = (if rq_query rq ''tree_size'' \<noteq> [] then
                            (case ParseInt (rq_query rq ''tree_size'') of
                               None \<Rightarrow> None
                             | Some n \<Rightarrow> if n \<le> 0 \<or> n > totalSize then None else Some n)
                          else Some totalSize)
                in case sz of
                     None \<Rightarrow> (Fail 400 (Errorf ''bad tree_size''), s)
                   | Some sz \<Rightarrow>
                       (if idx < 0 \<or> idx \<ge> sz then (Fail 400 (Errorf ''leaf_index out of range''), s)
                        else case LeafHashes s db sz of
                          (Inl e, s) \<Rightarrow> (Fail 500 e, s)
                        | (Inr hs, s) \<Rightarrow>
                            (reply_or_500 (and_then (merkle_failure (InclusionProofFromHashes hs idx)) (\<lambda>proof.
                               Inr (JObj [(''leaf_index'', enc_int idx), (''tree_size'', enc_int sz),
                                 (''leaf_hash_hex'', enc_hex (hs ! nat idx)),
                                 (''audit_path'', JArr (map enc_hex proof))]))), s)))))"

definition logConsistency :: "LogService \<Rightarrow> pgdb \<Rightarrow> request \<Rightarrow> response \<times> LogService" where
  "logConsistency s db rq =
     (case (ParseInt (rq_query rq ''first''), ParseInt (rq_query rq ''second'')) of
        (Some first, Some second) \<Rightarrow>
          (if first \<le> 0 \<or> second < first then (Fail 400 (Errorf ''require 0 < first <= second''), s)
           else case CurrentTreeSize db of
             Inl e \<Rightarrow> (Fail 500 e, s)
           | Inr totalSize \<Rightarrow>
               (if second > totalSize then (Fail 400 (Errorf ''second exceeds current tree size''), s)
                else case LeafHashes s db second of
                  (Inl e, s) \<Rightarrow> (Fail 500 e, s)
                | (Inr hs, s) \<Rightarrow>
                    (reply_or_500 (and_then (merkle_failure (ConsistencyProofFromHashes hs first second)) (\<lambda>proof.
                       Inr (JObj [(''first'', enc_int first), (''second'', enc_int second),
                         (''proof'', JArr (map enc_hex proof))]))), s)))
      | _ \<Rightarrow> (Fail 400 (Errorf ''require 0 < first <= second''), s))"

definition logCheckpoints ::
  "(bytes \<Rightarrow> bytes \<Rightarrow> bytes \<Rightarrow> bool) \<Rightarrow> LogService \<Rightarrow> checkpoints \<Rightarrow> request \<Rightarrow> response \<times> checkpoints" where
  "logCheckpoints ed s cps rq =
     (case Checkpoints ed s cps (limit_param 50 500 (rq_query rq ''limit'')) of
        (r, cps) \<Rightarrow>
          (reply_or_500 (and_then r (\<lambda>out. Inr (JObj [(''count'', enc_int (int (length out))),
             (''checkpoints'', JArr (map (\<lambda>c. JObj (sth_members c @
                [(''has_ots_receipt'', JBool (cs_HasOTSReceipt c))])) out))]))), cps))"

end
