(* ===== verification/LogProperties.thy ===== *)
theory LogProperties
  imports LogApi LedgerProperties
begin

text \<open>
  The properties of the transaction log service: its cache, its tree heads, and the proofs that
  its HTTP interface serves.
\<close>

section \<open>A log of two transactions\<close>

definition sample_service :: LogService where
  "sample_service = \<lparr>ls_AdminPrivKey = zero_key, ls_AdminPubKey = zero_key, ls_snapshot = None\<rparr>"

definition toy_sign :: "bytes \<Rightarrow> bytes \<Rightarrow> bytes" where
  "toy_sign priv msg = priv @ priv"

lemma toy_sign_verifies [simp]: "toy_ed k m (toy_sign k m)"
  by (simp add: toy_ed_def toy_sign_def)

lemma sample_log [simp]:
  "snap_ok db (ls_snapshot sample_service)" "length (transactions sample_db) = 1"
  "numbered 0 (transactions sample_db)"
  using sample_db_facts(1)
  by (simp_all add: snap_ok_def sample_service_def numbered_view [symmetric])
    (simp add: sample_db_def pg_empty_def)

lemma sample_hashes: "map TxHash (transactions sample_db) = [ZeroHash]"
  by (simp add: sample_db_def pg_empty_def pg_row_def Tx.defs)

section \<open>Snapshots\<close>

text \<open>
  Claim C14. The cache is invisible: for a log numbered from 0 on and a cache that some earlier
  request left, \<open>merkleSnapshot\<close> returns exactly the tree over the first \<open>n\<close> rows that
  recomputing from the table gives, for the requested size or the current one, keeps the cache
  right, and reports an error for a size beyond the end of the log.
\<close>

theorem snapshot_is_recomputation:
  assumes "snap_ok db (ls_snapshot s)" "indexed (pg_view db)" "room 0 (pg_view db)"
  shows "(if treeSize \<le> int (length (transactions db))
    then fst (snapshot_of s db treeSize) = Inr (snap_at db (resolved db treeSize))
    else \<exists>e. fst (snapshot_of s db treeSize) = Inl e) \<and> snap_ok db (ls_snapshot (snd (snapshot_of s db treeSize)))"
proof -
  have n: "numbered 0 (transactions db)" "int (length (transactions db)) < 2 ^ 63"
    using assms by (simp_all add: numbered_view room_def)
  show ?thesis
  proof (cases "treeSize \<le> int (length (transactions db))")
    case True
    from snapshot_of_snap [OF assms(1) n this] True show ?thesis by auto
  next
    case False
    with snapshot_of_beyond [OF assms(1) n(1), of treeSize] assms(1) show ?thesis by auto
  qed
qed

theorem snapshot_is_recomputation_witness:
  "fst (snapshot_of sample_service sample_db (-1)) = Inr (snap_at sample_db 1)"
  using snapshot_is_recomputation [of sample_db sample_service "-1"]
  by (simp add: resolved_def)

text \<open>
  Concurrent requests: a system is the database, the service and the requests that have looked at
  the cache and not yet stored what they made. Between the two, transactions are applied and
  other requests finish.
\<close>

record log_system =
  sys_db :: pgdb
  sys_service :: LogService
  sys_readers :: "nat \<Rightarrow> (nat \<times> merkleSnapshot option) option"

inductive log_step :: "(bytes \<Rightarrow> bytes \<Rightarrow> bytes \<Rightarrow> bool) \<Rightarrow> log_system \<Rightarrow> log_system \<Rightarrow> bool" for ed where
  applied: "Apply ed PgOps (sys_db y) tx = (tx', Inr db') \<Longrightarrow> room 0 (pg_view (sys_db y)) \<Longrightarrow>
     log_step ed y (y\<lparr>sys_db := db'\<rparr>)"
| started: "n \<le> length (transactions (sys_db y)) \<Longrightarrow>
     from_cache (ls_snapshot (sys_service y)) (int n) = None \<Longrightarrow>
     log_step ed y (y\<lparr>sys_readers := (sys_readers y)(i \<mapsto> (n, ls_snapshot (sys_service y)))\<rparr>)"
| finished: "sys_readers y i = Some (n, cached) \<Longrightarrow>
     extend_snapshot cached (sys_db y) (int n) = Inr snap \<Longrightarrow>
     log_step ed y (y\<lparr>sys_service := store_snapshot (sys_service y) snap,
                      sys_readers := (sys_readers y)(i := None)\<rparr>)"

definition reader_ok :: "pgdb \<Rightarrow> nat \<times> merkleSnapshot option \<Rightarrow> bool" where
  "reader_ok db r \<longleftrightarrow> fst r \<le> length (transactions db) \<and> snap_ok db (snd r) \<and>
     (\<forall>x. snd r = Some x \<longrightarrow> ms_TreeSize x < int (fst r))"

definition system_ok :: "log_system \<Rightarrow> bool" where
  "system_ok y \<longleftrightarrow> pg_ok (sys_db y) \<and> indexed (pg_view (sys_db y)) \<and>
     snap_ok (sys_db y) (ls_snapshot (sys_service y)) \<and>
     (\<forall>i r. sys_readers y i = Some r \<longrightarrow> reader_ok (sys_db y) r)"

text \<open>An accepted transaction leaves the rows before it alone, so old snapshots stay right.\<close>

lemma Apply_rows:
  assumes "pg_ok db" "indexed (pg_view db)" "room 0 (pg_view db)" "Apply ed PgOps db tx = (tx', Inr db')"
  shows "pg_ok db' \<and> indexed (pg_view db') \<and> length (transactions db) \<le> length (transactions db') \<and>
    (\<forall>n\<le>length (transactions db). snap_at db' n = snap_at db n)"
proof -
  note st = pg_Apply_step [OF assms]
  have log: "log (pg_view db') = log (pg_view db) @ [tx']" using step_log st by blast
  have "map TxHash (log (pg_view db')) = map TxHash (log (pg_view db)) @ [TxHash tx']"
    using log by simp
  then have h: "map TxHash (transactions db') = map TxHash (transactions db) @ [TxHash tx']"
    by (simp add: comp_def)
  have "snap_at db' n = snap_at db n" if "n \<le> length (transactions db)" for n
    using that h by (simp add: snap_at_def Let_def take_map [symmetric])
  moreover have "length (transactions db) \<le> length (transactions db')"
    using arg_cong [OF h, of length] by simp
  ultimately show ?thesis using st step_indexed [of ed _ tx'] assms(2,3) by blast
qed

lemma log_step_ok:
  assumes "log_step ed y y'" "system_ok y"
  shows "system_ok y'"
  using assms
proof cases
  case (applied tx tx' db')
  have "pg_ok (sys_db y)" "indexed (pg_view (sys_db y))" using assms(2) by (simp_all add: system_ok_def)
  from Apply_rows [OF this applied(3,2)]
  have "snap_ok (sys_db y) c \<Longrightarrow> snap_ok db' c" for c
    by (auto simp: snap_ok_def) (metis order_trans)
  with Apply_rows [OF \<open>pg_ok (sys_db y)\<close> \<open>indexed (pg_view (sys_db y))\<close> applied(3,2)] assms(2) applied(1)
  show ?thesis by (auto simp: system_ok_def reader_ok_def) (metis order_trans)
next
  case (started n i)
  with assms(2) show ?thesis
    by (auto simp: system_ok_def reader_ok_def from_cache_def split: if_splits)
next
  case (finished i n cached snap)
  have r: "reader_ok (sys_db y) (n, cached)" and num: "numbered 0 (transactions (sys_db y))"
    using assms(2) finished(2) by (auto simp: system_ok_def numbered_view)
  then have "snap = snap_at (sys_db y) n"
    using extend_snap [of "sys_db y" cached n] finished(3) by (auto simp: reader_ok_def)
  with r finished(1) assms(2) store_snap_ok show ?thesis
    by (auto simp: system_ok_def reader_ok_def split: if_splits)
qed

text \<open>
  Claim C15. Requests that overlap are as good as alone: in every state that applied transactions
  and overlapping requests reach from an empty cache, the stored cache is the tree over some first
  part of the log; a request that the cache answers gets exactly the tree over the first \<open>n\<close>
  transactions; and a request that looked at the cache before gets exactly that when it reads the
  table now, although its cached part may be old and other requests may have replaced the cache
  since.
\<close>

theorem concurrent_snapshots:
  assumes "(log_step ed)\<^sup>*\<^sup>* \<lparr>sys_db = db, sys_service = s, sys_readers = Map.empty\<rparr> y"
    and "pg_ok db" "indexed (pg_view db)" "ls_snapshot s = None"
  shows "(\<forall>c. ls_snapshot (sys_service y) = Some c \<longrightarrow> (\<exists>m\<le>length (transactions (sys_db y)). c = snap_at (sys_db y) m)) \<and>
    (\<forall>n out. from_cache (ls_snapshot (sys_service y)) (int n) = Some out \<longrightarrow>
       n \<le> length (transactions (sys_db y)) \<and> out = snap_at (sys_db y) n) \<and>
    (\<forall>i n cached. sys_readers y i = Some (n, cached) \<longrightarrow>
       extend_snapshot cached (sys_db y) (int n) = Inr (snap_at (sys_db y) n))"
proof -
  have "system_ok \<lparr>sys_db = db, sys_service = s, sys_readers = Map.empty\<rparr>"
    using assms(2-4) by (simp add: system_ok_def snap_ok_def)
  with assms(1) have ok: "system_ok y"
    by (induction rule: rtranclp_induct) (auto intro: log_step_ok)
  then have cache: "snap_ok (sys_db y) (ls_snapshot (sys_service y))" by (simp add: system_ok_def)
  have "extend_snapshot cached (sys_db y) (int n) = Inr (snap_at (sys_db y) n)"
    if "sys_readers y i = Some (n, cached)" for i n cached
    using ok that extend_snap [of "sys_db y" cached n] by (fastforce simp: system_ok_def reader_ok_def numbered_view)
  with cache from_cache_snap [OF cache] show ?thesis by (auto simp: snap_ok_def)
qed

theorem concurrent_snapshots_witness:
  "extend_snapshot None sample_db (int 1) = Inr (snap_at sample_db 1) \<and>
   from_cache (Some (snap_at sample_db 1)) (int 1) = Some (snap_at sample_db 1)"
proof -
  let ?y = "\<lparr>sys_db = sample_db, sys_service = sample_service, sys_readers = Map.empty\<rparr>"
  let ?y1 = "?y\<lparr>sys_readers := [3 \<mapsto> (1, None)]\<rparr>"
  let ?y2 = "?y1\<lparr>sys_service := store_snapshot sample_service (snap_at sample_db 1), sys_readers := (sys_readers ?y1)(3 := None)\<rparr>"
  have "log_step toy_ed ?y (?y\<lparr>sys_readers := (sys_readers ?y)(3 \<mapsto> (1, ls_snapshot (sys_service ?y)))\<rparr>)"
    by (rule log_step.started) (simp_all add: from_cache_def sample_service_def)
  then have one: "(log_step toy_ed)\<^sup>*\<^sup>* ?y ?y1"
    by (simp add: sample_service_def)
  have empty: "ls_snapshot sample_service = None" by (simp add: sample_service_def)
  have "sys_readers ?y1 3 = Some (1, None)" by simp
  with concurrent_snapshots [OF one sample_db_ok(1) sample_db_facts(1) empty]
  have ext: "extend_snapshot None (sys_db ?y1) (int 1) = Inr (snap_at (sys_db ?y1) 1)" by blast
  then have "log_step toy_ed ?y1 ?y2"
    using log_step.finished [of ?y1 3 1 None "snap_at sample_db 1" toy_ed] by simp
  with one have "(log_step toy_ed)\<^sup>*\<^sup>* ?y ?y2" by (rule rtranclp.rtrancl_into_rtrancl)
  from concurrent_snapshots [OF this sample_db_ok(1) sample_db_facts(1) empty]
  have "from_cache (ls_snapshot (sys_service ?y2)) (int 1) = Some out \<Longrightarrow> out = snap_at (sys_db ?y2) 1" for out by blast
  then have "from_cache (Some (snap_at sample_db 1)) (int 1) = Some out \<Longrightarrow> out = snap_at sample_db 1" for out
    by (simp add: store_snapshot_def empty)
  moreover have "from_cache (Some (snap_at sample_db 1)) (int 1) \<noteq> None" by (simp add: from_cache_def)
  ultimately show ?thesis using ext by auto
qed

section \<open>Tree heads\<close>

text \<open>
  Claim C39. What is signed determines the tree head: two tree heads with the same signed bytes
  have the same size, root and time.
\<close>

theorem signedSTHBytes_inject:
  assumes "in_i64 n" "in_i64 m" "in_i64 t" "in_i64 u"
    and "signedSTHBytes n r t = signedSTHBytes m q u"
  shows "n = m \<and> r = q \<and> t = u"
proof -
  have bar: "CHR ''|'' \<notin> set (format_int x)" "CHR ''|'' \<notin> set (hex_encode y)" for x y
    using set_format_int [of x] set_hex_encode [of y] by auto
  have "format_int n @ CHR ''|'' # (hex_encode r @ CHR ''|'' # format_int t) =
      format_int m @ CHR ''|'' # (hex_encode q @ CHR ''|'' # format_int u)"
    using assms(5) by (simp add: signedSTHBytes_def)
  from sep_join_inject [OF bar(1) bar(1) this]
  have "format_int n = format_int m" and rest: "hex_encode r @ CHR ''|'' # format_int t = hex_encode q @ CHR ''|'' # format_int u"
    by auto
  moreover from sep_join_inject [OF bar(2) bar(2) rest]
  have "hex_encode r = hex_encode q" "format_int t = format_int u" by auto
  ultimately show ?thesis using format_int_inject assms(1-4) by auto
qed

theorem signedSTHBytes_inject_witness:
  "\<forall>r q. signedSTHBytes 3 r 10 = signedSTHBytes 3 q 10 \<longleftrightarrow> r = q"
  using signedSTHBytes_inject [of 3 3 10 10] by (auto simp: in_i64_def)

text \<open>A tree head that verifies, and a table of checkpoints whose stored keys verify.\<close>

definition verifies :: "(bytes \<Rightarrow> bytes \<Rightarrow> bytes \<Rightarrow> bool) \<Rightarrow> STH \<Rightarrow> bool" where
  "verifies ed t \<longleftrightarrow>
     (case (hex_decode (sth_AdminPubKey t), hex_decode (sth_RootHash t), hex_decode (sth_AdminSig t)) of
        (Some pub, Some root, Some sig) \<Rightarrow> ed pub (signedSTHBytes (sth_TreeSize t) root (sth_TimestampMS t)) sig
      | _ \<Rightarrow> False)"

definition checkpoints_ok :: "(bytes \<Rightarrow> bytes \<Rightarrow> bytes \<Rightarrow> bool) \<Rightarrow> checkpoints \<Rightarrow> bool" where
  "checkpoints_ok ed cps \<longleftrightarrow>
     (\<forall>n c. map_of cps n = Some c \<longrightarrow> stored_pub c \<noteq> [] \<longrightarrow>
        ed (stored_pub c) (signedSTHBytes n (cp_root_hash c) (cp_timestamp_ms c)) (cp_admin_sig c))"

lemma stored_pub_simps [simp]: "cp_admin_pubkey c = Some k \<Longrightarrow> stored_pub c = k"
  by (simp add: stored_pub_def)

lemma checkpointPubKey_ok:
  assumes "checkpointPubKey ed s cps n root ts sig pub0 = Inr (pub, cps')" "checkpoints_ok ed cps"
    and "map_of cps n = Some c" "root = cp_root_hash c" "ts = cp_timestamp_ms c" "sig = cp_admin_sig c" "pub0 = stored_pub c"
  shows "ed pub (signedSTHBytes n root ts) sig \<and> checkpoints_ok ed cps' \<and>
    (\<exists>c'. map_of cps' n = Some c' \<and> cp_root_hash c' = root \<and> cp_timestamp_ms c' = ts \<and> cp_admin_sig c' = sig \<and>
       (cp_admin_pubkey c' = cp_admin_pubkey c \<and> (stored_pub c = pub \<or> stored_pub c = []) \<or> cp_admin_pubkey c' = Some pub))"
proof (cases "stored_pub c = []")
  case True
  then have v: "ed (ls_AdminPubKey s) (signedSTHBytes n root ts) sig" "pub = ls_AdminPubKey s"
    and cps': "cps' = AList.map_entry n (\<lambda>c. if cp_admin_pubkey c = None
       then c\<lparr>cp_admin_pubkey := Some (ls_AdminPubKey s)\<rparr> else c) cps"
    using assms(1,7) by (auto simp: checkpointPubKey_def split: if_splits)
  then have m: "map_of cps' = (map_of cps)(n \<mapsto> (if cp_admin_pubkey c = None
       then c\<lparr>cp_admin_pubkey := Some (ls_AdminPubKey s)\<rparr> else c))"
    using assms(3) by (simp add: map_of_map_entry fun_eq_iff)
  with v assms True show ?thesis
    by (auto simp: checkpoints_ok_def stored_pub_def)
next
  case False
  then have "pub = stored_pub c" "cps' = cps" using assms(1,7) by (auto simp: checkpointPubKey_def)
  with assms False show ?thesis by (auto simp: checkpoints_ok_def)
qed

lemma persistCheckpoint_ok:
  assumes "checkpoints_ok ed cps" "\<And>m. ed (ls_AdminPubKey s) m (sign (ls_AdminPrivKey s) m)"
    and "persistCheckpoint ed sign s ts cps n root = (Inr sth, cps')"
  shows "verifies ed sth \<and> sth_TreeSize sth = n \<and> sth_RootHash sth = hex_encode root \<and> checkpoints_ok ed cps' \<and>
    (\<exists>c'. map_of cps' n = Some c' \<and> cp_root_hash c' = root \<and> sth_TimestampMS sth = cp_timestamp_ms c' \<and>
       sth_AdminSig sth = hex_encode (cp_admin_sig c') \<and>
       (sth_AdminPubKey sth = hex_encode (stored_pub c') \<or> stored_pub c' = []))"
proof -
  define new where "new = \<lparr>cp_root_hash = root, cp_timestamp_ms = ts,
    cp_admin_sig = sign (ls_AdminPrivKey s) (signedSTHBytes n root ts),
    cp_admin_pubkey = Some (ls_AdminPubKey s), cp_ots_receipt = None\<rparr>"
  obtain c cps1 where c: "insert_checkpoint cps n new = (c, cps1)" by fastforce
  have ok1: "checkpoints_ok ed cps1" "map_of cps1 n = Some c"
    using c assms(1,2) by (auto simp: checkpoints_ok_def update_conv' new_def insert_checkpoint_def split: option.splits if_splits)
  have p: "cp_root_hash c = root" "\<exists>pub. checkpointPubKey ed s cps1 n (cp_root_hash c) (cp_timestamp_ms c) (cp_admin_sig c)
      (stored_pub c) = Inr (pub, cps') \<and> sth = \<lparr>sth_TreeSize = n, sth_RootHash = hex_encode (cp_root_hash c),
        sth_TimestampMS = cp_timestamp_ms c, sth_AdminSig = hex_encode (cp_admin_sig c), sth_AdminPubKey = hex_encode pub\<rparr>"
    using assms(3) c unfolding persistCheckpoint_def Let_def new_def [symmetric]
    by (auto split: if_splits sum.splits)
  then obtain pub where pub: "checkpointPubKey ed s cps1 n (cp_root_hash c) (cp_timestamp_ms c) (cp_admin_sig c)
      (stored_pub c) = Inr (pub, cps')" and sth: "sth = \<lparr>sth_TreeSize = n, sth_RootHash = hex_encode (cp_root_hash c),
        sth_TimestampMS = cp_timestamp_ms c, sth_AdminSig = hex_encode (cp_admin_sig c), sth_AdminPubKey = hex_encode pub\<rparr>"
    by blast
  from checkpointPubKey_ok [OF pub ok1 refl refl refl refl] p(1) sth show ?thesis
    by (fastforce simp: verifies_def stored_pub_def)
qed

lemma CurrentSTH_law:
  assumes "snap_ok db (ls_snapshot s)" "indexed (pg_view db)" "room 0 (pg_view db)" "checkpoints_ok ed cps"
    and "\<And>m. ed (ls_AdminPubKey s) m (sign (ls_AdminPrivKey s) m)"
    and "CurrentSTH ed sign s db ts cps = (Inr sth, s', cps')"
  shows "verifies ed sth \<and> sth_TreeSize sth = int (length (transactions db)) \<and>
    sth_RootHash sth = hex_encode (Root (map TxHash (transactions db))) \<and> checkpoints_ok ed cps' \<and>
    snap_ok db (ls_snapshot s')"
proof -
  have n: "numbered 0 (transactions db)" "int (length (transactions db)) < 2 ^ 63"
    using assms by (simp_all add: numbered_view room_def)
  obtain s1 where s1: "snapshot_of s db (-1) = (Inr (snap_at db (length (transactions db))), s1)"
    "snap_ok db (ls_snapshot s1)" "ls_AdminPubKey s1 = ls_AdminPubKey s" "ls_AdminPrivKey s1 = ls_AdminPrivKey s"
    using snapshot_of_snap [OF assms(1) n, of "-1"] by (auto simp: resolved_def)
  then have "persistCheckpoint ed sign s1 ts cps (int (length (transactions db)))
      (Root (map TxHash (transactions db))) = (Inr sth, cps')" "s' = s1"
    using assms(6) by (auto simp: CurrentSTH_def snap_at_def Let_def split: prod.splits)
  from persistCheckpoint_ok [OF assms(4) _ this(1)] this(2) s1 assms(5) show ?thesis by simp
qed

text \<open>
  Claim C16. Every tree head that the service hands out verifies under the key in it, is for the
  whole log, and its root is the RFC 6962 root of the transaction hashes, recomputed from the
  table; the stored checkpoints stay valid.
\<close>

theorem CurrentSTH_verifies:
  assumes "snap_ok db (ls_snapshot s)" "indexed (pg_view db)" "room 0 (pg_view db)" "checkpoints_ok ed cps"
    and "\<And>m. ed (ls_AdminPubKey s) m (sign (ls_AdminPrivKey s) m)"
    and "CurrentSTH ed sign s db ts cps = (Inr sth, s', cps')"
  shows "verifies ed sth \<and> sth_TreeSize sth = int (length (transactions db)) \<and>
    sth_RootHash sth = hex_encode (Root (map TxHash (transactions db))) \<and> checkpoints_ok ed cps' \<and>
    snap_ok db (ls_snapshot s')"
  by (rule CurrentSTH_law [OF assms])

lemma sample_STH:
  "\<exists>sth s' cps'. CurrentSTH toy_ed toy_sign sample_service sample_db 5 [] = (Inr sth, s', cps')"
proof -
  obtain s' where "snapshot_of sample_service sample_db (-1) = (Inr (snap_at sample_db 1), s')"
    "ls_AdminPubKey s' = zero_key"
    using snapshot_of_snap [OF sample_log(1,3), of "-1"] by (auto simp: resolved_def sample_service_def)
  then show ?thesis
    by (simp add: CurrentSTH_def persistCheckpoint_def insert_checkpoint_def Let_def checkpointPubKey_def)
qed

theorem CurrentSTH_verifies_witness:
  "\<exists>sth. verifies toy_ed sth \<and> sth_TreeSize sth = 1 \<and> sth_RootHash sth = hex_encode (Root [ZeroHash])"
proof -
  obtain sth s' cps' where "CurrentSTH toy_ed toy_sign sample_service sample_db 5 [] = (Inr sth, s', cps')"
    using sample_STH by blast
  from CurrentSTH_verifies [OF sample_log(1) sample_db_facts(1,2) _ _ this] show ?thesis
    by (auto simp: checkpoints_ok_def sample_service_def sample_hashes)
qed

section \<open>What the HTTP interface serves\<close>

lemma LeafHashes_snap:
  assumes "snap_ok db (ls_snapshot s)" "indexed (pg_view db)" "room 0 (pg_view db)"
    and "0 \<le> n" "n \<le> int (length (transactions db))"
  shows "\<exists>s'. LeafHashes s db n = (Inr (map LeafHash (map TxHash (take (nat n) (transactions db)))), s') \<and>
    snap_ok db (ls_snapshot s')"
proof -
  have "numbered 0 (transactions db)" "int (length (transactions db)) < 2 ^ 63"
    using assms by (simp_all add: numbered_view room_def)
  from snapshot_of_snap [OF assms(1) this assms(5)] assms(4) show ?thesis
    by (auto simp: LeafHashes_def resolved_def snap_at_def Let_def)
qed

lemma inclusion_law:
  assumes "snap_ok db (ls_snapshot s)" "indexed (pg_view db)" "room 0 (pg_view db)"
    and "ParseInt (rq_query rq ''leaf_index'') = Some i" "rq_query rq ''tree_size'' \<noteq> []"
    and "ParseInt (rq_query rq ''tree_size'') = Some n"
  shows "if 0 \<le> i \<and> i < n \<and> n \<le> int (length (transactions db)) then
      \<exists>path. fst (logInclusion s db rq) = Reply 200 (JObj
        [(''leaf_index'', enc_int i), (''tree_size'', enc_int n),
         (''leaf_hash_hex'', enc_hex (LeafHash (TxHash (transactions db ! nat i)))),
         (''audit_path'', JArr (map enc_hex path))]) \<and>
        VerifyInclusion (Root (map TxHash (take (nat n) (transactions db))))
          (LeafHash (TxHash (transactions db ! nat i))) i n path = Inr ()
    else status (fst (logInclusion s db rq)) = 400"
proof (cases "0 \<le> i \<and> i < n \<and> n \<le> int (length (transactions db))")
  case True
  let ?leaves = "map TxHash (take (nat n) (transactions db))"
  have "int (length (transactions db)) < 2 ^ 63" using assms(3) by (simp add: room_def)
  note size = CurrentTreeSize_numbered [OF assms(2) [unfolded numbered_view] this]
  obtain s' where hs: "LeafHashes s db n = (Inr (map LeafHash ?leaves), s')"
    using LeafHashes_snap [OF assms(1-3), of n] True by auto
  have len: "int (length ?leaves) = n" using True by (auto simp: min_def)
  obtain path where path: "InclusionProofFromHashes (map LeafHash ?leaves) i = Inr path"
    "VerifyInclusion (Root ?leaves) (map LeafHash ?leaves ! nat i) i n path = Inr ()"
    using inclusion_path [of i "map LeafHash ?leaves"] True len by (auto simp del: map_map)
  have "nat i < length (take (nat n) (transactions db))" "nat i < nat n" using True by (auto simp: nat_less_iff)
  then have nth: "map LeafHash ?leaves ! nat i = LeafHash (TxHash (transactions db ! nat i))" by simp
  have "fst (logInclusion s db rq) = Reply 200 (JObj
      [(''leaf_index'', enc_int i), (''tree_size'', enc_int n),
       (''leaf_hash_hex'', enc_hex (LeafHash (TxHash (transactions db ! nat i)))),
       (''audit_path'', JArr (map enc_hex path))])"
    using hs size True assms(4-6) path(1) nth
    by (simp add: logInclusion_def Let_def reply_or_500_def merkle_failure_def del: map_map)
  with path(2) nth True show ?thesis by auto
next
  case False
  have "int (length (transactions db)) < 2 ^ 63" using assms(3) by (simp add: room_def)
  note size = CurrentTreeSize_numbered [OF assms(2) [unfolded numbered_view] this]
  from False size assms(4-6) show ?thesis
    by (auto simp: logInclusion_def Let_def)
qed

text \<open>
  Claim C18. \<open>GET /log/inclusion\<close> for an index below a size within the log answers 200 with a leaf
  hash and an audit path that verify against the root of that size, the root that
  \<open>CurrentSTH\<close> signs when it is the current one; any other index or size is answered 400.
\<close>

theorem inclusion_served:
  assumes "snap_ok db (ls_snapshot s)" "indexed (pg_view db)" "room 0 (pg_view db)"
    and "ParseInt (rq_query rq ''leaf_index'') = Some i" "rq_query rq ''tree_size'' \<noteq> []"
    and "ParseInt (rq_query rq ''tree_size'') = Some n"
  shows "if 0 \<le> i \<and> i < n \<and> n \<le> int (length (transactions db)) then
      \<exists>path. fst (logInclusion s db rq) = Reply 200 (JObj
        [(''leaf_index'', enc_int i), (''tree_size'', enc_int n),
         (''leaf_hash_hex'', enc_hex (LeafHash (TxHash (transactions db ! nat i)))),
         (''audit_path'', JArr (map enc_hex path))]) \<and>
        VerifyInclusion (Root (map TxHash (take (nat n) (transactions db))))
          (LeafHash (TxHash (transactions db ! nat i))) i n path = Inr ()
    else status (fst (logInclusion s db rq)) = 400"
  by (rule inclusion_law [OF assms])



definition sample_request :: "(bytes \<times> bytes) list \<Rightarrow> request" where
  "sample_request q =
     \<lparr>rq_method = ''GET'', rq_host = [], rq_path = [], rq_header = (\<lambda>_. []), rq_cookie = (\<lambda>_. None),
      rq_query = (\<lambda>k. case map_of q k of Some v \<Rightarrow> v | None \<Rightarrow> []), rq_body = []\<rparr>"

lemma ParseInt_samples: "ParseInt ''0'' = Some 0" "ParseInt ''1'' = Some 1"
  by code_simp+

theorem inclusion_served_witness:
  "\<exists>path. fst (logInclusion sample_service sample_db (sample_request [(''leaf_index'', ''0''), (''tree_size'', ''1'')])) =
     Reply 200 (JObj
        [(''leaf_index'', enc_int 0), (''tree_size'', enc_int 1),
         (''leaf_hash_hex'', enc_hex (LeafHash (TxHash (transactions sample_db ! 0)))),
         (''audit_path'', JArr (map enc_hex path))])"
  using inclusion_served [OF sample_log(1) sample_db_facts(1,2),
      of "sample_request [(''leaf_index'', ''0''), (''tree_size'', ''1'')]" 0 1]
  by (auto simp: sample_request_def ParseInt_samples)

lemma consistency_law:
  assumes "snap_ok db (ls_snapshot s)" "indexed (pg_view db)" "room 0 (pg_view db)"
    and "ParseInt (rq_query rq ''first'') = Some m" "ParseInt (rq_query rq ''second'') = Some n"
  shows "if 0 < m \<and> m \<le> n \<and> n \<le> int (length (transactions db)) then
      \<exists>path. fst (logConsistency s db rq) = Reply 200 (JObj
        [(''first'', enc_int m), (''second'', enc_int n), (''proof'', JArr (map enc_hex path))]) \<and>
        VerifyConsistency (Root (map TxHash (take (nat m) (transactions db))))
          (Root (map TxHash (take (nat n) (transactions db)))) m n path = Inr ()
    else status (fst (logConsistency s db rq)) = 400"
proof (cases "0 < m \<and> m \<le> n \<and> n \<le> int (length (transactions db))")
  case True
  let ?hs = "map LeafHash (map TxHash (take (nat n) (transactions db)))"
  have room: "int (length (transactions db)) < 2 ^ 63" using assms(3) by (simp add: room_def)
  note size = CurrentTreeSize_numbered [OF assms(2) [unfolded numbered_view] this]
  obtain s' where hs: "LeafHashes s db n = (Inr ?hs, s')"
    using LeafHashes_snap [OF assms(1-3), of n] True by auto
  have len: "n \<le> int (length ?hs)" "n \<le> 2 ^ 63" using True room by (auto simp: min_def)
  obtain path where path: "ConsistencyProofFromHashes ?hs m n = Inr path"
    "VerifyConsistency (RootFromLeafHashes (take (nat m) ?hs)) (RootFromLeafHashes (take (nat n) ?hs)) m n path = Inr ()"
    using consistency_path [OF _ _ len] True by blast
  have "fst (logConsistency s db rq) = Reply 200 (JObj
      [(''first'', enc_int m), (''second'', enc_int n), (''proof'', JArr (map enc_hex path))])"
    using hs size True assms(4,5) path(1)
    by (simp add: logConsistency_def reply_or_500_def merkle_failure_def del: map_map)
  moreover have "take (nat m) (take (nat n) (transactions db)) = take (nat m) (transactions db)"
    using True by (simp add: min_def nat_le_eq_zle)
  ultimately show ?thesis using path(2) True by (auto simp: take_map)
next
  case False
  have "int (length (transactions db)) < 2 ^ 63" using assms(3) by (simp add: room_def)
  note size = CurrentTreeSize_numbered [OF assms(2) [unfolded numbered_view] this]
  from False size assms(4,5) show ?thesis
    by (auto simp: logConsistency_def)
qed

text \<open>
  Claim C19. \<open>GET /log/consistency\<close> for sizes \<open>0 < m <= n\<close> within the log answers 200 with a proof
  that verifies between the roots of the two sizes; every other pair of numbers is answered 400.
\<close>

theorem consistency_served:
  assumes "snap_ok db (ls_snapshot s)" "indexed (pg_view db)" "room 0 (pg_view db)"
    and "ParseInt (rq_query rq ''first'') = Some m" "ParseInt (rq_query rq ''second'') = Some n"
  shows "if 0 < m \<and> m \<le> n \<and> n \<le> int (length (transactions db)) then
      \<exists>path. fst (logConsistency s db rq) = Reply 200 (JObj
        [(''first'', enc_int m), (''second'', enc_int n), (''proof'', JArr (map enc_hex path))]) \<and>
        VerifyConsistency (Root (map TxHash (take (nat m) (transactions db))))
          (Root (map TxHash (take (nat n) (transactions db)))) m n path = Inr ()
    else status (fst (logConsistency s db rq)) = 400"
  by (rule consistency_law [OF assms])

theorem consistency_served_witness:
  "\<exists>path. fst (logConsistency sample_service sample_db (sample_request [(''first'', ''1''), (''second'', ''1'')])) =
     Reply 200 (JObj [(''first'', enc_int 1), (''second'', enc_int 1), (''proof'', JArr (map enc_hex path))])"
  using consistency_served [OF sample_log(1) sample_db_facts(1,2),
      of "sample_request [(''first'', ''1''), (''second'', ''1'')]" 1 1]
  by (auto simp: sample_request_def ParseInt_samples)

end
