(* ===== verification/Auth.thy ===== *)
theory Auth
  imports Http
begin

text \<open>
  \<open>internal/auth/discourse_connect.go\<close>: the Discourse single sign-on and the session cookie.
  A cookie's value is a JSON object in base64 with a MAC in hexadecimal after a dot. \<open>url.Parse\<close>
  and with it \<open>safeReturnURL\<close> is not modelled: \<open>Login\<close> takes the return URL it computes.
\<close>

section \<open>Query strings\<close>

text \<open>\<open>url.QueryUnescape\<close> and \<open>url.ParseQuery\<close> (\<open>None\<close> is the error).\<close>

fun QueryUnescape :: "bytes \<Rightarrow> bytes option" where
  "QueryUnescape [] = Some []"
| "QueryUnescape (c # s) =
     (if c = CHR ''%'' then
        (case s of
           h # l # r \<Rightarrow>
             (case (from_hex_digit h, from_hex_digit l, QueryUnescape r) of
                (Some x, Some y, Some t) \<Rightarrow> Some (byte (16 * x + y) # t)
              | _ \<Rightarrow> None)
         | _ \<Rightarrow> None)
      else map_option ((#) (if c = CHR ''+'' then CHR '' '' else c)) (QueryUnescape s))"

definition cut :: "char \<Rightarrow> bytes \<Rightarrow> bytes \<times> bytes" where
  "cut sep s = (case split2 sep s of Some (a, b) \<Rightarrow> (a, b) | None \<Rightarrow> (s, []))"

lemma length_snd_cut: "s \<noteq> [] \<Longrightarrow> length (snd (cut sep s)) < length s"
  by (auto simp: cut_def dest: split2_Some split: option.splits)

function ParseQuery :: "bytes \<Rightarrow> (bytes \<times> bytes) list option" where
  "ParseQuery q =
     (if q = [] then Some []
      else case cut CHR ''&'' q of (p, rest) \<Rightarrow>
        if CHR '';'' \<in> set p then None
        else if p = [] then ParseQuery rest
        else case cut CHR ''='' p of (k, v) \<Rightarrow>
          (case (QueryUnescape k, QueryUnescape v, ParseQuery rest) of
             (Some k, Some v, Some m) \<Rightarrow> Some ((k, v) # m)
           | _ \<Rightarrow> None))"
  by pat_completeness auto
termination
  by (relation "measure length") (auto, (metis length_snd_cut snd_conv)+)

declare ParseQuery.simps [simp del]

text \<open>\<open>values.Get\<close>: the first value, or the empty string.\<close>

definition Get :: "(bytes \<times> bytes) list \<Rightarrow> bytes \<Rightarrow> bytes" where
  "Get m k = (case map_of m k of Some v \<Rightarrow> v | None \<Rightarrow> [])"

definition unreserved :: "char \<Rightarrow> bool" where
  "unreserved c \<longleftrightarrow> c \<in> set ''ABCDEFGHIJKLMNOPQRSTUVWXYZabcdefghijklmnopqrstuvwxyz0123456789-_.~''"

definition QueryEscape :: "bytes \<Rightarrow> bytes" where
  "QueryEscape s = concat (map (\<lambda>c.
     if unreserved c then [c] else if c = CHR '' '' then ''+''
     else [CHR ''%'', ''0123456789ABCDEF'' ! (code c div 16), ''0123456789ABCDEF'' ! (code c mod 16)]) s)"

section \<open>Session and state cookies\<close>

definition mac :: "bytes \<Rightarrow> bytes \<Rightarrow> bytes" where
  "mac key msg = hmac_sha256 key msg"

record SessionToken =
  st_DiscourseID :: int
  st_Username :: bytes
  st_ExpUnix :: int

record stateCookieValue =
  sc_Nonce :: bytes
  sc_Return :: bytes
  sc_Exp :: int

definition session_tree :: "SessionToken \<Rightarrow> json" where
  "session_tree t =
     JObj [(''discourse_id'', enc_int (st_DiscourseID t)), (''username'', JStr (st_Username t)),
           (''exp_unix'', enc_int (st_ExpUnix t))]"

definition session_field :: "SessionToken \<Rightarrow> bytes \<Rightarrow> json \<Rightarrow> SessionToken option" where
  "session_field t k v =
     (if field_is ''discourse_id'' k then map_option (\<lambda>x. t\<lparr>st_DiscourseID := x\<rparr>) (dec_int64 (st_DiscourseID t) v)
      else if field_is ''username'' k then map_option (\<lambda>x. t\<lparr>st_Username := x\<rparr>) (dec_string (st_Username t) v)
      else if field_is ''exp_unix'' k then map_option (\<lambda>x. t\<lparr>st_ExpUnix := x\<rparr>) (dec_int64 (st_ExpUnix t) v)
      else Some t)"

definition state_tree :: "stateCookieValue \<Rightarrow> json" where
  "state_tree t =
     JObj [(''nonce'', JStr (sc_Nonce t)), (''return'', JStr (sc_Return t)), (''exp'', enc_int (sc_Exp t))]"

definition state_field :: "stateCookieValue \<Rightarrow> bytes \<Rightarrow> json \<Rightarrow> stateCookieValue option" where
  "state_field t k v =
     (if field_is ''nonce'' k then map_option (\<lambda>x. t\<lparr>sc_Nonce := x\<rparr>) (dec_string (sc_Nonce t) v)
      else if field_is ''return'' k then map_option (\<lambda>x. t\<lparr>sc_Return := x\<rparr>) (dec_string (sc_Return t) v)
      else if field_is ''exp'' k then map_option (\<lambda>x. t\<lparr>sc_Exp := x\<rparr>) (dec_int64 (sc_Exp t) v)
      else Some t)"

definition SignSession :: "SessionToken \<Rightarrow> bytes \<Rightarrow> bytes" where
  "SignSession t secret =
     (let enc = RawURLEncode (json_print True (session_tree t))
      in enc @ ''.'' @ hex_encode (mac secret enc))"

definition VerifySession :: "int \<Rightarrow> bytes \<Rightarrow> bytes \<Rightarrow> err + SessionToken" where
  "VerifySession now s secret =
     (case split2 CHR ''.'' s of
        None \<Rightarrow> Inl (Errorf ''bad session format'')
      | Some (enc, sig) \<Rightarrow>
          (case hex_decode sig of
             None \<Rightarrow> Inl (Errorf ''bad sig hex'')
           | Some gotSig \<Rightarrow>
               (if gotSig \<noteq> mac secret enc then Inl (Errorf ''session signature mismatch'')
                else case RawURLDecode enc of
                  None \<Rightarrow> Inl (Errorf ''bad b64'')
                | Some raw \<Rightarrow>
                    (case Unmarshal session_field \<lparr>st_DiscourseID = 0, st_Username = [], st_ExpUnix = 0\<rparr> raw of
                       None \<Rightarrow> Inl (Errorf ''json'')
                     | Some tok \<Rightarrow>
                         if now > st_ExpUnix tok then Inl (Errorf ''session expired'') else Inr tok))))"

definition parseStateCookie :: "int \<Rightarrow> bytes \<Rightarrow> bytes \<Rightarrow> err + stateCookieValue" where
  "parseStateCookie now v secret =
     (case split2 CHR ''.'' v of
        None \<Rightarrow> Inl (Errorf ''bad state format'')
      | Some (enc, sig) \<Rightarrow>
          (case (hex_decode sig, RawURLDecode enc) of
             (None, _) \<Rightarrow> Inl (Errorf ''hex'')
           | (_, None) \<Rightarrow> Inl (Errorf ''b64'')
           | (Some gotSig, Some raw) \<Rightarrow>
               (if gotSig \<noteq> mac secret raw then Inl (Errorf ''state signature mismatch'')
                else case Unmarshal state_field \<lparr>sc_Nonce = [], sc_Return = [], sc_Exp = 0\<rparr> raw of
                  None \<Rightarrow> Inl (Errorf ''json'')
                | Some st \<Rightarrow> if now > sc_Exp st then Inl (Errorf ''state expired'') else Inr st)))"

section \<open>The sign-on\<close>

record DiscourseConnect =
  dc_Secret :: bytes
  dc_ForumBase :: bytes
  dc_CallbackURL :: bytes

text \<open>A redirect with the cookies it sets (name, value, lifetime), or an error status.\<close>

datatype sso_result =
    Redirect bytes "(bytes \<times> bytes \<times> int) list"
  | Rejected int string

definition stateCookieName :: bytes where "stateCookieName = ''fp_oauth_state''"
definition SessionCookieName :: bytes where "SessionCookieName = ''fp_session''"
definition stateCookieMaxAge :: int where "stateCookieMaxAge = 600"
definition sessionTTL :: int where "sessionTTL = 24 * 60 * 60"

definition state_cookie :: "bytes \<Rightarrow> stateCookieValue \<Rightarrow> bytes" where
  "state_cookie secret st =
     (let stateB = json_print True (state_tree st)
      in RawURLEncode stateB @ ''.'' @ hex_encode (mac secret stateB))"

text \<open>\<open>rnd\<close> are the 16 bytes that \<open>randomHex\<close> reads.\<close>

definition Login :: "DiscourseConnect \<Rightarrow> int \<Rightarrow> bytes \<Rightarrow> bytes \<Rightarrow> sso_result" where
  "Login d now rnd returnURL =
     (let nonce = hex_encode rnd;
          st = \<lparr>sc_Nonce = nonce, sc_Return = returnURL, sc_Exp = now + stateCookieMaxAge\<rparr>;
          encoded = StdEncode (''nonce='' @ QueryEscape nonce @ ''&return_sso_url='' @ QueryEscape (dc_CallbackURL d));
          sig = hex_encode (mac (dc_Secret d) encoded)
      in Redirect (dc_ForumBase d @ ''/session/sso_provider?'' @ ''sig='' @ QueryEscape sig @ ''&sso='' @ QueryEscape encoded)
           [(stateCookieName, state_cookie (dc_Secret d) st, stateCookieMaxAge)])"

definition Callback :: "DiscourseConnect \<Rightarrow> int \<Rightarrow> request \<Rightarrow> sso_result" where
  "Callback d now rq =
     (let sso = rq_query rq ''sso''; sig = rq_query rq ''sig''
      in if sso = [] \<or> sig = [] then Rejected 400 ''missing sso or sig''
         else case hex_decode sig of
           None \<Rightarrow> Rejected 400 ''bad sig hex''
         | Some gotSig \<Rightarrow>
             (if gotSig \<noteq> mac (dc_Secret d) sso then Rejected 401 ''sso signature mismatch''
              else case StdDecode sso of
                None \<Rightarrow> Rejected 400 ''bad sso b64''
              | Some raw \<Rightarrow>
                  (case ParseQuery raw of
                     None \<Rightarrow> Rejected 400 ''bad sso payload''
                   | Some values \<Rightarrow>
                       (case rq_cookie rq stateCookieName of
                          None \<Rightarrow> Rejected 401 ''missing state cookie''
                        | Some c \<Rightarrow>
                            (case parseStateCookie now c (dc_Secret d) of
                               Inl e \<Rightarrow> Rejected 401 ''bad state cookie''
                             | Inr st \<Rightarrow>
                                 (if sc_Nonce st \<noteq> Get values ''nonce'' then Rejected 401 ''nonce mismatch''
                                  else case ParseInt (Get values ''external_id'') of
                                    None \<Rightarrow> Rejected 400 ''bad external_id''
                                  | Some dscID \<Rightarrow>
                                      (if dscID \<le> 0 then Rejected 400 ''bad external_id''
                                       else if Get values ''username'' = [] then Rejected 400 ''missing username''
                                       else
                                         let tok = \<lparr>st_DiscourseID = dscID, st_Username = Get values ''username'',
                                                    st_ExpUnix = now + sessionTTL\<rparr>
                                         in Redirect (if sc_Return st = [] then dc_ForumBase d else sc_Return st)
                                              [(SessionCookieName, SignSession tok (dc_Secret d), sessionTTL),
                                               (stateCookieName, [], -1)])))))))"

definition Logout :: "(bytes \<times> bytes \<times> int) list" where
  "Logout = [(SessionCookieName, [], -1)]"

section \<open>Facts\<close>

text \<open>The names of the fields, up to case folding.\<close>

lemma session_keys [simp]:
  "field_is ''discourse_id'' ''discourse_id''" "\<not> field_is ''discourse_id'' ''username''"
  "\<not> field_is ''discourse_id'' ''exp_unix''" "field_is ''username'' ''username''"
  "\<not> field_is ''username'' ''exp_unix''" "field_is ''exp_unix'' ''exp_unix''"
  "field_is ''nonce'' ''nonce''" "\<not> field_is ''nonce'' ''return''" "\<not> field_is ''nonce'' ''exp''"
  "field_is ''return'' ''return''" "\<not> field_is ''return'' ''exp''" "field_is ''exp'' ''exp''"
  by code_simp+

lemma ascii_keys [simp]:
  "valid_utf8 ''discourse_id''" "valid_utf8 ''username''" "valid_utf8 ''exp_unix''"
  "valid_utf8 ''nonce''" "valid_utf8 ''return''" "valid_utf8 ''exp''"
  by code_simp+

lemma max_depth_pos [simp]: "0 < max_depth" "0 < max_depth - 1"
  by (simp_all add: max_depth_def)

lemma dot_not_url: "CHR ''.'' \<notin> set (RawURLEncode b)"
proof -
  have "CHR ''.'' \<notin> set b64_url" by (simp add: b64_url_def)
  with set_RawURLEncode [of b] show ?thesis by blast
qed

lemma split_cookie [simp]: "split2 CHR ''.'' (RawURLEncode b @ CHR ''.'' # s) = Some (RawURLEncode b, s)"
  by (rule split2_append) (rule dot_not_url)

lemma session_decodes:
  assumes "valid_utf8 (st_Username t)" "in_i64 (st_DiscourseID t)" "in_i64 (st_ExpUnix t)"
  shows "Unmarshal session_field \<lparr>st_DiscourseID = 0, st_Username = [], st_ExpUnix = 0\<rparr>
    (json_print h (session_tree t)) = Some t"
proof -
  have "printable max_depth (session_tree t)" using assms by (simp add: session_tree_def)
  with assms show ?thesis
    by (simp add: Unmarshal_print) (simp add: session_tree_def decode_struct_def session_field_def)
qed

lemma state_decodes:
  assumes "valid_utf8 (sc_Nonce st)" "valid_utf8 (sc_Return st)" "in_i64 (sc_Exp st)"
  shows "Unmarshal state_field \<lparr>sc_Nonce = [], sc_Return = [], sc_Exp = 0\<rparr>
    (json_print h (state_tree st)) = Some st"
proof -
  have "printable max_depth (state_tree st)" using assms by (simp add: state_tree_def)
  with assms show ?thesis
    by (simp add: Unmarshal_print) (simp add: state_tree_def decode_struct_def state_field_def)
qed

text \<open>
  A signed cookie opens to what was put into it, until it expires; any string that opens was
  signed: its second part is the MAC of its first.
\<close>

lemma VerifySession_SignSession:
  assumes "valid_utf8 (st_Username t)" "in_i64 (st_DiscourseID t)" "in_i64 (st_ExpUnix t)"
  shows "VerifySession now (SignSession t secret) secret =
    (if now > st_ExpUnix t then Inl (Errorf ''session expired'') else Inr t)"
  using session_decodes [OF assms] by (simp add: VerifySession_def SignSession_def Let_def)

lemma parse_state_cookie:
  assumes "valid_utf8 (sc_Nonce st)" "valid_utf8 (sc_Return st)" "in_i64 (sc_Exp st)"
  shows "parseStateCookie now (state_cookie secret st) secret =
    (if now > sc_Exp st then Inl (Errorf ''state expired'') else Inr st)"
  using state_decodes [OF assms] by (simp add: parseStateCookie_def state_cookie_def Let_def)

lemma VerifySession_signed:
  "VerifySession now s secret = Inr t \<Longrightarrow>
   \<exists>enc sig. s = enc @ CHR ''.'' # sig \<and> hex_decode sig = Some (mac secret enc) \<and> now \<le> st_ExpUnix t"
  by (fastforce simp: VerifySession_def dest!: split2_Some split: option.splits if_splits)

lemma parseStateCookie_signed:
  "parseStateCookie now v secret = Inr st \<Longrightarrow>
   \<exists>enc sig raw. v = enc @ CHR ''.'' # sig \<and> RawURLDecode enc = Some raw \<and>
     hex_decode sig = Some (mac secret raw) \<and> now \<le> sc_Exp st"
  by (fastforce simp: parseStateCookie_def dest!: split2_Some split: option.splits if_splits)

end
