(* ===== verification/AuthProperties.thy ===== *)
theory AuthProperties
  imports Auth
begin

text \<open>The properties of the sign-on with Discourse and of its session cookie.\<close>

text \<open>
  A session cookie opens to the user it was made for until its time is over, and is
  rejected after that; and whatever string opens at all carries, in hexadecimal, the MAC of its
  first part under the server's secret.
\<close>

theorem session_roundtrip:
  assumes "valid_utf8 (st_Username t)" "in_i64 (st_DiscourseID t)" "in_i64 (st_ExpUnix t)"
  shows "VerifySession now (SignSession t secret) secret =
      (if st_ExpUnix t < now then Inl (Errorf ''session expired'') else Inr t) \<and>
    (\<forall>s u. VerifySession now s secret = Inr u \<longrightarrow>
      (\<exists>enc sig. s = enc @ CHR ''.'' # sig \<and> hex_decode sig = Some (mac secret enc)))"
  using VerifySession_SignSession [OF assms] VerifySession_signed by blast

definition sample_token :: SessionToken where
  "sample_token = \<lparr>st_DiscourseID = 42, st_Username = ''alice'', st_ExpUnix = 1000\<rparr>"

lemma sample_token_ok [simp]:
  "valid_utf8 (st_Username sample_token)" "in_i64 (st_DiscourseID sample_token)" "in_i64 (st_ExpUnix sample_token)"
  by code_simp+

theorem session_roundtrip_witness:
  "VerifySession 7 (SignSession sample_token ''secret'') ''secret'' = Inr sample_token"
  using session_roundtrip [OF sample_token_ok, of 7 "''secret''"] by (simp add: sample_token_def)

text \<open>
  Claim C30. The sign-on, end to end: Discourse's signed answer to a login, brought back with the
  state cookie that the login set, within its ten minutes, redirects to the URL the user came from
  with a session cookie that \<open>VerifySession\<close> resolves to the user Discourse named, for 24
  hours.
\<close>

theorem sign_on:
  assumes "Login d now rnd returnURL = Redirect loc [(stateCookieName, cookie, maxAge)]"
    and "valid_utf8 returnURL" "returnURL \<noteq> []" "0 \<le> now" "now < 2 ^ 62"
    and "rq_cookie rq stateCookieName = Some cookie" "now \<le> later" "later \<le> now + stateCookieMaxAge"
    and "rq_query rq ''sso'' \<noteq> []" "rq_query rq ''sig'' = hex_encode (mac (dc_Secret d) (rq_query rq ''sso''))"
    and "StdDecode (rq_query rq ''sso'') = Some raw" "ParseQuery raw = Some values"
    and "Get values ''nonce'' = hex_encode rnd" "ParseInt (Get values ''external_id'') = Some uid" "0 < uid"
    and "Get values ''username'' = name" "name \<noteq> []" "valid_utf8 name"
  shows "\<exists>session. Callback d later rq =
      Redirect returnURL [(SessionCookieName, session, sessionTTL), (stateCookieName, [], -1)] \<and>
    (\<forall>t. VerifySession t session (dc_Secret d) =
      (if later + sessionTTL < t then Inl (Errorf ''session expired'')
       else Inr \<lparr>st_DiscourseID = uid, st_Username = name, st_ExpUnix = later + sessionTTL\<rparr>))"
proof -
  let ?st = "\<lparr>sc_Nonce = hex_encode rnd, sc_Return = returnURL, sc_Exp = now + stateCookieMaxAge\<rparr>"
  let ?tok = "\<lparr>st_DiscourseID = uid, st_Username = name, st_ExpUnix = later + sessionTTL\<rparr>"
  have c: "cookie = state_cookie (dc_Secret d) ?st" using assms(1) by (simp add: Login_def Let_def)
  have "in_i64 (now + stateCookieMaxAge)"
    using assms(4,5) by (simp add: in_i64_def stateCookieMaxAge_def)
  then have "parseStateCookie later cookie (dc_Secret d) = Inr ?st"
    unfolding c using parse_state_cookie [of ?st] assms(2,8) by simp
  moreover have "mac (dc_Secret d) (rq_query rq ''sso'') \<noteq> []"
    by (metis length_hmac_sha256 list.size(3) mac_def zero_neq_numeral)
  ultimately have "Callback d later rq = Redirect returnURL
      [(SessionCookieName, SignSession ?tok (dc_Secret d), sessionTTL), (stateCookieName, [], -1)]"
    using assms(3,6,9-17) hex_decode_encode [of "mac (dc_Secret d) (rq_query rq ''sso'')"]
    by (simp add: Callback_def Let_def)
  moreover have "VerifySession t (SignSession ?tok (dc_Secret d)) (dc_Secret d) =
      (if later + sessionTTL < t then Inl (Errorf ''session expired'') else Inr ?tok)" for t
    using VerifySession_SignSession [of ?tok t] assms(4,5,7,8,14,18) ParseInt_range
    by (simp add: in_i64_def sessionTTL_def stateCookieMaxAge_def)
  ultimately show ?thesis by blast
qed

definition sample_answer :: bytes where
  "sample_answer = StdEncode (''nonce='' @ replicate 32 CHR ''0'' @ ''&external_id=42&username=alice'')"

definition sample_dc :: DiscourseConnect where
  "sample_dc = \<lparr>dc_Secret = ''secret'', dc_ForumBase = ''https://forum'', dc_CallbackURL = ''https://forum/wallet''\<rparr>"

lemma sample_answer_values:
  "ParseQuery (''nonce='' @ replicate 32 CHR ''0'' @ ''&external_id=42&username=alice'') =
     Some [(''nonce'', replicate 32 CHR ''0''), (''external_id'', ''42''), (''username'', ''alice'')]"
  "ParseInt ''42'' = Some 42" "hex_encode (replicate 16 (byte 0)) = replicate 32 CHR ''0''"
  "valid_utf8 ''/wallet/''" "valid_utf8 ''alice''" "sample_answer \<noteq> []"
  by code_simp+

theorem sign_on_witness:
  "\<exists>rq session. Callback sample_dc 20 rq =
      Redirect ''/wallet/'' [(SessionCookieName, session, sessionTTL), (stateCookieName, [], -1)] \<and>
    VerifySession 30 session ''secret'' =
      Inr \<lparr>st_DiscourseID = 42, st_Username = ''alice'', st_ExpUnix = 20 + sessionTTL\<rparr>"
proof -
  let ?rnd = "replicate 16 (byte 0)"
  obtain loc cookie maxAge where l: "Login sample_dc 10 ?rnd ''/wallet/'' = Redirect loc [(stateCookieName, cookie, maxAge)]"
    by (simp add: Login_def Let_def)
  let ?rq = "\<lparr>rq_method = ''GET'', rq_host = [], rq_path = [], rq_header = (\<lambda>_. []), rq_cookie = (\<lambda>_. Some cookie),
    rq_query = (\<lambda>k. if k = ''sso'' then sample_answer else hex_encode (mac ''secret'' sample_answer)), rq_body = []\<rparr>"
  have "\<exists>session. Callback sample_dc 20 ?rq =
      Redirect ''/wallet/'' [(SessionCookieName, session, sessionTTL), (stateCookieName, [], -1)] \<and>
    (\<forall>t. VerifySession t session (dc_Secret sample_dc) =
      (if 20 + sessionTTL < t then Inl (Errorf ''session expired'')
       else Inr \<lparr>st_DiscourseID = 42, st_Username = ''alice'', st_ExpUnix = 20 + sessionTTL\<rparr>))"
    by (rule sign_on [OF l _ _ _ _ _ _ _ _ _ _ sample_answer_values(1)])
      (simp_all add: sample_answer_values stateCookieMaxAge_def sample_dc_def Get_def,
        simp add: sample_answer_def)
  then obtain session where a: "Callback sample_dc 20 ?rq =
      Redirect ''/wallet/'' [(SessionCookieName, session, sessionTTL), (stateCookieName, [], -1)]"
    and v: "\<And>t. VerifySession t session (dc_Secret sample_dc) =
      (if 20 + sessionTTL < t then Inl (Errorf ''session expired'')
       else Inr \<lparr>st_DiscourseID = 42, st_Username = ''alice'', st_ExpUnix = 20 + sessionTTL\<rparr>)"
    by blast
  have "VerifySession 30 session ''secret'' =
      Inr \<lparr>st_DiscourseID = 42, st_Username = ''alice'', st_ExpUnix = 20 + sessionTTL\<rparr>"
    using v [of 30] by (simp add: sample_dc_def sessionTTL_def)
  with a show ?thesis by blast
qed

text \<open>
  Claim C31. No session without Discourse: whenever \<open>Callback\<close> redirects, the answer was signed
  with the shared secret, the state cookie was one the server made and is not too old, its nonce is
  the one in the answer, and the user number is positive; every other request is refused with 400
  or 401 and sets no cookie.
\<close>

theorem callback_safe:
  "case Callback d now rq of
     Rejected c m \<Rightarrow> c = 400 \<or> c = 401
   | Redirect loc cookies \<Rightarrow>
       (\<exists>cookie st raw values uid.
          hex_decode (rq_query rq ''sig'') = Some (mac (dc_Secret d) (rq_query rq ''sso'')) \<and>
          StdDecode (rq_query rq ''sso'') = Some raw \<and> ParseQuery raw = Some values \<and>
          rq_cookie rq stateCookieName = Some cookie \<and> parseStateCookie now cookie (dc_Secret d) = Inr st \<and>
          now \<le> sc_Exp st \<and> Get values ''nonce'' = sc_Nonce st \<and>
          ParseInt (Get values ''external_id'') = Some uid \<and> 0 < uid \<and>
          cookies = [(SessionCookieName, SignSession \<lparr>st_DiscourseID = uid, st_Username = Get values ''username'',
            st_ExpUnix = now + sessionTTL\<rparr> (dc_Secret d), sessionTTL), (stateCookieName, [], -1)])"
  using parseStateCookie_signed [of now _ "dc_Secret d"]
  by (auto simp: Callback_def Let_def split: option.splits sum.splits)

end
