(* ===== verification/Admin.thy ===== *)
theory Admin
  imports Auth LogApi
begin

text \<open>
  \<open>internal/admin/server.go\<close>: the login by challenge and signature, the session token and its CSRF
  token, the middleware \<open>requireAdmin\<close>, and the handlers behind it; with the parts of
  \<open>internal/ots/anchor.go\<close> that these call. The clock, the random bytes, the host that
  \<open>url.Parse\<close> finds in an \<open>Origin\<close> header and the calendar server are arguments.
\<close>

text \<open>
  \<open>ad_Pool\<close> says whether the service has a connection pool. \<open>cmd/ledger-sidecar\<close> always gives it one, and only
  \<open>anchorSTH\<close> looks.
\<close>

record AdminService =
  ad_AdminPubKey :: bytes
  ad_SessionSecret :: bytes
  ad_Pool :: bool
  ad_OTSCalendarURL :: bytes
  ad_OTSCalendarAllowlist :: "bytes list"

definition loginTTL :: int where "loginTTL = 5 * 60"
definition adminSessionTTL :: int where "adminSessionTTL = 60 * 60"
definition cookieName :: bytes where "cookieName = ''fp_admin_session''"

section \<open>Tokens\<close>

record challengeToken =
  ct_Nonce :: bytes
  ct_Exp :: int

record sessionToken =
  as_ExpUnix :: int

definition challenge_tree :: "challengeToken \<Rightarrow> json" where
  "challenge_tree t = JObj [(''n'', JStr (ct_Nonce t)), (''e'', enc_int (ct_Exp t))]"

definition challenge_field :: "challengeToken \<Rightarrow> bytes \<Rightarrow> json \<Rightarrow> challengeToken option" where
  "challenge_field t k v =
     (if field_is ''n'' k then map_option (\<lambda>x. t\<lparr>ct_Nonce := x\<rparr>) (dec_string (ct_Nonce t) v)
      else if field_is ''e'' k then map_option (\<lambda>x. t\<lparr>ct_Exp := x\<rparr>) (dec_int64 (ct_Exp t) v)
      else Some t)"

definition admin_session_tree :: "sessionToken \<Rightarrow> json" where
  "admin_session_tree t = JObj [(''e'', enc_int (as_ExpUnix t))]"

definition admin_session_field :: "sessionToken \<Rightarrow> bytes \<Rightarrow> json \<Rightarrow> sessionToken option" where
  "admin_session_field t k v =
     (if field_is ''e'' k then map_option (\<lambda>x. t\<lparr>as_ExpUnix := x\<rparr>) (dec_int64 (as_ExpUnix t) v)
      else Some t)"

text \<open>The nonce and the token that \<open>GET /admin/api/login-challenge\<close> gives to anyone.\<close>

definition loginChallenge :: "AdminService \<Rightarrow> int \<Rightarrow> bytes \<Rightarrow> bytes \<times> bytes" where
  "loginChallenge s now rnd =
     (let tok = \<lparr>ct_Nonce = hex_encode rnd, ct_Exp = now + loginTTL\<rparr>;
          enc = RawURLEncode (json_print True (challenge_tree tok));
          sig = mac (ad_SessionSecret s) enc
      in (ct_Nonce tok, enc @ ''.'' @ hex_encode sig))"

definition signSession :: "sessionToken \<Rightarrow> bytes \<Rightarrow> bytes" where
  "signSession t secret =
     (let enc = RawURLEncode (json_print True (admin_session_tree t))
      in enc @ ''.'' @ hex_encode (mac secret enc))"

definition verifySession :: "int \<Rightarrow> bytes \<Rightarrow> bytes \<Rightarrow> err + sessionToken" where
  "verifySession now s secret =
     (case split2 CHR ''.'' s of
        None \<Rightarrow> Inl (Errorf ''bad cookie format'')
      | Some (enc, sig) \<Rightarrow>
          (if hex_decode_prefix sig \<noteq> mac secret enc then Inl (Errorf ''signature mismatch'')
           else case RawURLDecode enc of
             None \<Rightarrow> Inl (Errorf ''b64'')
           | Some raw \<Rightarrow>
               (case Unmarshal admin_session_field \<lparr>as_ExpUnix = 0\<rparr> raw of
                  None \<Rightarrow> Inl (Errorf ''json'')
                | Some t \<Rightarrow> if now > as_ExpUnix t then Inl (Errorf ''expired'') else Inr t)))"

definition csrfToken :: "bytes \<Rightarrow> bytes \<Rightarrow> bytes" where
  "csrfToken secret sessionValue = hex_encode (mac secret (''csrf|'' @ sessionValue))"

definition validCSRF :: "bytes \<Rightarrow> bytes \<Rightarrow> bytes \<Rightarrow> bool" where
  "validCSRF secret sessionValue got \<longleftrightarrow> got = csrfToken secret sessionValue"

section \<open>Login\<close>

record loginReq =
  lq_Token :: bytes
  lq_SigHex :: bytes
  lq_PubKeyHex :: bytes

definition login_field :: "loginReq \<Rightarrow> bytes \<Rightarrow> json \<Rightarrow> loginReq option" where
  "login_field t k v =
     (if field_is ''token'' k then map_option (\<lambda>x. t\<lparr>lq_Token := x\<rparr>) (dec_string (lq_Token t) v)
      else if field_is ''sig_hex'' k then map_option (\<lambda>x. t\<lparr>lq_SigHex := x\<rparr>) (dec_string (lq_SigHex t) v)
      else if field_is ''pubkey_hex'' k then map_option (\<lambda>x. t\<lparr>lq_PubKeyHex := x\<rparr>) (dec_string (lq_PubKeyHex t) v)
      else Some t)"

text \<open>The challenge in a login request, if its token is one the service made and is not too old.\<close>

definition open_challenge :: "AdminService \<Rightarrow> int \<Rightarrow> bytes \<Rightarrow> (int \<times> string) + challengeToken" where
  "open_challenge s now token =
     (case split2 CHR ''.'' token of
        None \<Rightarrow> Inl (400, ''bad token'')
      | Some (enc, sig) \<Rightarrow>
          (if hex_decode_prefix sig \<noteq> mac (ad_SessionSecret s) enc then Inl (401, ''token signature mismatch'')
           else case RawURLDecode enc of
             None \<Rightarrow> Inl (400, ''b64'')
           | Some raw \<Rightarrow>
               (case Unmarshal challenge_field \<lparr>ct_Nonce = [], ct_Exp = 0\<rparr> raw of
                  None \<Rightarrow> Inl (400, ''json'')
                | Some tok \<Rightarrow>
                    if now > ct_Exp tok then Inl (401, ''challenge expired; reload page'') else Inr tok)))"

text \<open>The response, with the session cookie if there is one.\<close>

definition login ::
  "(bytes \<Rightarrow> bytes \<Rightarrow> bytes \<Rightarrow> bool) \<Rightarrow> AdminService \<Rightarrow> int \<Rightarrow> request \<Rightarrow> response \<times> bytes option" where
  "login ed s now rq =
     (case Decode login_field \<lparr>lq_Token = [], lq_SigHex = [], lq_PubKeyHex = []\<rparr> (rq_body rq) of
        None \<Rightarrow> (Fail 400 (Errorf ''json''), None)
      | Some req \<Rightarrow>
          (case open_challenge s now (lq_Token req) of
             Inl (c, m) \<Rightarrow> (Fail c (Errorf m), None)
           | Inr tok \<Rightarrow>
               (case hex_decode (lq_PubKeyHex req) of
                  None \<Rightarrow> (Fail 400 (Errorf ''bad pubkey_hex''), None)
                | Some pub \<Rightarrow>
                    (if length pub \<noteq> 32 then (Fail 400 (Errorf ''bad pubkey_hex''), None)
                     else if pub \<noteq> ad_AdminPubKey s then (Fail 403 (Errorf ''not the admin pubkey''), None)
                     else case hex_decode (lq_SigHex req) of
                       None \<Rightarrow> (Fail 400 (Errorf ''bad sig_hex''), None)
                     | Some sig \<Rightarrow>
                         (if length sig \<noteq> 64 then (Fail 400 (Errorf ''bad sig_hex''), None)
                          else if \<not> ed pub (hex_decode_prefix (ct_Nonce tok)) sig
                            then (Fail 401 (Errorf ''signature does not verify''), None)
                          else
                            let sess = \<lparr>as_ExpUnix = now + adminSessionTTL\<rparr>;
                                cookieVal = signSession sess (ad_SessionSecret s)
                            in (Reply 200 (JObj [(''ok'', JBool True), (''admin'', JStr (lq_PubKeyHex req)),
                                  (''expires_at'', enc_int (as_ExpUnix sess)),
                                  (''csrf_token'', JStr (csrfToken (ad_SessionSecret s) cookieVal))]),
                                Some cookieVal))))))"

section \<open>Sessions\<close>

definition adminSessionCookie :: "AdminService \<Rightarrow> int \<Rightarrow> request \<Rightarrow> bytes option" where
  "adminSessionCookie s now rq =
     (case rq_cookie rq cookieName of
        None \<Rightarrow> None
      | Some c \<Rightarrow> (case verifySession now c (ad_SessionSecret s) of Inl _ \<Rightarrow> None | Inr _ \<Rightarrow> Some c))"

definition isAuthed :: "AdminService \<Rightarrow> int \<Rightarrow> request \<Rightarrow> bool" where
  "isAuthed s now rq \<longleftrightarrow> adminSessionCookie s now rq \<noteq> None"

definition whoami :: "AdminService \<Rightarrow> int \<Rightarrow> request \<Rightarrow> response" where
  "whoami s now rq =
     (case adminSessionCookie s now rq of
        None \<Rightarrow> Fail 401 (Errorf ''not authenticated'')
      | Some c \<Rightarrow> Reply 200 (JObj [(''admin_pubkey_hex'', enc_hex (ad_AdminPubKey s)),
                    (''csrf_token'', JStr (csrfToken (ad_SessionSecret s) c))]))"

definition isUnsafeMethod :: "bytes \<Rightarrow> bool" where
  "isUnsafeMethod m \<longleftrightarrow> \<not> (m = ''GET'' \<or> m = ''HEAD'' \<or> m = ''OPTIONS'')"

text \<open>\<open>strings.EqualFold\<close> on ASCII strings, which host names and URLs are.\<close>

definition EqualFold :: "bytes \<Rightarrow> bytes \<Rightarrow> bool" where
  "EqualFold a b \<longleftrightarrow> fold_name a = fold_name b"

definition sameOriginWrite :: "(bytes \<Rightarrow> bytes option) \<Rightarrow> request \<Rightarrow> bool" where
  "sameOriginWrite url_host rq \<longleftrightarrow>
     (let origin = rq_header rq ''Origin''
      in if origin = [] then True
         else case url_host origin of None \<Rightarrow> False | Some h \<Rightarrow> EqualFold h (rq_host rq))"

text \<open>\<open>None\<close>: the request is passed on to the handler.\<close>

definition requireAdmin :: "(bytes \<Rightarrow> bytes option) \<Rightarrow> AdminService \<Rightarrow> int \<Rightarrow> request \<Rightarrow> response option" where
  "requireAdmin url_host s now rq =
     (case adminSessionCookie s now rq of
        None \<Rightarrow> Some (Fail 401 (Errorf ''admin auth required''))
      | Some c \<Rightarrow>
          (if isUnsafeMethod (rq_method rq) then
             (if \<not> sameOriginWrite url_host rq then Some (Fail 403 (Errorf ''cross-origin admin write rejected''))
              else if \<not> validCSRF (ad_SessionSecret s) c (rq_header rq ''X-FP-CSRF'')
                then Some (Fail 403 (Errorf ''missing or invalid csrf token''))
              else None)
           else None))"

section \<open>Reward configuration\<close>

record updateRewardReq =
  uq_EventType :: bytes
  uq_Amount :: int
  uq_Enabled :: bool

definition update_reward_field :: "updateRewardReq \<Rightarrow> bytes \<Rightarrow> json \<Rightarrow> updateRewardReq option" where
  "update_reward_field t k v =
     (if field_is ''event_type'' k then map_option (\<lambda>x. t\<lparr>uq_EventType := x\<rparr>) (dec_string (uq_EventType t) v)
      else if field_is ''amount'' k then map_option (\<lambda>x. t\<lparr>uq_Amount := x\<rparr>) (dec_int64 (uq_Amount t) v)
      else if field_is ''enabled'' k then map_option (\<lambda>x. t\<lparr>uq_Enabled := x\<rparr>) (dec_bool (uq_Enabled t) v)
      else Some t)"

definition update_reward_tree :: "updateRewardReq \<Rightarrow> json" where
  "update_reward_tree t =
     JObj [(''event_type'', JStr (uq_EventType t)), (''amount'', enc_int (uq_Amount t)),
           (''enabled'', JBool (uq_Enabled t))]"

text \<open>The update, or else the insert, of the row; either writes the same row.\<close>

definition updateRewardConfig :: "pgdb \<Rightarrow> request \<Rightarrow> response \<times> pgdb" where
  "updateRewardConfig db rq =
     (case Decode update_reward_field \<lparr>uq_EventType = [], uq_Amount = 0, uq_Enabled = False\<rparr> (rq_body rq) of
        None \<Rightarrow> (Fail 400 (Errorf ''json''), db)
      | Some req \<Rightarrow>
          (if uq_Amount req < 0 then (Fail 400 (Errorf ''amount must be >= 0''), db)
           else if uq_EventType req = [] then (Fail 400 (Errorf ''event_type required''), db)
           else if \<not> text_ok (uq_EventType req) then (Fail 500 (pg_error ''invalid byte sequence''), db)
           else
             let row = (uq_Amount req, uq_Enabled req);
                 config = (if map_of (reward_config db) (uq_EventType req) \<noteq> None
                           then AList.map_entry (uq_EventType req) (\<lambda>_. row) (reward_config db)
                           else AList.update (uq_EventType req) row (reward_config db))
             in (Reply 200 (JObj [(''ok'', JBool True)]), db\<lparr>reward_config := config\<rparr>)))"

section \<open>Dashboard\<close>

definition last_checkpoint :: "checkpoints \<Rightarrow> int \<times> bool" where
  "last_checkpoint cps =
     (case rev (sort_key fst cps) of [] \<Rightarrow> (0, False) | (n, c) # _ \<Rightarrow> (n, cp_ots_receipt c \<noteq> None))"

definition dashboard ::
  "(bytes \<Rightarrow> bytes \<Rightarrow> bytes \<Rightarrow> bool) \<Rightarrow> (bytes \<Rightarrow> bytes \<Rightarrow> bytes) \<Rightarrow> LogService option \<Rightarrow> pgdb \<Rightarrow> int \<Rightarrow> checkpoints \<Rightarrow>
   response \<times> LogService option \<times> checkpoints" where
  "dashboard ed sign txlog db now cps =
     (let supplyCirc = (case pg_TotalBalance db of Inr n \<Rightarrow> n | Inl _ \<Rightarrow> 0);
          treasury = (case map_of (accounts db) 0 of Some a \<Rightarrow> Balance a | None \<Rightarrow> 0);
          (sth, txlog, cps) =
            (case txlog of
               None \<Rightarrow> ([], None, cps)
             | Some s \<Rightarrow>
                 (case CurrentSTH ed sign s db now cps of
                    (Inl e, s, cps) \<Rightarrow> ([], Some s, cps)
                  | (Inr t, s, cps) \<Rightarrow> ([(''sth'', JObj (sth_members t))], Some s, cps)));
          (lastSize, hasReceipt) = last_checkpoint cps
      in (Reply 200 (JObj ([(''supply_circulating'', enc_int supplyCirc), (''supply_cap'', enc_int SupplyCap),
            (''treasury_balance'', enc_int treasury),
            (''tx_count'', enc_int (int (length (transactions db)))),
            (''account_count'', enc_int (int (length (accounts db)))),
            (''activated_count'', enc_int (int (length (filter (\<lambda>(d, a). Pubkey a \<noteq> None) (accounts db)))))] @ sth @
            [(''last_checkpoint_size'', enc_int lastSize), (''last_checkpoint_has_ots'', JBool hasReceipt)])),
          txlog, cps))"

text \<open>\<open>ORDER BY balance DESC LIMIT 200\<close>; rows of equal balance come in the order of the table.\<close>

definition admin_accounts :: "pgdb \<Rightarrow> response" where
  "admin_accounts db =
     (let rows = take 200 (sort_key (\<lambda>(d, a). - Balance a) (accounts db));
          out = map (\<lambda>(d, a). let pubHex = (case Pubkey a of Some k \<Rightarrow> hex_encode k | None \<Rightarrow> [])
                  in JObj [(''discourse_id'', enc_int d), (''pubkey_hex'', JStr pubHex), (''username'', JStr (Username a)),
                    (''balance'', enc_int (Balance a)), (''nonce'', enc_int (Nonce a)),
                    (''activated'', JBool (pubHex \<noteq> []))]) rows
      in Reply 200 (JObj [(''count'', enc_int (int (length out))), (''accounts'', JArr out)]))"

section \<open>Anchoring\<close>

definition DefaultCalendar :: bytes where
  "DefaultCalendar = ''https://a.pool.opentimestamps.org/digest''"

definition DigestSTH :: "bytes \<Rightarrow> bytes" where
  "DigestSTH canonical = sha256 canonical"

definition TrimRightSlash :: "bytes \<Rightarrow> bytes" where
  "TrimRightSlash s = rev (dropWhile (\<lambda>c. c = CHR ''/'') (rev s))"

definition calendarAllowed :: "AdminService \<Rightarrow> bytes \<Rightarrow> bool" where
  "calendarAllowed s calendar \<longleftrightarrow>
     (if calendar = [] then False
      else list_ex (\<lambda>candidate. EqualFold (TrimRightSlash candidate) (TrimRightSlash calendar))
        ([DefaultCalendar] @ (if ad_OTSCalendarURL s \<noteq> [] then [ad_OTSCalendarURL s] else []) @
         ad_OTSCalendarAllowlist s))"

definition AnchorCheckpoint :: "checkpoints \<Rightarrow> int \<Rightarrow> bytes \<Rightarrow> err + checkpoints" where
  "AnchorCheckpoint cps treeSize receipt =
     (if map_of cps treeSize = None then Inl (Errorf ''no checkpoint'')
      else Inr (AList.map_entry treeSize (\<lambda>c. c\<lparr>cp_ots_receipt := Some receipt\<rparr>) cps))"

definition canonical_sth :: "STH \<Rightarrow> bytes" where
  "canonical_sth t = signedSTHBytes (sth_TreeSize t) (hex_decode_prefix (sth_RootHash t)) (sth_TimestampMS t)"

definition currentAnchorMaterial ::
  "(bytes \<Rightarrow> bytes \<Rightarrow> bytes \<Rightarrow> bool) \<Rightarrow> (bytes \<Rightarrow> bytes \<Rightarrow> bytes) \<Rightarrow> LogService \<Rightarrow> pgdb \<Rightarrow> int \<Rightarrow> checkpoints \<Rightarrow>
   (err + STH \<times> bytes \<times> bytes) \<times> LogService \<times> checkpoints" where
  "currentAnchorMaterial ed sign s db now cps =
     (case CurrentSTH ed sign s db now cps of
        (r, s, cps) \<Rightarrow>
          (and_then r (\<lambda>t. Inr (t, DigestSTH (canonical_sth t), canonical_sth t)), s, cps))"

definition anchorDigest ::
  "(bytes \<Rightarrow> bytes \<Rightarrow> bytes \<Rightarrow> bool) \<Rightarrow> (bytes \<Rightarrow> bytes \<Rightarrow> bytes) \<Rightarrow> LogService \<Rightarrow> pgdb \<Rightarrow> int \<Rightarrow> checkpoints \<Rightarrow>
   response \<times> LogService \<times> checkpoints" where
  "anchorDigest ed sign s db now cps =
     (case currentAnchorMaterial ed sign s db now cps of
        (r, s, cps) \<Rightarrow>
          (reply_or_500 (and_then r (\<lambda>(t, digest, canonical).
             Inr (JObj [(''sth'', JObj (sth_members t)), (''canonical_msg'', enc_hex canonical),
               (''digest_to_anchor'', enc_hex digest)]))), s, cps))"

record anchorReq =
  aq_CalendarURL :: bytes
  aq_Force :: bool

definition anchor_field :: "anchorReq \<Rightarrow> bytes \<Rightarrow> json \<Rightarrow> anchorReq option" where
  "anchor_field t k v =
     (if field_is ''calendar_url'' k then map_option (\<lambda>x. t\<lparr>aq_CalendarURL := x\<rparr>) (dec_string (aq_CalendarURL t) v)
      else if field_is ''force'' k then map_option (\<lambda>x. t\<lparr>aq_Force := x\<rparr>) (dec_bool (aq_Force t) v)
      else Some t)"

text \<open>An empty body is an \<open>io.EOF\<close>, which the handler accepts.\<close>

definition anchor_request :: "bytes \<Rightarrow> anchorReq option" where
  "anchor_request body =
     (let z = \<lparr>aq_CalendarURL = [], aq_Force = False\<rparr>
      in if skip_ws body = [] then Some z else Decode anchor_field z body)"

definition receipt_of :: "checkpoints \<Rightarrow> int \<Rightarrow> bytes" where
  "receipt_of cps n =
     (case map_of cps n of Some c \<Rightarrow> (case cp_ots_receipt c of Some r \<Rightarrow> r | None \<Rightarrow> []) | None \<Rightarrow> [])"

definition anchorSTH ::
  "(bytes \<Rightarrow> bytes \<Rightarrow> bytes \<Rightarrow> bool) \<Rightarrow> (bytes \<Rightarrow> bytes \<Rightarrow> bytes) \<Rightarrow> (bytes \<Rightarrow> bytes \<Rightarrow> err + bytes) \<Rightarrow> AdminService \<Rightarrow>
   LogService option \<Rightarrow> pgdb \<Rightarrow> int \<Rightarrow> checkpoints \<Rightarrow> request \<Rightarrow> response \<times> LogService option \<times> checkpoints" where
  "anchorSTH ed sign submit s txlog db now cps rq =
     (case txlog of
        None \<Rightarrow> (Fail 503 (Errorf ''STH service not configured''), None, cps)
      | Some l \<Rightarrow>
          (if \<not> ad_Pool s then (Fail 503 (Errorf ''database pool not configured''), Some l, cps)
           else case anchor_request (rq_body rq) of
             None \<Rightarrow> (Fail 400 (Errorf ''json''), Some l, cps)
           | Some req \<Rightarrow>
               (case currentAnchorMaterial ed sign l db now cps of
                  (Inl e, l, cps) \<Rightarrow> (Fail 500 e, Some l, cps)
                | (Inr (t, digest, canonical), l, cps) \<Rightarrow>
                    (let existing = receipt_of cps (sth_TreeSize t);
                         calendar = (if aq_CalendarURL req \<noteq> [] then aq_CalendarURL req
                                     else if ad_OTSCalendarURL s \<noteq> [] then ad_OTSCalendarURL s else DefaultCalendar);
                         answer = (\<lambda>already more receipt. Reply 200 (JObj ([(''ok'', JBool True),
                            (''already_anchored'', JBool already), (''sth'', JObj (sth_members t))] @ more @
                            [(''digest_to_anchor'', enc_hex digest),
                            (''receipt_len'', enc_int (int (length receipt))), (''receipt_b64'', enc_bytes receipt)])))
                     in if sth_TreeSize t = 0 then (Fail 409 (Errorf ''tree is empty; nothing to anchor''), Some l, cps)
                        else if existing \<noteq> [] \<and> \<not> aq_Force req then (answer True [] existing, Some l, cps)
                        else if \<not> calendarAllowed s calendar then (Fail 400 (Errorf ''calendar_url is not allowed''), Some l, cps)
                        else case submit calendar digest of
                          Inl e \<Rightarrow> (Fail 502 e, Some l, cps)
                        | Inr receipt \<Rightarrow>
                            (case AnchorCheckpoint cps (sth_TreeSize t) receipt of
                               Inl e \<Rightarrow> (Fail 500 e, Some l, cps)
                             | Inr cps \<Rightarrow> (answer False [(''calendar'', JStr calendar)] receipt, Some l, cps))))))"

end
