(* ===== verification/AdminProperties.thy ===== *)
theory AdminProperties
  imports Admin LogProperties
begin

text \<open>
  The properties of the admin interface: what a login needs, what \<open>requireAdmin\<close> lets through,
  and that a login challenge, which anyone may ask for, passes for a session.
\<close>

section \<open>Tokens\<close>

lemma admin_keys [simp]:
  "field_is ''n'' ''n''" "\<not> field_is ''n'' ''e''" "field_is ''e'' ''e''" "\<not> field_is ''e'' ''n''"
  "valid_utf8 ''n''" "valid_utf8 ''e''" "valid_utf8 ''event_type''" "valid_utf8 ''amount''" "valid_utf8 ''enabled''"
  "field_is ''event_type'' ''event_type''" "\<not> field_is ''event_type'' ''amount''"
  "\<not> field_is ''event_type'' ''enabled''" "field_is ''amount'' ''amount''" "\<not> field_is ''amount'' ''enabled''"
  "field_is ''enabled'' ''enabled''"
  by code_simp+

lemma challenge_decodes:
  assumes "valid_utf8 (ct_Nonce t)" "in_i64 (ct_Exp t)"
  shows "Unmarshal admin_session_field \<lparr>as_ExpUnix = 0\<rparr> (json_print h (challenge_tree t)) = Some \<lparr>as_ExpUnix = ct_Exp t\<rparr>"
    and "Unmarshal challenge_field \<lparr>ct_Nonce = [], ct_Exp = 0\<rparr> (json_print h (challenge_tree t)) = Some t"
proof -
  have "printable max_depth (challenge_tree t)" using assms by (simp add: challenge_tree_def)
  note u = Unmarshal_print [OF this]
  show "Unmarshal admin_session_field \<lparr>as_ExpUnix = 0\<rparr> (json_print h (challenge_tree t)) = Some \<lparr>as_ExpUnix = ct_Exp t\<rparr>"
    "Unmarshal challenge_field \<lparr>ct_Nonce = [], ct_Exp = 0\<rparr> (json_print h (challenge_tree t)) = Some t"
    unfolding u using assms
    by (simp_all add: challenge_tree_def decode_struct_def admin_session_field_def challenge_field_def)
qed

lemma admin_session_decodes:
  assumes "in_i64 (as_ExpUnix t)"
  shows "Unmarshal admin_session_field \<lparr>as_ExpUnix = 0\<rparr> (json_print h (admin_session_tree t)) = Some t"
proof -
  have "printable max_depth (admin_session_tree t)" using assms by (simp add: admin_session_tree_def)
  note u = Unmarshal_print [OF this]
  show ?thesis
    unfolding u using assms by (simp add: admin_session_tree_def decode_struct_def admin_session_field_def)
qed

text \<open>
  A login session opens until its hour is over and not after it; and whatever string
  opens as a session carries, in hexadecimal, the MAC of its first part under the server's secret.
\<close>

theorem admin_session_roundtrip:
  assumes "in_i64 e"
  shows "verifySession now (signSession \<lparr>as_ExpUnix = e\<rparr> secret) secret =
      (if e < now then Inl (Errorf ''expired'') else Inr \<lparr>as_ExpUnix = e\<rparr>) \<and>
    (\<forall>s t. verifySession now s secret = Inr t \<longrightarrow>
      (\<exists>enc sig. s = enc @ CHR ''.'' # sig \<and> hex_decode_prefix sig = mac secret enc))"
proof -
  have "verifySession now (signSession \<lparr>as_ExpUnix = e\<rparr> secret) secret =
      (if e < now then Inl (Errorf ''expired'') else Inr \<lparr>as_ExpUnix = e\<rparr>)"
    using admin_session_decodes [of "\<lparr>as_ExpUnix = e\<rparr>"] assms
    by (simp add: verifySession_def signSession_def Let_def)
  then show ?thesis
    by (fastforce simp: verifySession_def dest!: split2_Some split: option.splits if_splits)
qed

theorem admin_session_roundtrip_witness:
  "verifySession 7 (signSession \<lparr>as_ExpUnix = 9\<rparr> ''secret'') ''secret'' = Inr \<lparr>as_ExpUnix = 9\<rparr>"
  using admin_session_roundtrip [of 9 7 "''secret''"] by (simp add: in_i64_def)

text \<open>A well-formed challenge opens as one.\<close>

lemma verifySession_challenge:
  assumes "in_i64 (now + loginTTL)"
  shows "verifySession later (snd (loginChallenge s now rnd)) (ad_SessionSecret s) =
    (if now + loginTTL < later then Inl (Errorf ''expired'') else Inr \<lparr>as_ExpUnix = now + loginTTL\<rparr>)"
  using challenge_decodes(1) [of "\<lparr>ct_Nonce = hex_encode rnd, ct_Exp = now + loginTTL\<rparr>" True] assms
  by (simp add: verifySession_def loginChallenge_def Let_def)

text \<open>
  Claim C28. A challenge is a session: the token that \<open>GET /admin/api/login-challenge\<close> gives to
  anybody, put into the session cookie, is accepted for five minutes as an admin's session;
  \<open>whoami\<close> answers it with the matching CSRF token, and with both, \<open>requireAdmin\<close> passes a
  request of any method that carries no foreign \<open>Origin\<close>. No signature is asked for anywhere.
\<close>

theorem challenge_is_session:
  assumes "0 \<le> now" "now < 2 ^ 62" "now \<le> later" "later \<le> now + loginTTL"
    and "loginChallenge s now rnd = (nonce, token)"
    and "rq_cookie rq cookieName = Some token" "rq_header rq ''Origin'' = []"
  shows "\<exists>csrf. whoami s later rq = Reply 200 (JObj
      [(''admin_pubkey_hex'', enc_hex (ad_AdminPubKey s)), (''csrf_token'', JStr csrf)]) \<and>
    requireAdmin url_host s later
      (rq\<lparr>rq_method := m, rq_header := (rq_header rq)(''X-FP-CSRF'' := csrf)\<rparr>) = None"
proof -
  have "in_i64 (now + loginTTL)" using assms(1,2) by (simp add: in_i64_def loginTTL_def)
  from verifySession_challenge [OF this, of later s rnd] assms(4,5)
  have "verifySession later token (ad_SessionSecret s) = Inr \<lparr>as_ExpUnix = now + loginTTL\<rparr>" by simp
  with assms(6,7) show ?thesis
    by (simp add: whoami_def adminSessionCookie_def requireAdmin_def sameOriginWrite_def validCSRF_def)
qed

definition sample_admin :: AdminService where
  "sample_admin = \<lparr>ad_AdminPubKey = zero_key, ad_SessionSecret = ''secret'', ad_Pool = True, ad_OTSCalendarURL = [],
     ad_OTSCalendarAllowlist = []\<rparr>"

theorem challenge_is_session_witness:
  "\<exists>token csrf. requireAdmin (\<lambda>_. None) sample_admin 100 ((sample_request [])\<lparr>
      rq_method := ''POST'', rq_cookie := (\<lambda>_. Some token), rq_header := (\<lambda>_. [])(''X-FP-CSRF'' := csrf)\<rparr>) = None"
proof -
  obtain nonce token where t: "loginChallenge sample_admin 50 [] = (nonce, token)" by fastforce
  let ?rq = "(sample_request [])\<lparr>rq_cookie := (\<lambda>_. Some token)\<rparr>"
  have "\<exists>csrf. whoami sample_admin 100 ?rq = Reply 200 (JObj
      [(''admin_pubkey_hex'', enc_hex (ad_AdminPubKey sample_admin)), (''csrf_token'', JStr csrf)]) \<and>
    requireAdmin (\<lambda>_. None) sample_admin 100
      (?rq\<lparr>rq_method := ''POST'', rq_header := (rq_header ?rq)(''X-FP-CSRF'' := csrf)\<rparr>) = None"
    by (rule challenge_is_session [OF _ _ _ _ t]) (simp_all add: loginTTL_def sample_request_def)
  then show ?thesis by (auto simp: sample_request_def)
qed

lemma open_challenge_fresh: "open_challenge s now token = Inr tok \<Longrightarrow> now \<le> ct_Exp tok"
  by (auto simp: open_challenge_def split: option.splits if_splits)

text \<open>
  Claim C29. The login itself is sound: \<open>login\<close> hands out a session only to a request whose
  signature verifies, under the admin's key, for the nonce of an unexpired challenge that carries
  the server's MAC; and the session it hands out is valid for exactly the next hour.
\<close>

theorem login_needs_signature:
  assumes "login ed s now rq = (r, Some cookie)" "0 \<le> now" "now < 2 ^ 62"
  shows "(\<exists>req tok sig. Decode login_field \<lparr>lq_Token = [], lq_SigHex = [], lq_PubKeyHex = []\<rparr> (rq_body rq) = Some req \<and>
      open_challenge s now (lq_Token req) = Inr tok \<and> now \<le> ct_Exp tok \<and>
      hex_decode (lq_SigHex req) = Some sig \<and> hex_decode (lq_PubKeyHex req) = Some (ad_AdminPubKey s) \<and>
      ed (ad_AdminPubKey s) (hex_decode_prefix (ct_Nonce tok)) sig) \<and> status r = 200 \<and>
    (\<forall>t. (\<exists>u. verifySession t cookie (ad_SessionSecret s) = Inr u) \<longleftrightarrow> t \<le> now + adminSessionTTL)"
proof -
  have c: "cookie = signSession \<lparr>as_ExpUnix = now + adminSessionTTL\<rparr> (ad_SessionSecret s)" "status r = 200"
    and req: "\<exists>req tok sig. Decode login_field \<lparr>lq_Token = [], lq_SigHex = [], lq_PubKeyHex = []\<rparr> (rq_body rq) = Some req \<and>
      open_challenge s now (lq_Token req) = Inr tok \<and> now \<le> ct_Exp tok \<and>
      hex_decode (lq_SigHex req) = Some sig \<and> hex_decode (lq_PubKeyHex req) = Some (ad_AdminPubKey s) \<and>
      ed (ad_AdminPubKey s) (hex_decode_prefix (ct_Nonce tok)) sig"
    using assms(1) open_challenge_fresh [of s now]
    by (auto simp: login_def Let_def split: option.splits sum.splits if_splits prod.splits)
  have "in_i64 (now + adminSessionTTL)" using assms(2,3) by (simp add: in_i64_def adminSessionTTL_def)
  then have "verifySession t cookie (ad_SessionSecret s) =
      (if now + adminSessionTTL < t then Inl (Errorf ''expired'') else Inr \<lparr>as_ExpUnix = now + adminSessionTTL\<rparr>)" for t
    using admin_session_decodes [of "\<lparr>as_ExpUnix = now + adminSessionTTL\<rparr>"]
    by (simp add: c(1) verifySession_def signSession_def Let_def)
  with c(2) req show ?thesis by auto
qed


definition login_tree :: "loginReq \<Rightarrow> json" where
  "login_tree r = JObj [(''token'', JStr (lq_Token r)), (''sig_hex'', JStr (lq_SigHex r)), (''pubkey_hex'', JStr (lq_PubKeyHex r))]"

lemma login_keys [simp]:
  "field_is ''token'' ''token''" "\<not> field_is ''token'' ''sig_hex''" "\<not> field_is ''token'' ''pubkey_hex''"
  "field_is ''sig_hex'' ''sig_hex''" "\<not> field_is ''sig_hex'' ''pubkey_hex''" "field_is ''pubkey_hex'' ''pubkey_hex''"
  "valid_utf8 ''token''" "valid_utf8 ''sig_hex''" "valid_utf8 ''pubkey_hex''"
  by code_simp+

lemma login_decodes:
  assumes "valid_utf8 (lq_Token r)" "valid_utf8 (lq_SigHex r)" "valid_utf8 (lq_PubKeyHex r)"
  shows "Decode login_field \<lparr>lq_Token = [], lq_SigHex = [], lq_PubKeyHex = []\<rparr> (json_print h (login_tree r)) = Some r"
proof -
  have "printable max_depth (login_tree r)" using assms by (simp add: login_tree_def)
  note d = Decode_print [OF this]
  show ?thesis unfolding d by (simp add: login_tree_def decode_struct_def login_field_def)
qed

lemma token_valid_utf8: "valid_utf8 (snd (loginChallenge s now rnd))"
proof -
  have "code CHR ''.'' < 0x80" by code_simp
  then have "list_all (\<lambda>c. code c < 0x80) (RawURLEncode x @ ''.'' @ hex_encode y)" for x y
    using hex_ascii RawURL_ascii by simp
  then show ?thesis unfolding loginChallenge_def Let_def snd_conv by (rule ascii_valid_utf8)
qed

lemma challenge_opens:
  assumes "in_i64 (now + loginTTL)" "now \<le> later" "later \<le> now + loginTTL"
  shows "open_challenge s later (snd (loginChallenge s now rnd)) = Inr \<lparr>ct_Nonce = hex_encode rnd, ct_Exp = now + loginTTL\<rparr>"
  using challenge_decodes(2) [of "\<lparr>ct_Nonce = hex_encode rnd, ct_Exp = now + loginTTL\<rparr>" True] assms
  by (simp add: open_challenge_def loginChallenge_def Let_def)

theorem login_needs_signature_witness:
  "\<exists>r cookie. login toy_ed sample_admin 60 (sample_request []
      \<lparr>rq_body := json_print True (login_tree \<lparr>lq_Token = snd (loginChallenge sample_admin 50 []),
        lq_SigHex = hex_encode zero_sig, lq_PubKeyHex = hex_encode zero_key\<rparr>)\<rparr>) = (r, Some cookie) \<and>
    status r = 200 \<and> (\<exists>u. verifySession 90 cookie (ad_SessionSecret sample_admin) = Inr u)"
proof -
  let ?rq = "sample_request [] \<lparr>rq_body := json_print True (login_tree \<lparr>lq_Token = snd (loginChallenge sample_admin 50 []),
        lq_SigHex = hex_encode zero_sig, lq_PubKeyHex = hex_encode zero_key\<rparr>)\<rparr>"
  have "open_challenge sample_admin 60 (snd (loginChallenge sample_admin 50 [])) =
      Inr \<lparr>ct_Nonce = hex_encode [], ct_Exp = 50 + loginTTL\<rparr>"
    by (rule challenge_opens) (simp_all add: in_i64_def loginTTL_def)
  then obtain r cookie where l: "login toy_ed sample_admin 60 ?rq = (r, Some cookie)"
    by (simp add: login_def login_decodes token_valid_utf8 Let_def sample_admin_def)
  from login_needs_signature [OF this] have "status r = 200"
    "(\<exists>u. verifySession 90 cookie (ad_SessionSecret sample_admin) = Inr u) \<longleftrightarrow> 90 \<le> 60 + adminSessionTTL"
    by auto
  with l show ?thesis by (simp add: adminSessionTTL_def)
qed

section \<open>The middleware\<close>

text \<open>
  \<open>requireAdmin\<close> passes a request on exactly when it carries a session cookie that
  opens and, if its method may write, no foreign \<open>Origin\<close> and the CSRF token of that very cookie;
  it answers 401 to a request without a session and 403 to any other that it stops.
\<close>

theorem requireAdmin_exact:
  "case requireAdmin url_host s now rq of
     None \<Rightarrow> (\<exists>c t. rq_cookie rq cookieName = Some c \<and> verifySession now c (ad_SessionSecret s) = Inr t \<and>
       (if rq_method rq \<in> {''GET'', ''HEAD'', ''OPTIONS''} then True
        else sameOriginWrite url_host rq \<and> rq_header rq ''X-FP-CSRF'' = csrfToken (ad_SessionSecret s) c))
   | Some r \<Rightarrow>
       (if isAuthed s now rq then status r = 403 \<and> rq_method rq \<notin> {''GET'', ''HEAD'', ''OPTIONS''} \<and>
          (sameOriginWrite url_host rq = (\<exists>e. r = Fail 403 (Errorf e) \<and> e = ''missing or invalid csrf token''))
        else status r = 401)"
  by (auto simp: requireAdmin_def adminSessionCookie_def isAuthed_def isUnsafeMethod_def validCSRF_def
      split: option.splits sum.splits if_splits)

section \<open>Reward configuration\<close>

text \<open>
  A valid update sets the amount and the switch of exactly one event type, as the payment
  code reads them, and touches nothing else; an update with a negative amount or without a type
  is refused with 400 and changes nothing.
\<close>

theorem updateRewardConfig_sets:
  assumes "valid_utf8 ty" "in_i64 amount"
    and "rq_body rq = json_print h (update_reward_tree \<lparr>uq_EventType = ty, uq_Amount = amount, uq_Enabled = on\<rparr>)"
  shows "case updateRewardConfig db rq of (r, db') \<Rightarrow>
     (if amount < 0 \<or> ty = [] then status r = 400 \<and> db' = db
      else if byte 0 \<in> set ty then status r = 500 \<and> db' = db
      else status r = 200 \<and> accounts db' = accounts db \<and> transactions db' = transactions db \<and>
        reward_events db' = reward_events db \<and>
        (\<forall>k. GetRewardAmount db' k = (if k = ty then (amount, on) else GetRewardAmount db k)))"
proof -
  let ?req = "\<lparr>uq_EventType = ty, uq_Amount = amount, uq_Enabled = on\<rparr>"
  have "printable max_depth (update_reward_tree ?req)" using assms(1) by (simp add: update_reward_tree_def)
  note d = Decode_print [OF this]
  have "Decode update_reward_field \<lparr>uq_EventType = [], uq_Amount = 0, uq_Enabled = False\<rparr> (rq_body rq) = Some ?req"
    unfolding assms(3) d using assms(2)
    by (simp add: update_reward_tree_def decode_struct_def update_reward_field_def dec_bool_def)
  then show ?thesis
    using assms(1)
    by (auto simp: updateRewardConfig_def Let_def text_ok_def GetRewardAmount_def map_of_map_entry update_conv'
        split: option.splits)
qed

theorem updateRewardConfig_sets_witness:
  "case updateRewardConfig pg_empty (sample_request []\<lparr>rq_body := json_print True (update_reward_tree
      \<lparr>uq_EventType = ''signup_bonus'', uq_Amount = 7, uq_Enabled = False\<rparr>)\<rparr>) of (r, db') \<Rightarrow>
     status r = 200 \<and> GetRewardAmount db' ''signup_bonus'' = (7, False) \<and>
     GetRewardAmount db' ''quality_post'' = (500, True)"
proof -
  let ?rq = "sample_request []\<lparr>rq_body := json_print True (update_reward_tree
      \<lparr>uq_EventType = ''signup_bonus'', uq_Amount = 7, uq_Enabled = False\<rparr>)\<rparr>"
  have "valid_utf8 ''signup_bonus''" "byte 0 \<notin> set ''signup_bonus''"
    "GetRewardAmount pg_empty ''quality_post'' = (500, True)" by code_simp+
  with updateRewardConfig_sets [of "''signup_bonus''" 7 ?rq True False pg_empty] show ?thesis
    by (auto simp: in_i64_def split: prod.splits)
qed

section \<open>Anchoring\<close>

text \<open>
  Claim C32. \<open>anchorSTH\<close> talks to no calendar but the allowed ones: two calendar servers that
  agree on the allowed URLs cannot be told apart by it, whatever URL the request names.
\<close>

theorem anchor_only_allowed:
  assumes "\<And>c d. calendarAllowed s c \<Longrightarrow> submit c d = submit' c d"
  shows "anchorSTH ed sign submit s txlog db now cps rq = anchorSTH ed sign submit' s txlog db now cps rq"
  using assms
  by (auto simp: anchorSTH_def Let_def split: option.splits sum.splits prod.splits)

theorem anchor_only_allowed_witness:
  "\<forall>txlog db now cps rq. anchorSTH toy_ed toy_sign (\<lambda>c d. Inr d) sample_admin txlog db now cps rq =
     anchorSTH toy_ed toy_sign (\<lambda>c d. if c = ''http://internal/'' then Inl (Errorf ''boom'') else Inr d)
       sample_admin txlog db now cps rq"
proof -
  have n: "\<not> calendarAllowed sample_admin ''http://internal/''" unfolding sample_admin_def zero_key_def by code_simp
  show ?thesis
  proof (intro allI, rule anchor_only_allowed)
    fix c d
    assume "calendarAllowed sample_admin c"
    with n have "c \<noteq> ''http://internal/''" by blast
    then show "(Inr d :: err + bytes) = (if c = ''http://internal/'' then Inl (Errorf ''boom'') else Inr d)"
      by (rule if_not_P [symmetric])
  qed
qed

end
