(* ===== verification/Verify.thy ===== *)
theory Verify
  imports LogApi
begin

text \<open>
  \<open>cmd/ledger-verify/main.go\<close>: the audit tool. It asks a log server for its tree head, all its
  leaves, some audit paths and a consistency proof, and checks what it is told. The server is a
  parameter and may be hostile: \<open>get n q\<close> is what it answers to the \<open>n\<close>-th request of the run,
  \<open>None\<close> if the request fails, else a status and a body. \<open>ed\<close> is the signature check, \<open>idxs\<close> the
  indexes that \<open>rand.IntN\<close> draws. \<open>fatal\<close> is an error value; the lines that the tool prints are
  not modelled. The queries are those of \<open>GET /log/sth\<close>, \<open>/log/leaves?from=&to=\<close>,
  \<open>/log/inclusion?leaf_index=&tree_size=\<close> and \<open>/log/consistency?first=&second=\<close>.
\<close>

datatype query =
    AskSTH
  | AskLeaves int int
  | AskInclusion int int
  | AskConsistency int int

type_synonym web = "nat \<Rightarrow> query \<Rightarrow> (int \<times> bytes) option"

section \<open>Reading\<close>

definition mustDecodeHex :: "bytes \<Rightarrow> err + bytes" where
  "mustDecodeHex s = (case hex_decode s of None \<Rightarrow> Inl (Errorf ''bad hex'') | Some b \<Rightarrow> Inr b)"

text \<open>
  \<open>base64.StdEncoding.DecodeString\<close> with its error ignored: the bytes decoded before the error. A
  last group of digits is decoded even when something follows its padding.
\<close>

fun b64_prefix :: "bytes \<Rightarrow> bytes" where
  "b64_prefix (a # b # c # d # r) =
     (case (index_of a b64_std, index_of b b64_std) of
        (Some w, Some x) \<Rightarrow>
          (if d = CHR ''='' then
             (if c = CHR ''='' then quad2 w x
              else case index_of c b64_std of Some y \<Rightarrow> quad3 w x y | None \<Rightarrow> [])
           else
             (case (index_of c b64_std, index_of d b64_std) of
                (Some y, Some z) \<Rightarrow> quad4 w x y z @ b64_prefix r
              | _ \<Rightarrow> []))
      | _ \<Rightarrow> [])"
| "b64_prefix _ = []"

definition StdDecode_prefix :: "bytes \<Rightarrow> bytes" where
  "StdDecode_prefix s = b64_prefix (filter (\<lambda>c. c \<noteq> CHR 0x0D \<and> c \<noteq> CHR 0x0A) s)"

text \<open>The structs that responses are decoded into.\<close>

definition sth_field :: "STH \<Rightarrow> bytes \<Rightarrow> json \<Rightarrow> STH option" where
  "sth_field t k v =
     (if field_is ''tree_size'' k then map_option (\<lambda>x. t\<lparr>sth_TreeSize := x\<rparr>) (dec_int64 (sth_TreeSize t) v)
      else if field_is ''root_hash_hex'' k then map_option (\<lambda>x. t\<lparr>sth_RootHash := x\<rparr>) (dec_string (sth_RootHash t) v)
      else if field_is ''timestamp_ms'' k then map_option (\<lambda>x. t\<lparr>sth_TimestampMS := x\<rparr>) (dec_int64 (sth_TimestampMS t) v)
      else if field_is ''admin_sig_hex'' k then map_option (\<lambda>x. t\<lparr>sth_AdminSig := x\<rparr>) (dec_string (sth_AdminSig t) v)
      else if field_is ''admin_pubkey_hex'' k then map_option (\<lambda>x. t\<lparr>sth_AdminPubKey := x\<rparr>) (dec_string (sth_AdminPubKey t) v)
      else Some t)"

definition leaf_field :: "LeafRecord \<Rightarrow> bytes \<Rightarrow> json \<Rightarrow> LeafRecord option" where
  "leaf_field l k v =
     (if field_is ''leaf_index'' k then map_option (\<lambda>x. l\<lparr>lr_LeafIndex := x\<rparr>) (dec_int64 (lr_LeafIndex l) v)
      else if field_is ''tx_type'' k then map_option (\<lambda>x. l\<lparr>lr_TxType := x\<rparr>) (dec_string (lr_TxType l) v)
      else if field_is ''payload_b64'' k then map_option (\<lambda>x. l\<lparr>lr_Payload := x\<rparr>) (dec_string (lr_Payload l) v)
      else if field_is ''sig_hex'' k then map_option (\<lambda>x. l\<lparr>lr_Sig := x\<rparr>) (dec_string (lr_Sig l) v)
      else if field_is ''signer_hex'' k then map_option (\<lambda>x. l\<lparr>lr_Signer := x\<rparr>) (dec_string (lr_Signer l) v)
      else if field_is ''prev_hash_hex'' k then map_option (\<lambda>x. l\<lparr>lr_PrevHash := x\<rparr>) (dec_string (lr_PrevHash l) v)
      else if field_is ''tx_hash_hex'' k then map_option (\<lambda>x. l\<lparr>lr_TxHash := x\<rparr>) (dec_string (lr_TxHash l) v)
      else Some l)"

definition zero_leaf :: LeafRecord where
  "zero_leaf = \<lparr>lr_LeafIndex = 0, lr_TxType = [], lr_Payload = [], lr_Sig = [], lr_Signer = [], lr_PrevHash = [], lr_TxHash = []\<rparr>"

record leavesResp =
  lv_Count :: int
  lv_Leaves :: "LeafRecord list"

definition leaves_field :: "leavesResp \<Rightarrow> bytes \<Rightarrow> json \<Rightarrow> leavesResp option" where
  "leaves_field t k v =
     (if field_is ''count'' k then map_option (\<lambda>x. t\<lparr>lv_Count := x\<rparr>) (dec_int64 (lv_Count t) v)
      else if field_is ''leaves'' k
        then map_option (\<lambda>x. t\<lparr>lv_Leaves := x\<rparr>) (dec_slice (decode_struct leaf_field) zero_leaf (lv_Leaves t) v)
      else Some t)"

definition cons_field :: "bytes list \<Rightarrow> bytes \<Rightarrow> json \<Rightarrow> bytes list option" where
  "cons_field ps k v = (if field_is ''proof'' k then dec_slice dec_string [] ps v else Some ps)"

text \<open>
  The answer to an inclusion query is decoded with the error ignored: a value of the wrong type
  leaves its place as it was. The members \<open>leaf_index\<close> and \<open>tree_size\<close> are not read.
\<close>

record inclResp =
  ir_LeafHashHex :: bytes
  ir_AuditPath :: "bytes list"

definition lenient :: "('a \<Rightarrow> json \<Rightarrow> 'a option) \<Rightarrow> 'a \<Rightarrow> json \<Rightarrow> 'a option" where
  "lenient dec old v = Some (case dec old v of None \<Rightarrow> old | Some x \<Rightarrow> x)"

definition incl_field :: "inclResp \<Rightarrow> bytes \<Rightarrow> json \<Rightarrow> inclResp option" where
  "incl_field t k v =
     (if field_is ''leaf_hash_hex'' k
        then map_option (\<lambda>x. t\<lparr>ir_LeafHashHex := x\<rparr>) (lenient dec_string (ir_LeafHashHex t) v)
      else if field_is ''audit_path'' k
        then map_option (\<lambda>x. t\<lparr>ir_AuditPath := x\<rparr>) (lenient (dec_slice (lenient dec_string) []) (ir_AuditPath t) v)
      else Some t)"

definition incl_resp :: "bytes \<Rightarrow> inclResp" where
  "incl_resp body =
     (let z = \<lparr>ir_LeafHashHex = [], ir_AuditPath = []\<rparr>
      in case Decode incl_field z body of None \<Rightarrow> z | Some t \<Rightarrow> t)"

section \<open>Asking\<close>

definition ask_ok :: "web \<Rightarrow> nat \<Rightarrow> query \<Rightarrow> err + bytes" where
  "ask_ok get n q =
     (case get n q of
        None \<Rightarrow> Inl (Errorf ''http'')
      | Some (st, body) \<Rightarrow> if st \<noteq> 200 then Inl (Errorf ''status'') else Inr body)"

definition mustGetSTH :: "web \<Rightarrow> nat \<Rightarrow> err + STH" where
  "mustGetSTH get n =
     and_then (ask_ok get n AskSTH) (\<lambda>body.
       case Decode sth_field
           \<lparr>sth_TreeSize = 0, sth_RootHash = [], sth_TimestampMS = 0, sth_AdminSig = [], sth_AdminPubKey = []\<rparr> body of
         None \<Rightarrow> Inl (Errorf ''json'')
       | Some t \<Rightarrow> Inr t)"

definition mustGetLeaves :: "web \<Rightarrow> nat \<Rightarrow> int \<Rightarrow> int \<Rightarrow> err + LeafRecord list" where
  "mustGetLeaves get n start to =
     and_then (ask_ok get n (AskLeaves start to)) (\<lambda>body.
       case Decode leaves_field \<lparr>lv_Count = 0, lv_Leaves = []\<rparr> body of
         None \<Rightarrow> Inl (Errorf ''json'')
       | Some t \<Rightarrow> Inr (lv_Leaves t))"

definition mustGetConsistency :: "web \<Rightarrow> nat \<Rightarrow> int \<Rightarrow> int \<Rightarrow> err + bytes list" where
  "mustGetConsistency get n first second =
     and_then (ask_ok get n (AskConsistency first second)) (\<lambda>body.
       case Decode cons_field [] body of
         None \<Rightarrow> Inl (Errorf ''json'')
       | Some ps \<Rightarrow> Inr ps)"

text \<open>
  The loop over the pages, which ends when the index after the last leaf reaches the size. It need
  not end: the server chooses the indexes. The result comes with the number of the next request.
\<close>

partial_function (option) fetchAllLeaves ::
  "web \<Rightarrow> int \<Rightarrow> int \<Rightarrow> nat \<Rightarrow> LeafRecord list \<Rightarrow> (err + LeafRecord list \<times> nat) option" where
  "fetchAllLeaves get treeSize start n all =
     (if start < treeSize then
        (case mustGetLeaves get n start treeSize of
           Inl e \<Rightarrow> Some (Inl e)
         | Inr batch \<Rightarrow>
             (if batch = [] then Some (Inl (Errorf ''server returned 0 leaves''))
              else fetchAllLeaves get treeSize (i64 (lr_LeafIndex (last batch) + 1)) (Suc n) (all @ batch)))
      else Some (Inr (all, n)))"

section \<open>Checking\<close>

text \<open>\<open>ed25519.Verify\<close> panics on a key of the wrong length, and accepts no signature of the wrong length.\<close>

definition ed25519_Verify :: "(bytes \<Rightarrow> bytes \<Rightarrow> bytes \<Rightarrow> bool) \<Rightarrow> bytes \<Rightarrow> bytes \<Rightarrow> bytes \<Rightarrow> err + bool" where
  "ed25519_Verify ed pub msg sig =
     (if length pub \<noteq> PubKeyLen then Inl (Errorf ''panic: bad public key length'')
      else Inr (length sig = SigLen \<and> ed pub msg sig))"

definition verifySTHSig :: "(bytes \<Rightarrow> bytes \<Rightarrow> bytes \<Rightarrow> bool) \<Rightarrow> STH \<Rightarrow> err + unit" where
  "verifySTHSig ed sth =
     and_then (mustDecodeHex (sth_AdminPubKey sth)) (\<lambda>pub.
     and_then (mustDecodeHex (sth_RootHash sth)) (\<lambda>rootHash.
     and_then (mustDecodeHex (sth_AdminSig sth)) (\<lambda>sig.
     and_then (ed25519_Verify ed pub (signedSTHBytes (sth_TreeSize sth) rootHash (sth_TimestampMS sth)) sig) (\<lambda>good.
       if good then Inr () else Inl (Errorf ''STH signature invalid'')))))"

text \<open>Step 3, for one leaf after another; it returns the transaction hashes, the leaves of step 4.\<close>

fun verifyLeaves :: "(bytes \<Rightarrow> bytes \<Rightarrow> bytes \<Rightarrow> bool) \<Rightarrow> bytes \<Rightarrow> LeafRecord list \<Rightarrow> err + bytes list" where
  "verifyLeaves ed prevHash [] = Inr []"
| "verifyLeaves ed prevHash (lf # lfs) =
     (let payload = StdDecode_prefix (lr_Payload lf) in
      and_then (mustDecodeHex (lr_Sig lf)) (\<lambda>sig.
      and_then (mustDecodeHex (lr_Signer lf)) (\<lambda>signer.
      and_then (mustDecodeHex (lr_PrevHash lf)) (\<lambda>prev.
      and_then (mustDecodeHex (lr_TxHash lf)) (\<lambda>txHash.
        if prev \<noteq> prevHash then Inl (Errorf ''prev_hash mismatch (chain broken)'')
        else if sha256 (payload @ sig @ prev) \<noteq> txHash then Inl (Errorf ''tx_hash recomputation failed'')
        else and_then (ed25519_Verify ed signer payload sig) (\<lambda>good.
          if \<not> good then Inl (Errorf ''ed25519 signature invalid'')
          else and_then (verifyLeaves ed txHash lfs) (\<lambda>hs. Inr (txHash # hs))))))))"

text \<open>Step 5: the payloads, and the amount of the last genesis.\<close>

fun checkPayloads :: "int \<Rightarrow> LeafRecord list \<Rightarrow> err + int" where
  "checkPayloads genesisAmount [] = Inr genesisAmount"
| "checkPayloads genesisAmount (lf # lfs) =
     (let payload = StdDecode_prefix (lr_Payload lf) in
      if lr_TxType lf = TxGenesis then
        (case genesis_payload payload of
           None \<Rightarrow> Inl (Errorf ''genesis decode'')
         | Some p \<Rightarrow>
             if gp_Amount p \<noteq> SupplyCap then Inl (Errorf ''genesis amount'') else checkPayloads (gp_Amount p) lfs)
      else if lr_TxType lf = TxTransfer then
        (case transfer_payload payload of
           None \<Rightarrow> Inl (Errorf ''transfer decode'')
         | Some p \<Rightarrow>
             if tp_Amount p \<le> 0 then Inl (Errorf ''transfer amount must be positive'')
             else checkPayloads genesisAmount lfs)
      else if lr_TxType lf = TxReclaimInvalid then
        (case reclaim_payload payload of
           None \<Rightarrow> Inl (Errorf ''reclaim_invalid decode'')
         | Some p \<Rightarrow>
             if ri_FromDiscourseID p \<ge> 0 \<or> ri_Amount p \<le> 0 then Inl (Errorf ''invalid reclaim_invalid payload'')
             else checkPayloads genesisAmount lfs)
      else checkPayloads genesisAmount lfs)"

fun decode_all :: "bytes list \<Rightarrow> err + bytes list" where
  "decode_all [] = Inr []"
| "decode_all (p # ps) = and_then (mustDecodeHex p) (\<lambda>x. and_then (decode_all ps) (\<lambda>xs. Inr (x # xs)))"

text \<open>Step 6: the status of the answer is not looked at.\<close>

fun verifyInclusionSamples :: "web \<Rightarrow> nat \<Rightarrow> LeafRecord list \<Rightarrow> int \<Rightarrow> bytes \<Rightarrow> int list \<Rightarrow> err + nat" where
  "verifyInclusionSamples get n leaves treeSize root [] = Inr n"
| "verifyInclusionSamples get n leaves treeSize root (idx # idxs) =
     (case get n (AskInclusion idx treeSize) of
        None \<Rightarrow> Inl (Errorf ''http'')
      | Some (st, body) \<Rightarrow>
          (let resp = incl_resp body in
           and_then (decode_all (ir_AuditPath resp)) (\<lambda>path.
           and_then (mustDecodeHex (ir_LeafHashHex resp)) (\<lambda>leafHash.
           and_then (mustDecodeHex (lr_TxHash (leaves ! nat idx))) (\<lambda>txHash.
             if leafHash \<noteq> LeafHash txHash then Inl (Errorf ''leaf_hash is not the local recomputation'')
             else case VerifyInclusion root leafHash idx treeSize path of
               Inl e \<Rightarrow> Inl (Errorf ''inclusion'')
             | Inr _ \<Rightarrow> verifyInclusionSamples get (Suc n) leaves treeSize root idxs)))))"

definition verifyMidpoint :: "web \<Rightarrow> nat \<Rightarrow> int \<Rightarrow> bytes list \<Rightarrow> bytes \<Rightarrow> err + unit" where
  "verifyMidpoint get n treeSize leafBytes computedRoot =
     (if treeSize \<ge> 2 then
        (let mid = treeSize div 2; midRoot = Root (take (nat mid) leafBytes) in
         and_then (mustGetConsistency get n mid treeSize) (\<lambda>proof.
         and_then (decode_all proof) (\<lambda>raws.
           case VerifyConsistency midRoot computedRoot mid treeSize raws of
             Inl e \<Rightarrow> Inl (Errorf ''consistency proof failed'')
           | Inr _ \<Rightarrow> Inr ())))
      else Inr ())"

text \<open>Steps 3 to 7, after the leaves are there; \<open>n\<close> is the number of the next request.\<close>

definition verifyFetched ::
  "(bytes \<Rightarrow> bytes \<Rightarrow> bytes \<Rightarrow> bool) \<Rightarrow> web \<Rightarrow> nat \<Rightarrow> int \<Rightarrow> bytes \<Rightarrow> LeafRecord list \<Rightarrow> int list \<Rightarrow> err + unit" where
  "verifyFetched ed get n treeSize rootHash leaves idxs =
     (if int (length leaves) \<noteq> treeSize then Inl (Errorf ''wrong number of leaves'')
      else and_then (verifyLeaves ed (replicate 32 (byte 0)) leaves) (\<lambda>leafBytes.
        let computedRoot = Root leafBytes in
        if computedRoot \<noteq> rootHash then Inl (Errorf ''Merkle root mismatch'')
        else and_then (checkPayloads 0 leaves) (\<lambda>genesisAmount.
          if genesisAmount \<noteq> SupplyCap then Inl (Errorf ''no genesis tx found or wrong amount'')
          else and_then (verifyInclusionSamples get n leaves treeSize computedRoot idxs) (\<lambda>n.
            verifyMidpoint get n treeSize leafBytes computedRoot))))"

text \<open>
  \<open>main\<close>. A run that passes returns the tree head and the leaves that it has checked; \<open>None\<close>
  means that it does not return. Slicing \<open>sth.RootHash[:16]\<close> for the output panics if it is shorter.
\<close>

definition verify ::
  "(bytes \<Rightarrow> bytes \<Rightarrow> bytes \<Rightarrow> bool) \<Rightarrow> web \<Rightarrow> int list \<Rightarrow> (err + STH \<times> LeafRecord list) option" where
  "verify ed get idxs =
     (case and_then (mustGetSTH get 0) (\<lambda>sth.
           and_then (verifySTHSig ed sth) (\<lambda>_.
           and_then (mustDecodeHex (sth_RootHash sth)) (\<lambda>rootHash.
             if length (sth_RootHash sth) < 16 then Inl (Errorf ''panic: slice bounds out of range'')
             else Inr (sth, rootHash)))) of
        Inl e \<Rightarrow> Some (Inl e)
      | Inr (sth, rootHash) \<Rightarrow>
          (if sth_TreeSize sth = 0 then Some (Inr (sth, []))
           else map_option
             (\<lambda>r. and_then r (\<lambda>(leaves, n).
                and_then (verifyFetched ed get n (sth_TreeSize sth) rootHash leaves idxs) (\<lambda>_. Inr (sth, leaves))))
             (fetchAllLeaves get (sth_TreeSize sth) 0 1 [])))"

end
