(* ===== verification/VerifyProperties.thy ===== *)
theory VerifyProperties
  imports Verify LogProperties
begin

text \<open>
  What a run of the audit tool shows, whatever the server does: two runs that pass against the same
  root have seen the same log. That an honest server passes is shown in the next theory. A
  hostile server can keep the tool busy for ever.
\<close>

section \<open>One root, one log\<close>

lemma collides_in:
  "collides xs ys \<Longrightarrow> collides (a # xs @ us) (b # ys @ vs)" "collides xs ys \<Longrightarrow> collides (a # us @ xs) (b # vs @ ys)"
  "collides xs ys \<Longrightarrow> collides (xs @ us) (ys @ vs)"
  by (erule collides_mono; auto)+

lemma not_collides: "\<not> collides xs ys \<Longrightarrow> x \<in> set xs \<Longrightarrow> y \<in> set ys \<Longrightarrow> sha256 x = sha256 y \<Longrightarrow> x = y"
  by (auto simp: collides_def list_ex_iff)

text \<open>The Merkle root determines the leaf hashes, or the collision is among what was hashed.\<close>

lemma rootOfHashes_inject:
  "length xs = length ys \<Longrightarrow> hash_list xs \<Longrightarrow> hash_list ys \<Longrightarrow> rootOfHashes xs = rootOfHashes ys \<Longrightarrow>
   xs = ys \<or> collides (tree_inputs xs) (tree_inputs ys)"
proof (induction xs arbitrary: ys rule: rootOfHashes.induct)
  case (1 xs)
  show ?case
  proof (cases "length xs \<le> 1")
    case True
    with 1 show ?thesis
      by (cases xs; cases ys) (auto simp: rootOfHashes.simps)
  next
    case False
    let ?k = "largestPowerOfTwoLessThan (length xs)"
    have k: "0 < ?k" "?k < length xs" using split_bounds [of "length xs"] False by simp_all
    have eq: "NodeHash (rootOfHashes (take ?k xs)) (rootOfHashes (drop ?k xs)) =
        NodeHash (rootOfHashes (take ?k ys)) (rootOfHashes (drop ?k ys))"
      using "1.prems"(1,4) False by (simp add: rootOfHashes.simps [of xs] rootOfHashes.simps [of ys] Let_def)
    have len: "length (rootOfHashes (take ?k xs)) = length (rootOfHashes (take ?k ys))"
      using k "1.prems"(1-3) by (subst (1 2) length_rootOfHashes) auto
    have inputs: "tree_inputs zs = node_input (rootOfHashes (take ?k zs)) (rootOfHashes (drop ?k zs))
        # tree_inputs (take ?k zs) @ tree_inputs (drop ?k zs)" if "length zs = length xs" for zs
      using that False by (simp add: tree_inputs.simps [of zs] Let_def)
    from eq len show ?thesis
    proof (rule NodeHash_eq_cases [OF _ disjI1])
      assume same: "rootOfHashes (take ?k xs) = rootOfHashes (take ?k ys)"
        "rootOfHashes (drop ?k xs) = rootOfHashes (drop ?k ys)"
      have "take ?k xs = take ?k ys \<or> collides (tree_inputs (take ?k xs)) (tree_inputs (take ?k ys))"
        using "1.IH"(1) [OF False refl, of "take ?k ys"] "1.prems"(1-3) same(1) by simp
      moreover have "drop ?k xs = drop ?k ys \<or> collides (tree_inputs (drop ?k xs)) (tree_inputs (drop ?k ys))"
        using "1.IH"(2) [OF False refl, of "drop ?k ys"] "1.prems"(1-3) same(2) by simp
      ultimately show ?thesis
      proof (elim disjE)
        assume "take ?k xs = take ?k ys" "drop ?k xs = drop ?k ys"
        then show ?thesis by (metis append_take_drop_id)
      qed (use inputs [of xs] inputs [of ys] "1.prems"(1) collides_in in \<open>simp_all\<close>)
    next
      assume "node_input (rootOfHashes (take ?k xs)) (rootOfHashes (drop ?k xs)) \<noteq>
          node_input (rootOfHashes (take ?k ys)) (rootOfHashes (drop ?k ys))"
        "sha256 (node_input (rootOfHashes (take ?k xs)) (rootOfHashes (drop ?k xs))) =
          sha256 (node_input (rootOfHashes (take ?k ys)) (rootOfHashes (drop ?k ys)))"
      with inputs [of xs] inputs [of ys] "1.prems"(1) show ?thesis by (simp add: collides_def)
    qed
  qed
qed


text \<open>
  The strings that a run hashes for the leaves \<open>ls\<close>: the nodes and leaves of the tree, and the
  transactions; and what it accepts of a leaf.
\<close>

definition tx_input :: "LeafRecord \<Rightarrow> bytes" where
  "tx_input l = StdDecode_prefix (lr_Payload l) @ hex_decode_prefix (lr_Sig l) @ hex_decode_prefix (lr_PrevHash l)"

definition leaf_tx_hash :: "LeafRecord \<Rightarrow> bytes" where
  "leaf_tx_hash l = hex_decode_prefix (lr_TxHash l)"

definition hashed :: "LeafRecord list \<Rightarrow> bytes list" where
  "hashed ls = tree_inputs (map LeafHash (map leaf_tx_hash ls)) @ map (\<lambda>l. CHR 0x00 # leaf_tx_hash l) ls @ map tx_input ls"

definition content :: "LeafRecord \<Rightarrow> bytes \<times> bytes \<times> bytes \<times> bytes" where
  "content l = (StdDecode_prefix (lr_Payload l), hex_decode_prefix (lr_Sig l), hex_decode_prefix (lr_PrevHash l), leaf_tx_hash l)"

definition checked :: "LeafRecord \<Rightarrow> bool" where
  "checked l \<longleftrightarrow> length (hex_decode_prefix (lr_Sig l)) = SigLen \<and> length (hex_decode_prefix (lr_PrevHash l)) = HashSize \<and>
     sha256 (tx_input l) = leaf_tx_hash l"

lemma mustDecodeHex_Inr: "mustDecodeHex s = Inr b \<Longrightarrow> hex_decode_prefix s = b"
  by (auto simp: mustDecodeHex_def hex_decode_prefix_eq split: option.splits)

lemma verifyLeaves_checked:
  "verifyLeaves ed prev ls = Inr hs \<Longrightarrow> length prev = HashSize \<Longrightarrow> hs = map leaf_tx_hash ls \<and> list_all checked ls"
proof (induction ls arbitrary: prev hs)
  case (Cons l ls)
  obtain sig signer h hs' where d: "mustDecodeHex (lr_Sig l) = Inr sig" "mustDecodeHex (lr_Signer l) = Inr signer"
    "mustDecodeHex (lr_PrevHash l) = Inr prev" "mustDecodeHex (lr_TxHash l) = Inr h"
    "sha256 (StdDecode_prefix (lr_Payload l) @ sig @ prev) = h" "length sig = SigLen"
    "verifyLeaves ed h ls = Inr hs'" "hs = h # hs'"
    using Cons.prems(1) by (auto simp: Let_def result_simps ed25519_Verify_def split: if_splits)
  have "length h = HashSize" using d(5) by (auto simp: HashSize_def)
  from Cons.IH [OF d(7) this] d Cons.prems(2) d(1,3,4) [THEN mustDecodeHex_Inr] show ?case
    by (simp add: checked_def tx_input_def leaf_tx_hash_def)
qed simp

text \<open>Equal transaction hashes come from equal leaves, or the collision is at hand.\<close>

lemma checked_content:
  assumes "checked l" "checked m" "leaf_tx_hash l = leaf_tx_hash m" "content l \<noteq> content m"
  shows "tx_input l \<noteq> tx_input m \<and> sha256 (tx_input l) = sha256 (tx_input m)"
proof
  have split: "p = q \<and> s = t \<and> u = v" if "p @ s @ u = q @ t @ v" "length s = length t" "length u = length v"
    for p s u q t v :: bytes
    using that by auto
  show "tx_input l \<noteq> tx_input m"
  proof
    assume "tx_input l = tx_input m"
    from split [OF this [unfolded tx_input_def]] assms(1,2) have
      "StdDecode_prefix (lr_Payload l) = StdDecode_prefix (lr_Payload m) \<and> hex_decode_prefix (lr_Sig l) = hex_decode_prefix (lr_Sig m) \<and>
       hex_decode_prefix (lr_PrevHash l) = hex_decode_prefix (lr_PrevHash m)"
      by (simp add: checked_def)
    with assms(3,4) show False by (simp add: content_def)
  qed
qed (use assms in \<open>simp add: checked_def\<close>)

lemma map_eq_or_differ:
  assumes "length xs = length ys" "map f xs \<noteq> map f ys"
  obtains i where "i < length xs" "f (xs ! i) \<noteq> f (ys ! i)"
  using assms by (auto simp: list_eq_iff_nth_eq)

lemma same_root_same_content:
  assumes "list_all checked ls" "list_all checked ms" "length ls = length ms" "ls \<noteq> []"
    and "Root (map leaf_tx_hash ls) = Root (map leaf_tx_hash ms)"
  shows "map content ls = map content ms \<or> collides (hashed ls) (hashed ms)"
proof (rule disjCI)
  assume none: "\<not> collides (hashed ls) (hashed ms)"
  let ?hs = "map LeafHash (map leaf_tx_hash ls)" and ?ks = "map LeafHash (map leaf_tx_hash ms)"
  have "ms \<noteq> []" using assms(3,4) by auto
  then have "rootOfHashes ?hs = rootOfHashes ?ks"
    using assms(4,5) Root_rootOfHashes [of "map leaf_tx_hash ls"] Root_rootOfHashes [of "map leaf_tx_hash ms"] by simp
  with rootOfHashes_inject [of ?hs ?ks] assms(3) have "?hs = ?ks \<or> collides (tree_inputs ?hs) (tree_inputs ?ks)"
    by (simp del: map_map)
  with none have leaves: "?hs = ?ks"
    using collides_in(3) unfolding hashed_def by blast
  have "map leaf_tx_hash ls = map leaf_tx_hash ms"
  proof (rule ccontr)
    assume "map leaf_tx_hash ls \<noteq> map leaf_tx_hash ms"
    then obtain i where i: "i < length ls" "leaf_tx_hash (ls ! i) \<noteq> leaf_tx_hash (ms ! i)"
      using map_eq_or_differ assms(3) by blast
    moreover have "LeafHash (leaf_tx_hash (ls ! i)) = LeafHash (leaf_tx_hash (ms ! i))"
      using arg_cong [OF leaves, of "\<lambda>xs. xs ! i"] i(1) assms(3) by simp
    moreover have "CHR 0x00 # leaf_tx_hash (ls ! i) \<in> set (hashed ls)" "CHR 0x00 # leaf_tx_hash (ms ! i) \<in> set (hashed ms)"
      using i(1) assms(3) by (simp_all add: hashed_def)
    ultimately show False using not_collides [OF none] by (auto simp: LeafHash_def)
  qed
  show "map content ls = map content ms"
  proof (rule ccontr)
    assume "map content ls \<noteq> map content ms"
    then obtain i where i: "i < length ls" "content (ls ! i) \<noteq> content (ms ! i)"
      using map_eq_or_differ assms(3) by blast
    have "leaf_tx_hash (ls ! i) = leaf_tx_hash (ms ! i)"
      using arg_cong [OF \<open>map leaf_tx_hash ls = map leaf_tx_hash ms\<close>, of "\<lambda>xs. xs ! i"] i(1) assms(3) by simp
    from checked_content [OF _ _ this i(2)] i(1) assms(1-3)
    have "tx_input (ls ! i) \<noteq> tx_input (ms ! i) \<and> sha256 (tx_input (ls ! i)) = sha256 (tx_input (ms ! i))"
      by (simp add: list_all_length)
    moreover have "tx_input (ls ! i) \<in> set (hashed ls)" "tx_input (ms ! i) \<in> set (hashed ms)"
      using i(1) assms(3) by (simp_all add: hashed_def)
    ultimately show False using not_collides [OF none] by blast
  qed
qed


text \<open>What a run that passes has computed.\<close>

lemma verify_passes:
  assumes "verify ed get idxs = Some (Inr (sth, ls))"
  obtains (empty) "sth_TreeSize sth = 0" "ls = []"
    | (full) hs where "verifyLeaves ed ZeroHash ls = Inr hs" "int (length ls) = sth_TreeSize sth"
        "hex_decode (sth_RootHash sth) = Some (Root hs)" "ls \<noteq> []"
proof -
  obtain root where r: "mustDecodeHex (sth_RootHash sth) = Inr root"
    and rest: "if sth_TreeSize sth = 0 then ls = []
      else \<exists>n. fetchAllLeaves get (sth_TreeSize sth) 0 1 [] = Some (Inr (ls, n)) \<and>
        verifyFetched ed get n (sth_TreeSize sth) root ls idxs = Inr ()"
    using assms by (auto simp: verify_def result_simps split: sum.splits if_splits)
  show thesis
  proof (cases "sth_TreeSize sth = 0")
    case True
    with rest empty show thesis by simp
  next
    case False
    with rest obtain n where n: "verifyFetched ed get n (sth_TreeSize sth) root ls idxs = Inr ()" by auto
    then obtain hs where "verifyLeaves ed ZeroHash ls = Inr hs" "Root hs = root" "int (length ls) = sth_TreeSize sth"
      by (auto simp: verifyFetched_def result_simps Let_def ZeroHash_def HashSize_def split: if_splits)
    moreover have "hex_decode (sth_RootHash sth) = Some root" using r by (auto simp: mustDecodeHex_def split: option.splits)
    moreover from calculation False have "ls \<noteq> []" by auto
    ultimately show thesis using full [of hs] by blast
  qed
qed

section \<open>A server that keeps the tool busy\<close>

text \<open>A page of one leaf that says that its index is -1.\<close>

definition stuck_page :: bytes where
  "stuck_page = json_print True (JObj [(''leaves'', JArr [JObj [(''leaf_index'', enc_int (-1))]])])"

definition stuck_server :: web where
  "stuck_server n q = Some (200, stuck_page)"

lemma stuck_leaves: "mustGetLeaves stuck_server n start to = Inr [zero_leaf\<lparr>lr_LeafIndex := -1\<rparr>]"
proof -
  have "Decode leaves_field \<lparr>lv_Count = 0, lv_Leaves = []\<rparr> stuck_page = Some \<lparr>lv_Count = 0, lv_Leaves = [zero_leaf\<lparr>lr_LeafIndex := -1\<rparr>]\<rparr>"
    by code_simp
  then show ?thesis by (simp add: mustGetLeaves_def ask_ok_def stuck_server_def)
qed

text \<open>
  Claim C27. The audit need not end: a server that repeats a leaf whose index is -1 is asked for the
  leaves from 0 on again and again, for every size of the tree.
\<close>

theorem hostile_server_never_done:
  "0 < treeSize \<Longrightarrow> fetchAllLeaves stuck_server treeSize 0 n all = None"
proof -
  have "\<not> (s = stuck_server \<and> start = 0 \<and> 0 < t)" if "fetchAllLeaves s t start k xs = Some r" for s t start k xs r
    using that
  proof (rule fetchAllLeaves.raw_induct [rotated])
    fix f :: "web \<Rightarrow> int \<Rightarrow> int \<Rightarrow> nat \<Rightarrow> LeafRecord list \<Rightarrow> (err + LeafRecord list \<times> nat) option" and s t start k xs r
    assume IH: "\<And>s t start k xs r. f s t start k xs = Some r \<Longrightarrow> \<not> (s = stuck_server \<and> start = 0 \<and> 0 < t)"
      and eq: "(if start < t then
        (case mustGetLeaves s k start t of
           Inl e \<Rightarrow> Some (Inl e)
         | Inr batch \<Rightarrow>
             (if batch = [] then Some (Inl (Errorf ''server returned 0 leaves''))
              else f s t (i64 (lr_LeafIndex (last batch) + 1)) (Suc k) (xs @ batch)))
      else Some (Inr (xs, k))) = Some r"
    show "\<not> (s = stuck_server \<and> start = 0 \<and> 0 < t)"
      using eq IH [of stuck_server t 0] by (auto simp: stuck_leaves i64_def)
  qed
  then show "0 < treeSize \<Longrightarrow> fetchAllLeaves stuck_server treeSize 0 n all = None"
    by (cases "fetchAllLeaves stuck_server treeSize 0 n all") auto
qed

theorem hostile_server_never_done_witness:
  "fetchAllLeaves stuck_server 3 0 1 [] = None"
  by (rule hostile_server_never_done) simp

end
