(* ===== verification/Api.thy ===== *)
theory Api
  imports Auth StoreContract
begin

text \<open>
  \<open>internal/api/server.go\<close>: the public endpoints, over any store. A handler takes the state of
  the store and returns its response with the new state; \<open>now\<close> is the clock. The path parameter
  that the router extracts is an argument (\<open>idStr\<close>). The members of a Go map are listed in the
  order in which the code sets them.
\<close>

record Server =
  sv_DC :: "DiscourseConnect option"
  sv_DevHeaderAuthToken :: bytes

section \<open>Who is asking\<close>

definition resolveHeaderUser :: "request \<Rightarrow> err + int \<times> bytes" where
  "resolveHeaderUser rq =
     (let idStr = rq_header rq ''X-Discourse-User-Id''; name = rq_header rq ''X-Discourse-Username''
      in if idStr = [] \<or> name = [] then Inl (Errorf ''missing X-Discourse-User-Id or X-Discourse-Username (dev auth)'')
         else case ParseInt idStr of
           None \<Rightarrow> Inl (Errorf ''bad X-Discourse-User-Id'')
         | Some n \<Rightarrow> if n \<le> 0 then Inl (Errorf ''X-Discourse-User-Id must be positive'') else Inr (n, name))"

definition cookie_user :: "Server \<Rightarrow> int \<Rightarrow> request \<Rightarrow> (int \<times> bytes) option" where
  "cookie_user sv now rq =
     (case (sv_DC sv, rq_cookie rq SessionCookieName) of
        (Some d, Some c) \<Rightarrow>
          (case VerifySession now c (dc_Secret d) of
             Inr tok \<Rightarrow> Some (st_DiscourseID tok, st_Username tok)
           | Inl _ \<Rightarrow> None)
      | _ \<Rightarrow> None)"

definition resolveCurrentUser :: "Server \<Rightarrow> int \<Rightarrow> request \<Rightarrow> err + int \<times> bytes" where
  "resolveCurrentUser sv now rq =
     (case cookie_user sv now rq of
        Some u \<Rightarrow> Inr u
      | None \<Rightarrow>
          (if sv_DevHeaderAuthToken sv \<noteq> [] \<and> rq_header rq ''X-Wallet-Dev-Auth'' = sv_DevHeaderAuthToken sv
           then resolveHeaderUser rq
           else Inl (Errorf ''not authenticated (no fp_session cookie); visit /wallet/auth/discourse/login'')))"

section \<open>Accounts\<close>

definition accountResponse :: "Account \<Rightarrow> bool \<Rightarrow> (bytes \<times> json) list" where
  "accountResponse a includeNonce =
     [(''discourse_id'', enc_int (DiscourseID a)), (''username'', JStr (Username a)),
      (''balance'', enc_int (Balance a)),
      (''pubkey_hex'', (case Pubkey a of Some k \<Rightarrow> enc_hex k | None \<Rightarrow> JStr [])),
      (''registered'', JBool (has_pubkey a))] @
     (if includeNonce then [(''nonce'', enc_int (Nonce a))] else [])"

definition activity :: "Account \<Rightarrow> bool \<Rightarrow> json" where
  "activity a includeNonce =
     JObj (AList.update ''activated'' (JBool (has_pubkey a))
       (AList.update ''registered'' (JBool (has_pubkey a)) (accountResponse a includeNonce)))"

text \<open>A handler's answer after an error of the store: 500, and the state as it was.\<close>

definition or_500 :: "err + response \<Rightarrow> response" where
  "or_500 r = (case r of Inl e \<Rightarrow> Fail 500 e | Inr x \<Rightarrow> x)"

definition me :: "('s, 't) store_ops \<Rightarrow> Server \<Rightarrow> int \<Rightarrow> 's \<Rightarrow> request \<Rightarrow> response" where
  "me S sv now s rq =
     (case resolveCurrentUser sv now rq of
        Inl e \<Rightarrow> Fail 401 e
      | Inr (n, name) \<Rightarrow>
          or_500 (and_then (Begin S s) (\<lambda>stx. and_then (GetAccountByDiscourseID S stx n) (\<lambda>a.
            Inr (Reply 200
              (case a of
                 None \<Rightarrow> JObj [(''discourse_id'', enc_int n), (''username'', JStr name), (''registered'', JBool False),
                           (''activated'', JBool False), (''balance'', enc_int 0), (''nonce'', enc_int 0)]
               | Some a \<Rightarrow> activity a True))))))"

text \<open>What an id without an account is answered.\<close>

definition no_account :: "int \<Rightarrow> json" where
  "no_account n =
     JObj [(''discourse_id'', enc_int n), (''balance'', enc_int 0), (''registered'', JBool False), (''activated'', JBool False)]"

definition balance_json :: "int \<Rightarrow> Account option \<Rightarrow> json" where
  "balance_json n a = (case a of None \<Rightarrow> no_account n | Some a \<Rightarrow> activity a False)"

definition balance :: "('s, 't) store_ops \<Rightarrow> 's \<Rightarrow> bytes \<Rightarrow> response" where
  "balance S s idStr =
     (case ParseInt idStr of
        None \<Rightarrow> Fail 400 (Errorf ''bad discourse_id'')
      | Some n \<Rightarrow>
          (if n < TreasuryDscID then Fail 400 (Errorf ''bad discourse_id'')
           else or_500 (and_then (Begin S s) (\<lambda>stx. and_then (GetAccountByDiscourseID S stx n) (\<lambda>a.
             Inr (Reply 200 (balance_json n a)))))))"

section \<open>Balances of many ids\<close>

text \<open>The loop over the ids: those not seen before, unless one is below zero.\<close>

fun new_ids :: "int list \<Rightarrow> int list \<Rightarrow> err + int list" where
  "new_ids seen [] = Inr []"
| "new_ids seen (n # ns) =
     (if n < TreasuryDscID then Inl (Errorf ''bad discourse_id'')
      else if n \<in> set seen then new_ids seen ns
      else and_then (new_ids (n # seen) ns) (\<lambda>out. Inr (n # out)))"

definition normalizeDiscourseIDs :: "int list \<Rightarrow> nat \<Rightarrow> err + int list" where
  "normalizeDiscourseIDs raw most =
     (if length raw = 0 then Inl (Errorf ''discourse_ids required'')
      else if length raw > most then Inl (Errorf ''too many discourse_ids'')
      else and_then (new_ids [] raw) (\<lambda>out.
        if length out = 0 then Inl (Errorf ''discourse_ids required'') else Inr out))"

text \<open>
  A \<open>[]int64\<close> in JSON: \<open>null\<close> gives none; an array is decoded into the slice that is there, so
  that a \<open>null\<close> inside it leaves the old element, or zero. (A slice is its elements here: what a
  third member of the same name may find beyond its length is not modelled.)
\<close>

fun dec_ints :: "int list \<Rightarrow> json list \<Rightarrow> int list option" where
  "dec_ints old [] = Some []"
| "dec_ints old (v # vs) =
     (case (dec_int64 (case old of [] \<Rightarrow> 0 | n # _ \<Rightarrow> n) v, dec_ints (tl old) vs) of
        (Some n, Some ns) \<Rightarrow> Some (n # ns)
      | _ \<Rightarrow> None)"

definition dec_int_list :: "int list \<Rightarrow> json \<Rightarrow> int list option" where
  "dec_int_list old v = (case v of JNull \<Rightarrow> Some [] | JArr vs \<Rightarrow> dec_ints old vs | _ \<Rightarrow> None)"

definition balances_field :: "int list \<Rightarrow> bytes \<Rightarrow> json \<Rightarrow> int list option" where
  "balances_field ids k v = (if field_is ''discourse_ids'' k then dec_int_list ids v else Some ids)"

definition balances :: "('s, 't) store_ops \<Rightarrow> 's \<Rightarrow> request \<Rightarrow> response" where
  "balances S s rq =
     (case Decode balances_field [] (rq_body rq) of
        None \<Rightarrow> Fail 400 (Errorf ''json'')
      | Some raw \<Rightarrow>
          (case normalizeDiscourseIDs raw 200 of
             Inl e \<Rightarrow> Fail 400 e
           | Inr ids \<Rightarrow>
               or_500 (and_then (Begin S s) (\<lambda>stx. and_then (GetAccountsByDiscourseIDs S stx ids) (\<lambda>found.
                 let accounts = map (\<lambda>n. balance_json n (map_of found n)) ids
                 in Inr (Reply 200 (JObj [(''count'', enc_int (int (length accounts))), (''accounts'', JArr accounts)])))))))"

section \<open>Treasury\<close>

definition treasury :: "('s, 't) store_ops \<Rightarrow> 's \<Rightarrow> response" where
  "treasury S s =
     or_500 (and_then (Begin S s) (\<lambda>stx. and_then (GetAccountByDiscourseID S stx TreasuryDscID) (\<lambda>t.
       and_then (TotalBalance S stx) (\<lambda>total.
         Inr (Reply 200 (JObj [
           (''treasury_balance'', enc_int (case t of None \<Rightarrow> 0 | Some a \<Rightarrow> Balance a)),
           (''treasury_registered'', JBool (t \<noteq> None)),
           (''supply_circulating'', enc_int total), (''supply_cap'', enc_int SupplyCap),
           (''supply_ok'', JBool (total = SupplyCap))]))))))"

section \<open>Registration\<close>

text \<open>
  \<open>register\<close> looks the account up and then writes; it does not take the ledger lock, and a
  transaction reads what others have committed, so other writers may come in between.
  \<open>register_write\<close> is the part after the look-up: it returns the response and, where the code
  commits, the new state of the transaction.
\<close>

definition register_field :: "bytes \<Rightarrow> bytes \<Rightarrow> json \<Rightarrow> bytes option" where
  "register_field h k v = (if field_is ''pubkey_hex'' k then dec_string h v else Some h)"

definition activated :: "Account \<Rightarrow> json" where
  "activated a = JObj (AList.update ''activated'' (JBool True) (accountResponse a True))"

definition register_write ::
  "('s, 't) store_ops \<Rightarrow> 't \<Rightarrow> Account option \<Rightarrow> int \<Rightarrow> bytes \<Rightarrow> bytes \<Rightarrow> response \<times> 't option" where
  "register_write S stx existing n name pub =
     (case existing of
        None \<Rightarrow>
          (let a = \<lparr>DiscourseID = n, Pubkey = Some pub, Username = name, Nonce = 0, Balance = 0\<rparr>
           in case UpsertAccount S stx a of
                Inl e \<Rightarrow> (Fail 500 e, None)
              | Inr stx \<Rightarrow> (Reply 201 (activated a), Some stx))
      | Some a \<Rightarrow>
          (if \<not> has_pubkey a then
             (case UpdateUsernameAndPubKey S stx n pub name of
                Inl e \<Rightarrow> (Fail 500 e, None)
              | Inr stx \<Rightarrow> (Reply 200 (activated (a\<lparr>Pubkey := Some pub, Username := name\<rparr>)), Some stx))
           else if Pubkey a = Some pub then (Reply 200 (JObj (accountResponse a True)), None)
           else (Fail 409 (Errorf ''account already has a different pubkey; use rotate_key to change''), None)))"

definition commit_response ::
  "('s, 't) store_ops \<Rightarrow> 's \<Rightarrow> response \<times> 't option \<Rightarrow> response \<times> 's" where
  "commit_response S s rt =
     (case rt of
        (r, None) \<Rightarrow> (r, s)
      | (r, Some stx) \<Rightarrow> (case Commit S s stx of Inl e \<Rightarrow> (Fail 500 e, s) | Inr s \<Rightarrow> (r, s)))"

definition register_as :: "('s, 't) store_ops \<Rightarrow> 's \<Rightarrow> int \<Rightarrow> bytes \<Rightarrow> bytes \<Rightarrow> response \<times> 's" where
  "register_as S s n name pub =
     (case Begin S s of
        Inl e \<Rightarrow> (Fail 500 e, s)
      | Inr stx \<Rightarrow>
          (case GetAccountByDiscourseID S stx n of
             Inl e \<Rightarrow> (Fail 500 e, s)
           | Inr existing \<Rightarrow> commit_response S s (register_write S stx existing n name pub)))"

definition register :: "('s, 't) store_ops \<Rightarrow> Server \<Rightarrow> int \<Rightarrow> 's \<Rightarrow> request \<Rightarrow> response \<times> 's" where
  "register S sv now s rq =
     (case resolveCurrentUser sv now rq of
        Inl e \<Rightarrow> (Fail 401 e, s)
      | Inr (n, name) \<Rightarrow>
          (case Decode register_field [] (rq_body rq) of
             None \<Rightarrow> (Fail 400 (Errorf ''json''), s)
           | Some h \<Rightarrow>
               (case hex_decode h of
                  None \<Rightarrow> (Fail 400 (Errorf ''pubkey_hex must be 64-char hex (32 bytes)''), s)
                | Some pub \<Rightarrow>
                    (if length pub \<noteq> PubKeyLen then (Fail 400 (Errorf ''pubkey_hex must be 64-char hex (32 bytes)''), s)
                     else if n = TreasuryDscID
                       then (Fail 400 (Errorf ''cannot register treasury account via this endpoint''), s)
                     else register_as S s n name pub))))"

text \<open>
  What a registration does to the abstract ledger, and the status it answers: it creates an
  account without money, gives a keyless account its key and name, or leaves the ledger alone.
\<close>

definition registered :: "ledger \<Rightarrow> int \<Rightarrow> bytes \<Rightarrow> bytes \<Rightarrow> int \<Rightarrow> ledger \<Rightarrow> bool" where
  "registered L n name pub st L' \<longleftrightarrow>
     log L' = log L \<and>
     (case accts L n of
        None \<Rightarrow> st = 201 \<and> accts L' = (accts L)(n \<mapsto>
          \<lparr>DiscourseID = n, Pubkey = Some pub, Username = name, Nonce = 0, Balance = 0\<rparr>)
      | Some a \<Rightarrow>
          (if \<not> has_pubkey a then st = 200 \<and> accts L' = (accts L)(n \<mapsto> a\<lparr>Pubkey := Some pub, Username := name\<rparr>)
           else accts L' = accts L \<and> st = (if Pubkey a = Some pub then 200 else 409)))"

lemma registered_ok:
  assumes "registered L n name pub st L'" "ledger_ok ed L"
  shows "ledger_ok ed L'" "nonce_of L' = nonce_of L"
proof -
  have wf: "wf_accts L" "supply_ok L" "chain_from ed 0 ZeroHash (log L)" "log L' = log L"
    using assms by (simp_all add: ledger_ok_def registered_def)
  consider (same) "accts L' = accts L"
    | (written) a where "accts L' = (accts L)(n \<mapsto> a)" "DiscourseID a = n" "Balance a = val_at Balance (accts L) n"
        "Nonce a = val_at Nonce (accts L) n" "0 \<le> Balance a"
    using assms(1) wf(1,2)
    by (auto simp: registered_def val_at_def wf_accts_def supply_ok_def split: option.splits if_splits)
  then have "ledger_ok ed L' \<and> nonce_of L' = nonce_of L"
  proof cases
    case same
    with wf show ?thesis by (simp add: ledger_ok_def wf_accts_def supply_ok_def nonce_of_def)
  next
    case written
    with wf have "nonce_of L' = nonce_of L" by (intro ext) (simp add: nonce_of_def val_at_def)
    with written wf show ?thesis
      by (auto simp: ledger_ok_def wf_accts_def supply_ok_def sum_map_update)
  qed
  then show "ledger_ok ed L'" "nonce_of L' = nonce_of L" by simp_all
qed

context ledger_store begin

lemma register_write_law:
  assumes "tinv t" "register_write S t (accts (tview t) n) n name pub = (r, w)" "pub \<noteq> []"
  shows "case w of None \<Rightarrow> status r = 500 \<or> registered (tview t) n name pub (status r) (tview t)
    | Some t' \<Rightarrow> tinv t' \<and> registered (tview t) n name pub (status r) (tview t')"
proof (cases "accts (tview t) n")
  case None
  show ?thesis
  proof (cases "UpsertAccount S t \<lparr>DiscourseID = n, Pubkey = Some pub, Username = name, Nonce = 0, Balance = 0\<rparr>")
    case (Inr t')
    from upsert_new [OF assms(1) Inr] None assms(2,3) Inr show ?thesis
      by (auto simp: register_write_def registered_def)
  qed (use assms None in \<open>auto simp: register_write_def\<close>)
next
  case (Some a)
  show ?thesis
  proof (cases "has_pubkey a")
    case True
    with assms Some show ?thesis
      by (auto simp: register_write_def registered_def split: if_splits)
  next
    case False
    show ?thesis
    proof (cases "UpdateUsernameAndPubKey S t n pub name")
      case (Inr t')
      from UpdateUsernameAndPubKey_law [OF assms(1) Inr] assms(2) Some False Inr show ?thesis
        by (auto simp: register_write_def registered_def)
    qed (use assms Some False in \<open>auto simp: register_write_def\<close>)
  qed
qed

lemma register_as_law:
  assumes "sinv s" "register_as S s n name pub = (r, s')" "pub \<noteq> []"
  shows "if status r = 500 then s' = s else sinv s' \<and> registered (sview s) n name pub (status r) (sview s')"
proof (cases "Begin S s")
  case (Inl e)
  with assms show ?thesis by (auto simp: register_as_def)
next
  case (Inr t)
  note t = Begin_law [OF assms(1) Inr]
  show ?thesis
  proof (cases "GetAccountByDiscourseID S t n")
    case (Inl e)
    with assms \<open>Begin S s = Inr t\<close> show ?thesis by (auto simp: register_as_def)
  next
    case (Inr ex)
    then have ex: "ex = accts (tview t) n" using GetAccountByDiscourseID_law t by blast
    obtain r' w where w: "register_write S t ex n name pub = (r', w)" by fastforce
    have r: "commit_response S s (r', w) = (r, s')"
      using assms(2) \<open>Begin S s = Inr t\<close> Inr w by (simp add: register_as_def)
    note law = register_write_law [OF conjunct1 [OF t] w [unfolded ex] assms(3)]
    show ?thesis
    proof (cases w)
      case None
      with law assms(1) r t show ?thesis by (auto simp: commit_response_def)
    next
      case (Some t')
      show ?thesis
      proof (cases "Commit S s t'")
        case (Inr s2)
        with law Some r t Commit_law [OF assms(1) _ Inr] show ?thesis
          by (auto simp: commit_response_def registered_def split: option.splits if_splits)
      qed (use r Some in \<open>auto simp: commit_response_def\<close>)
    qed
  qed
qed

end

section \<open>Submitting a transaction\<close>

record submitReq =
  sr_TxType :: bytes
  sr_PayloadB64 :: bytes
  sr_SigB64 :: bytes
  sr_SignerHex :: bytes

definition submit_field :: "submitReq \<Rightarrow> bytes \<Rightarrow> json \<Rightarrow> submitReq option" where
  "submit_field t k v =
     (if field_is ''tx_type'' k then map_option (\<lambda>x. t\<lparr>sr_TxType := x\<rparr>) (dec_string (sr_TxType t) v)
      else if field_is ''payload_b64'' k then map_option (\<lambda>x. t\<lparr>sr_PayloadB64 := x\<rparr>) (dec_string (sr_PayloadB64 t) v)
      else if field_is ''sig_b64'' k then map_option (\<lambda>x. t\<lparr>sr_SigB64 := x\<rparr>) (dec_string (sr_SigB64 t) v)
      else if field_is ''signer_hex'' k then map_option (\<lambda>x. t\<lparr>sr_SignerHex := x\<rparr>) (dec_string (sr_SignerHex t) v)
      else Some t)"

definition submit_tree :: "submitReq \<Rightarrow> json" where
  "submit_tree t =
     JObj [(''tx_type'', JStr (sr_TxType t)), (''payload_b64'', JStr (sr_PayloadB64 t)),
           (''sig_b64'', JStr (sr_SigB64 t)), (''signer_hex'', JStr (sr_SignerHex t))]"

definition submit_status :: "err \<Rightarrow> int" where
  "submit_status e =
     (if list_ex (errors_is e) [ErrBadSig, ErrBadPubKey, ErrSignerMismatch, ErrSelfTransfer, ErrBadAmount,
           ErrBadDiscourseID, ErrUnknownTxType] then 400
      else if list_ex (errors_is e) [ErrInsufficientFunds, ErrBadNonce] then 422
      else if errors_is e ErrGenesisExists then 409
      else if errors_is e ErrUnknownAccount then 404
      else 500)"

definition submit_parsed ::
  "(bytes \<Rightarrow> bytes \<Rightarrow> bytes \<Rightarrow> bool) \<Rightarrow> ('s, 't) store_ops \<Rightarrow> 's \<Rightarrow> Tx \<Rightarrow> response \<times> 's" where
  "submit_parsed ed S s tx =
     (case Apply ed S s tx of
        (tx, Inl e) \<Rightarrow> (Fail (submit_status e) e, s)
      | (tx, Inr s) \<Rightarrow> (Reply 201 (JObj [(''leaf_index'', enc_int (LeafIndex tx)), (''tx_hash'', enc_hex (TxHash tx))]), s))"

definition submitTx ::
  "(bytes \<Rightarrow> bytes \<Rightarrow> bytes \<Rightarrow> bool) \<Rightarrow> ('s, 't) store_ops \<Rightarrow> 's \<Rightarrow> request \<Rightarrow> response \<times> 's" where
  "submitTx ed S s rq =
     (case Decode submit_field \<lparr>sr_TxType = [], sr_PayloadB64 = [], sr_SigB64 = [], sr_SignerHex = []\<rparr> (rq_body rq) of
        None \<Rightarrow> (Fail 400 (Errorf ''json''), s)
      | Some req \<Rightarrow>
          (case StdDecode (sr_PayloadB64 req) of
             None \<Rightarrow> (Fail 400 (Errorf ''payload_b64 not base64''), s)
           | Some payload \<Rightarrow>
               (case StdDecode (sr_SigB64 req) of
                  None \<Rightarrow> (Fail 400 (Errorf ''sig_b64 not base64''), s)
                | Some sig \<Rightarrow>
                    (case hex_decode (sr_SignerHex req) of
                       None \<Rightarrow> (Fail 400 (Errorf ''signer_hex not hex''), s)
                     | Some signer \<Rightarrow>
                         submit_parsed ed S s
                           \<lparr>LeafIndex = 0, Type = sr_TxType req, Payload = payload, Sig = sig, Signer = signer,
                            PrevHash = [], TxHash = []\<rparr>))))"

end
