(* ===== verification/TransferFacts.thy ===== *)
theory TransferFacts
  imports LedgerProperties
begin

text \<open>
  What a transfer needs to be accepted by the PostgreSQL store, and what it does. The properties
  of the API and of the rewards share these facts.
\<close>

section \<open>A valid transfer is accepted\<close>

lemma pg_own_key_free:
  assumes "pg_ok t" "k = None \<or> (\<exists>a. map_of (accounts t) d = Some a \<and> Pubkey a = k)"
  shows "key_free (accounts t) d k"
  using pg_okD(1,2) [OF assms(1)] assms(2) unfolding key_free_iff [OF pg_okD(1) [OF assms(1)]] keys_unique_def
  by (metis not_Some_eq)

lemma pg_UpsertAccount_succeeds:
  assumes "pg_ok t" "text_ok (Username a)" "0 \<le> Balance a"
    and "Pubkey a = None \<or> (\<exists>o'. map_of (accounts t) (DiscourseID a) = Some o' \<and> Pubkey o' = Pubkey a)"
  shows "\<exists>t'. pg_UpsertAccount t a = Inr t'"
proof -
  let ?new = "upsert_row (map_of (accounts t) (DiscourseID a))
    (a\<lparr>Pubkey := case Pubkey a of Some k \<Rightarrow> if k = [] then None else Some k | None \<Rightarrow> None\<rparr>)"
  have "Pubkey ?new = None \<or> (\<exists>o'. map_of (accounts t) (DiscourseID a) = Some o' \<and> Pubkey o' = Pubkey ?new)"
    using assms(4) by (auto simp: upsert_row_def split: option.splits)
  from pg_own_key_free [OF assms(1) this] assms(2,3) show ?thesis
    by (auto simp: pg_UpsertAccount_def Let_def)
qed

text \<open>A transfer that the database can store: the texts in its payload are valid.\<close>

definition storable :: "TransferPayload \<Rightarrow> bool" where
  "storable p \<longleftrightarrow>
     (case meta_string (tp_Meta p) ''tip_target_username'' of Some u \<Rightarrow> text_ok u | None \<Rightarrow> True) \<and>
     (case meta_string (tp_Meta p) ''reward_source'' of Some u \<Rightarrow> text_ok u | None \<Rightarrow> True)"

definition names_ok :: "pgdb \<Rightarrow> bool" where
  "names_ok db \<longleftrightarrow> list_all (\<lambda>(d, a). text_ok (Username a)) (accounts db)"

lemma names_okD: "names_ok db \<Longrightarrow> map_of (accounts db) d = Some a \<Longrightarrow> text_ok (Username a)"
  by (auto simp: names_ok_def list_all_iff dest: map_of_SomeD)

lemma applyTransfer_succeeds:
  assumes "pg_ok db" "supply_ok (pg_view db)" "names_ok db"
    and "transfer_payload (Payload tx) = Some p" "storable p" "0 < tp_Amount p" "0 < tp_ToDiscourseID p"
    and "tp_From p = Signer tx" "length (Signer tx) = PubKeyLen"
    and "map_of (accounts db) d = Some a" "Pubkey a = Some (Signer tx)" "d \<noteq> tp_ToDiscourseID p"
    and "tp_Nonce p = i64 (Nonce a + 1)" "tp_Amount p \<le> Balance a"
  shows "\<exists>db'. applyTransfer PgOps db tx = Inr db'"
proof -
  let ?to = "recipient p (map_of (accounts db) (tp_ToDiscourseID p))"
  let ?a = "a\<lparr>Balance := i64 (Balance a - tp_Amount p), Nonce := tp_Nonce p\<rparr>"
  let ?b = "?to\<lparr>Balance := i64 (Balance ?to + tp_Amount p)\<rparr>"
  have c: "Balance (pending_account p) = 0" by (simp add: pending_account_def)
  have wf: "wf_accts (pg_view db)" by (rule pg.tview_wf [OF assms(1)])
  note mv = move_ok [OF wf assms(2), of d a "tp_ToDiscourseID p" ?to, OF _ _ _ c]
  have i64: "i64 (Balance a - tp_Amount p) = Balance a - tp_Amount p" "i64 (Balance ?to + tp_Amount p) = Balance ?to + tp_Amount p"
    using mv(1,2) assms by (simp_all add: recipient_def)
  have id: "DiscourseID a = d" using pg_okD(4) assms(1,10) by blast
  have key: "pg_GetAccountByPubKey db (Signer tx) = Inr (Some a)"
    using assms(9-11) id by (auto simp: pg_GetAccountByPubKey_iff [OF assms(1)] PubKeyLen_def)
  obtain t1 where t1: "pg_UpsertAccount db ?a = Inr t1"
    using pg_UpsertAccount_succeeds [OF assms(1), of ?a] i64(1) assms(10,14) names_okD [OF assms(3,10)] id by auto
  have t1': "pg_ok t1" "map_of (accounts t1) = (map_of (accounts db))(d \<mapsto> ?a)"
    using pg.upsert_read [of db ?a t1] assms(1,10) t1 id by auto
  have to: "DiscourseID ?to = tp_ToDiscourseID p"
    using pg_okD(4) [OF assms(1)] by (auto simp: recipient_def pending_account_def split: option.splits)
  have "text_ok (Username ?to)"
    using names_okD [OF assms(3)] assms(5) text_ok_samples(2)
    by (auto simp: recipient_def pending_account_def storable_def split: option.splits if_splits)
  moreover have "0 \<le> Balance ?to"
    using balance_le_cap(1) [OF wf assms(2)] c by (auto simp: recipient_def split: option.splits)
  moreover have "Pubkey ?b = None \<or> (\<exists>o'. map_of (accounts t1) (DiscourseID ?b) = Some o' \<and> Pubkey o' = Pubkey ?b)"
    using to t1'(2) assms(12) by (auto simp: recipient_def pending_account_def split: option.splits)
  ultimately obtain t2 where "pg_UpsertAccount t1 ?b = Inr t2"
    using pg_UpsertAccount_succeeds [OF t1'(1), of ?b] i64(2) assms(6) by auto
  with assms(4,6-9,12-14) key t1 id show ?thesis
    by (simp add: applyTransfer_def TreasuryDscID_def pg_GetAccountByDiscourseID_def Let_def)
qed

lemma Apply_transfer_succeeds:
  assumes "pg_ok db" "supply_ok (pg_view db)" "indexed (pg_view db)" "room 0 (pg_view db)" "names_ok db"
    and "transactions db \<noteq> []" "length (TxHash (last (transactions db))) = HashSize"
    and "VerifySig ed (Signer tx) (Payload tx) (Sig tx)" "Type tx = TxTransfer"
    and "transfer_payload (Payload tx) = Some p" "storable p" "0 < tp_Amount p" "0 < tp_ToDiscourseID p"
    and "tp_From p = Signer tx"
    and "map_of (accounts db) d = Some a" "Pubkey a = Some (Signer tx)" "d \<noteq> tp_ToDiscourseID p"
    and "tp_Nonce p = i64 (Nonce a + 1)" "tp_Amount p \<le> Balance a"
    and fresh: "tx_hash (Payload tx) (Sig tx) (TxHash (last (transactions db))) \<notin> TxHash ` set (transactions db)"
  shows "\<exists>tx' db'. Apply ed PgOps db tx = (tx', Inr db')"
proof -
  let ?l = "last (transactions db)"
  let ?h = "tx_hash (Payload tx) (Sig tx) (TxHash ?l)"
  let ?tx = "tx\<lparr>LeafIndex := i64 (LeafIndex ?l + 1), PrevHash := TxHash ?l, TxHash := ?h\<rparr>"
  have sig: "length (Signer tx) = PubKeyLen" "length (Sig tx) = SigLen"
    using assms(8) by (auto dest: VerifySigD)
  have lst: "pg_LastTx db = Inr (Some (Tx.truncate ?l))"
    using assms(1,6) by (simp add: pg_LastTx_def max_leaf_sorted pg_okD)
  have build: "Build (Type tx) (Payload tx) (Signer tx) (Sig tx) (TxHash ?l) = Inr b \<Longrightarrow> TxHash b = ?h" for b
    using sig assms(7) by (auto simp: Build_def split: if_splits)
  obtain b where b: "Build (Type tx) (Payload tx) (Signer tx) (Sig tx) (TxHash ?l) = Inr b"
    using sig assms(7) by (auto simp: Build_def)
  obtain t1 where t1: "applyTransfer PgOps db ?tx = Inr t1"
    using applyTransfer_succeeds [of db ?tx p d a] assms(1,2,5,10-19) sig by auto
  have t1': "log (pg_view t1) = log (pg_view db)"
    using pg.dispatch_refines [of db ?tx t1] assms(1,9) t1 by (simp add: dispatch_def)
  have n: "int (length (transactions db)) < 2 ^ 62" using assms(4) by (simp add: room_def)
  have at: "LeafIndex (transactions db ! i) = int i" if "i < length (transactions db)" for i
    using assms(3) that by (auto simp: indexed_def)
  have l: "LeafIndex ?l = int (length (transactions db)) - 1"
    using at [of "length (transactions db) - 1"] assms(6) by (simp add: last_conv_nth of_nat_diff Suc_le_eq)
  have "i64 (LeafIndex ?l + 1) = int (length (transactions db))"
    using l n by (intro i64_id [THEN trans]) (simp_all add: in_i64_def)
  then have new: "LeafIndex r \<noteq> LeafIndex ?tx" if "r \<in> set (transactions db)" for r
    using that at by (auto simp: in_set_conv_nth)
  have fresh': "TxHash r \<noteq> ?h" if "r \<in> set (transactions db)" for r
    using fresh that by (metis imageI)
  have "list_ex (\<lambda>r. LeafIndex r = LeafIndex ?tx \<or> TxHash r = TxHash ?tx \<or>
      (Type r = TxGenesis \<and> Type ?tx = TxGenesis)) (transactions t1) =
    list_ex (\<lambda>r. LeafIndex r = LeafIndex ?tx \<or> TxHash r = TxHash ?tx \<or>
      (Type r = TxGenesis \<and> Type ?tx = TxGenesis)) (log (pg_view t1))"
    by (simp add: list_ex_iff)
  also have "\<dots> = False"
    using new fresh' assms(9) unfolding t1' by (auto simp: list_ex_iff)
  finally have none: "\<not> list_ex (\<lambda>r. LeafIndex r = LeafIndex ?tx \<or> TxHash r = TxHash ?tx \<or>
      (Type r = TxGenesis \<and> Type ?tx = TxGenesis)) (transactions t1)" by simp
  have "\<exists>t2. pg_InsertTx t1 ?tx = Inr t2"
    using none assms(9-11)
    by (auto simp: pg_InsertTx_def DeriveTxFields_def Let_def storable_def tx_type_check_def split: option.splits)
  then show ?thesis
    using assms(8,9) lst b build [OF b] t1
    by (auto simp: Apply_def pg_Begin_def apply_in_def pg_LockLedger_def link_tx_def apply_linked_def Let_def
        dispatch_def checkSupply_def requiresFullSupplyCheck_def pg_Commit_def)
qed

text \<open>What a transfer does, with the numbers written out: no sum wraps.\<close>

lemma transfer_effect:
  assumes "ledger_step ed L tx L'" "Type tx = TxTransfer" "transfer_payload (Payload tx) = Some p"
    and "wf_accts L" "supply_ok L" "one_key L" "accts L d = Some a" "Pubkey a = Some (Signer tx)"
  shows "d \<noteq> tp_ToDiscourseID p \<and> accts L' = (accts L)(d \<mapsto> a\<lparr>Balance := Balance a - tp_Amount p, Nonce := tp_Nonce p\<rparr>,
    tp_ToDiscourseID p \<mapsto> (recipient p (accts L (tp_ToDiscourseID p)))
      \<lparr>Balance := Balance (recipient p (accts L (tp_ToDiscourseID p))) + tp_Amount p\<rparr>)"
  using assms(1)
proof cases
  case (transfer q e x b m)
  have same: "q = p" "e = d \<and> x = a"
    using transfer assms(3) one_keyD [OF assms(6,7,8), of e x] by auto
  have c: "Balance (pending_account p) = 0" by (simp add: pending_account_def)
  note mv = move_ok [OF assms(4,5,7), of "tp_ToDiscourseID p" "recipient p (accts L (tp_ToDiscourseID p))",
      OF _ _ c]
  have "i64 (Balance a - tp_Amount p) = Balance a - tp_Amount p"
    "i64 (Balance (recipient p (accts L (tp_ToDiscourseID p))) + tp_Amount p) =
       Balance (recipient p (accts L (tp_ToDiscourseID p))) + tp_Amount p"
    using mv(1,2) transfer same by (simp_all add: recipient_def)
  with transfer same show ?thesis by (simp add: append_tx_def)
qed (use assms(2) in auto)

text \<open>The rows: those before are left alone, and the new one carries the derived columns.\<close>

lemma pg_rows:
  "pg_UpsertAccount t a = Inr t' \<Longrightarrow> transactions t' = transactions t"
  "pg_UpdatePubKey t k k' = Inr t' \<Longrightarrow> transactions t' = transactions t"
  by (auto simp: pg_UpsertAccount_def pg_UpdatePubKey_def Let_def split: if_splits option.splits)

lemma dispatch_rows:
  assumes "dispatch PgOps t tx = Inr t'"
  shows "transactions t' = transactions t"
proof -
  consider "applyGenesis PgOps t tx = Inr t'" | "applyTransfer PgOps t tx = Inr t'"
    | "applyRotateKey PgOps t tx = Inr t'" | "applyReclaimInvalid PgOps t tx = Inr t'"
    using assms by (auto simp: dispatch_def split: if_splits)
  then show ?thesis
    by cases (auto simp: applyGenesis_def applyTransfer_def applyRotateKey_def applyReclaimInvalid_def result_simps
        Let_def dest!: pg_rows split: if_splits option.splits)
qed

lemma truncate_fields:
  "Payload (Tx.truncate r) = Payload r" "Sig (Tx.truncate r) = Sig r" "Signer (Tx.truncate r) = Signer r"
  "PrevHash (Tx.truncate r) = PrevHash r"
  by (simp_all add: Tx.defs)

lemma Apply_transfer_row:
  assumes "Apply ed PgOps db tx = (tx', Inr db')" "Type tx = TxTransfer" "transfer_payload (Payload tx) = Some p"
  obtains row where "transactions db' = transactions db @ [row]" "Tx.truncate row = tx'"
    "tr_amount row = Some (tp_Amount p)" "tr_to_discourse_id row = Some (tp_ToDiscourseID p)"
proof -
  obtain t1 t2 where t: "dispatch PgOps db tx' = Inr t1" "pg_InsertTx t1 tx' = Inr t2" "transactions db' = transactions t2"
    using assms(1)
    by (auto simp: Apply_def apply_in_def apply_linked_def pg_Begin_def pg_LockLedger_def pg_Commit_def Let_def result_simps
        checkSupply_def split: if_splits sum.splits prod.splits)
  have f: "Type tx' = TxTransfer" "Payload tx' = Payload tx" using Apply_fields [OF assms(1)] assms(2) by simp_all
  have "transactions t1 = transactions db" using dispatch_rows [OF t(1)] by simp
  moreover obtain d where "transactions t2 = transactions t1 @ [pg_row tx' d]" "df_Amount d = Some (tp_Amount p)"
    "df_ToDiscourseID d = Some (tp_ToDiscourseID p)"
    using t(2) f assms(3) by (auto simp: pg_InsertTx_def DeriveTxFields_def result_simps Let_def split: if_splits)
  ultimately show thesis using t(3) by (intro that [of "pg_row tx' d"]) (simp_all add: pg_row_def Tx.defs TxRow.defs)
qed

end
