(* ===== verification/Payloads.thy ===== *)
theory Payloads
  imports JsonPrint LedgerTx
begin

text \<open>
  \<open>CanonicalJSON\<close> of \<open>internal/ledger/tx.go\<close> and the payloads that the server's own code signs: the
  trees that the encoder makes of them, and the round trip through \<open>json.Unmarshal\<close>. A Go map is
  listed here in the order of its keys, which is the order in which the encoder writes it.
\<close>

definition CanonicalJSON :: "json \<Rightarrow> bytes" where
  "CanonicalJSON v = json_print False v"

definition genesis_tree :: "GenesisPayload \<Rightarrow> json" where
  "genesis_tree p =
     JObj [(''to'', enc_bytes (gp_To p)), (''treasury_user'', JStr (gp_TreasuryUser p)),
           (''amount'', enc_int (gp_Amount p)), (''memo'', JStr (gp_Memo p))]"

definition transfer_tree :: "TransferPayload \<Rightarrow> json" where
  "transfer_tree p =
     JObj ([(''from'', enc_bytes (tp_From p)), (''to_discourse_id'', enc_int (tp_ToDiscourseID p)),
            (''amount'', enc_int (tp_Amount p)), (''nonce'', enc_int (tp_Nonce p))] @
           (if tp_Meta p = [] then [] else [(''meta'', JObj (tp_Meta p))]))"

definition reclaim_tree :: "ReclaimInvalidPayload \<Rightarrow> json" where
  "reclaim_tree p =
     JObj ([(''admin'', enc_bytes (ri_Admin p)), (''from_discourse_id'', enc_int (ri_FromDiscourseID p)),
            (''amount'', enc_int (ri_Amount p)), (''nonce'', enc_int (ri_Nonce p))] @
           (if ri_Memo p = [] then [] else [(''memo'', JStr (ri_Memo p))]))"

text \<open>A \<open>map[string]any\<close> of strings, as the server puts into \<open>Meta\<close>.\<close>

definition string_map :: "(bytes \<times> json) list \<Rightarrow> bool" where
  "string_map m \<longleftrightarrow> distinct (map fst m) \<and> list_all (\<lambda>(k, v). valid_utf8 k \<and> (case v of JStr s \<Rightarrow> valid_utf8 s | _ \<Rightarrow> False)) m"

lemma payload_keys [simp]:
  "field_is ''from'' ''from''" "\<not> field_is ''from'' ''to_discourse_id''" "\<not> field_is ''from'' ''amount''"
  "\<not> field_is ''from'' ''nonce''" "\<not> field_is ''from'' ''meta''"
  "field_is ''to_discourse_id'' ''to_discourse_id''" "\<not> field_is ''to_discourse_id'' ''amount''"
  "\<not> field_is ''to_discourse_id'' ''nonce''" "\<not> field_is ''to_discourse_id'' ''meta''"
  "field_is ''amount'' ''amount''" "\<not> field_is ''amount'' ''nonce''" "\<not> field_is ''amount'' ''meta''"
  "\<not> field_is ''amount'' ''memo''" "field_is ''nonce'' ''nonce''" "\<not> field_is ''nonce'' ''meta''"
  "\<not> field_is ''nonce'' ''memo''" "field_is ''meta'' ''meta''" "field_is ''memo'' ''memo''"
  "field_is ''admin'' ''admin''" "\<not> field_is ''admin'' ''from_discourse_id''" "\<not> field_is ''admin'' ''amount''"
  "\<not> field_is ''admin'' ''nonce''" "\<not> field_is ''admin'' ''memo''"
  "field_is ''from_discourse_id'' ''from_discourse_id''" "\<not> field_is ''from_discourse_id'' ''amount''"
  "\<not> field_is ''from_discourse_id'' ''nonce''" "\<not> field_is ''from_discourse_id'' ''memo''"
  by code_simp+

lemma payload_keys_utf8 [simp]:
  "valid_utf8 ''from''" "valid_utf8 ''to_discourse_id''" "valid_utf8 ''amount''" "valid_utf8 ''nonce''"
  "valid_utf8 ''meta''" "valid_utf8 ''admin''" "valid_utf8 ''from_discourse_id''" "valid_utf8 ''memo''"
  by code_simp+

lemma update_fresh: "k \<notin> fst ` set m \<Longrightarrow> AList.update k v m = m @ [(k, v)]"
  by (induction m) auto

lemma foldl_update_distinct:
  "distinct (map fst (m @ ms)) \<Longrightarrow> foldl (\<lambda>m (k, x). AList.update k x m) m ms = m @ ms"
proof (induction ms arbitrary: m)
  case (Cons p ms)
  obtain k v where p: "p = (k, v)" by fastforce
  have "AList.update k v m = m @ [(k, v)]"
    using Cons.prems p by (intro update_fresh) auto
  with Cons p show ?case by simp
qed simp


text \<open>The printed payloads are read back, field by field.\<close>

lemma string_map_printable:
  "string_map m \<Longrightarrow> list_all (\<lambda>(k, v). valid_utf8 k \<and> printable d v) m \<and> list_all (\<lambda>(k, x). any_ok x) m"
proof (induction m)
  case (Cons p m)
  obtain k v where "p = (k, v)" by fastforce
  with Cons show ?case by (cases v) (simp_all add: string_map_def)
qed simp

lemma transfer_decodes:
  assumes "in_i64 (tp_ToDiscourseID p)" "in_i64 (tp_Amount p)" "in_i64 (tp_Nonce p)" "string_map (tp_Meta p)"
  shows "transfer_payload (CanonicalJSON (transfer_tree p)) = Some p"
proof -
  note m = string_map_printable [OF assms(4)]
  have "printable max_depth (transfer_tree p)"
    using m [of "max_depth - 1 - 1"] by (simp add: transfer_tree_def max_depth_def)
  note u = Unmarshal_print [OF this]
  have "foldl (\<lambda>m (k, x). AList.update k x m) [] (tp_Meta p) = tp_Meta p"
    using foldl_update_distinct [of "[]" "tp_Meta p"] assms(4) by (simp add: string_map_def)
  with m assms(1-3) show ?thesis
    unfolding transfer_payload_def CanonicalJSON_def u
    by (simp add: transfer_tree_def decode_struct_def transfer_field_def dec_any_map_def)
qed

lemma reclaim_decodes:
  assumes "in_i64 (ri_FromDiscourseID p)" "in_i64 (ri_Amount p)" "in_i64 (ri_Nonce p)" "valid_utf8 (ri_Memo p)"
  shows "reclaim_payload (CanonicalJSON (reclaim_tree p)) = Some p"
proof -
  have "printable max_depth (reclaim_tree p)"
    using assms(4) by (simp add: reclaim_tree_def max_depth_def)
  note u = Unmarshal_print [OF this]
  show ?thesis
    unfolding reclaim_payload_def CanonicalJSON_def u
    using assms by (simp add: reclaim_tree_def decode_struct_def reclaim_field_def)
qed

lemma genesis_keys [simp]:
  "field_is ''to'' ''to''" "\<not> field_is ''to'' ''treasury_user''" "\<not> field_is ''to'' ''amount''" "\<not> field_is ''to'' ''memo''"
  "field_is ''treasury_user'' ''treasury_user''" "\<not> field_is ''treasury_user'' ''amount''"
  "\<not> field_is ''treasury_user'' ''memo''" "valid_utf8 ''to''" "valid_utf8 ''treasury_user''"
  by code_simp+

lemma genesis_decodes:
  assumes "in_i64 (gp_Amount p)" "valid_utf8 (gp_TreasuryUser p)" "valid_utf8 (gp_Memo p)"
  shows "genesis_payload (CanonicalJSON (genesis_tree p)) = Some p"
proof -
  have "printable max_depth (genesis_tree p)"
    using assms(2,3) by (simp add: genesis_tree_def max_depth_def)
  note u = Unmarshal_print [OF this]
  show ?thesis
    unfolding genesis_payload_def CanonicalJSON_def u
    using assms by (simp add: genesis_tree_def decode_struct_def genesis_field_def)
qed

end
