(* ===== verification/Rewards.thy ===== *)
theory Rewards
  imports Payloads PgStore Http
begin

text \<open>
  \<open>internal/rewards/webhook.go\<close>: the webhook of Discourse and the payment of a reward, once per
  event. The store is any implementation of the store interface for the ledger part, and the
  reward tables are those of the PostgreSQL store; in the program both are the same database,
  here \<open>PgOps\<close> over \<^typ>\<open>pgdb\<close>. The signature scheme is given by \<open>ed\<close> and \<open>sign\<close>; \<open>now\<close> is the
  clock of the database.
\<close>

definition EventSignupBonus :: bytes where "EventSignupBonus = ''signup_bonus''"
definition EventFirstPostEver :: bytes where "EventFirstPostEver = ''first_post_ever''"

record RewardService =
  rs_AdminPrivKey :: bytes
  rs_AdminPubKey :: bytes
  rs_WebhookSecret :: bytes

record PaymentResult =
  pr_Paid :: bool
  pr_Reason :: string
  pr_Amount :: int
  pr_Tx :: "Tx option"

definition not_paid :: "string \<Rightarrow> PaymentResult" where
  "not_paid reason = \<lparr>pr_Paid = False, pr_Reason = reason, pr_Amount = 0, pr_Tx = None\<rparr>"

section \<open>Signing and applying\<close>

definition reward_payload :: "bytes \<Rightarrow> int \<Rightarrow> int \<Rightarrow> int \<Rightarrow> bytes \<Rightarrow> bytes \<Rightarrow> TransferPayload" where
  "reward_payload admin to amount nonce source username =
     \<lparr>tp_From = admin, tp_ToDiscourseID = to, tp_Amount = amount, tp_Nonce = nonce,
      tp_Meta = [(''reward_source'', JStr source), (''tip_target_username'', JStr username)]\<rparr>"

definition signAndApplyTransferOnce ::
  "(bytes \<Rightarrow> bytes \<Rightarrow> bytes \<Rightarrow> bool) \<Rightarrow> (bytes \<Rightarrow> bytes \<Rightarrow> bytes) \<Rightarrow> ('s, 't) store_ops \<Rightarrow> RewardService \<Rightarrow> 's \<Rightarrow>
   int \<Rightarrow> bytes \<Rightarrow> int \<Rightarrow> bytes \<Rightarrow> err + Tx \<times> 's" where
  "signAndApplyTransferOnce ed sign S s db to username amount source =
     and_then (with_context ''begin'' (Begin S db)) (\<lambda>stx.
     and_then (with_context ''admin lookup'' (GetAccountByPubKey S stx (rs_AdminPubKey s))) (\<lambda>adminOpt.
       case adminOpt of
         None \<Rightarrow> Inl (Errorf ''admin/treasury account not found; run ledger-admin init first'')
       | Some admin \<Rightarrow>
           (if Balance admin < amount then Inl (Errorf ''treasury underfunded'')
            else
              let nonce = i64 (Nonce admin + 1);
                  payloadBytes = CanonicalJSON (transfer_tree
                    (reward_payload (rs_AdminPubKey s) to amount nonce source username));
                  tx = \<lparr>LeafIndex = 0, Type = TxTransfer, Payload = payloadBytes,
                        Sig = sign (rs_AdminPrivKey s) payloadBytes, Signer = rs_AdminPubKey s,
                        PrevHash = [], TxHash = []\<rparr>
              in case Apply ed S db tx of (tx, r) \<Rightarrow>
                   and_then (with_context ''apply'' r) (\<lambda>db. Inr (tx, db)))))"

text \<open>
  The loop of at most eight attempts, which goes on after an \<open>ErrBadNonce\<close>. \<open>dbs\<close> are the states
  of the store at the attempts: between two attempts other writers may change it.
\<close>

fun attempts ::
  "('s \<Rightarrow> err + Tx \<times> 's) \<Rightarrow> 's list \<Rightarrow> err \<Rightarrow> err + Tx \<times> 's" where
  "attempts once [] lastNonceErr = Inl lastNonceErr"
| "attempts once (db # dbs) lastNonceErr =
     (case once db of
        Inr r \<Rightarrow> Inr r
      | Inl e \<Rightarrow> if \<not> errors_is e ErrBadNonce then Inl e else attempts once dbs e)"

definition signAndApplyTransfer ::
  "(bytes \<Rightarrow> bytes \<Rightarrow> bytes \<Rightarrow> bool) \<Rightarrow> (bytes \<Rightarrow> bytes \<Rightarrow> bytes) \<Rightarrow> ('s, 't) store_ops \<Rightarrow> RewardService \<Rightarrow> 's list \<Rightarrow>
   int \<Rightarrow> bytes \<Rightarrow> int \<Rightarrow> bytes \<Rightarrow> err + Tx \<times> 's" where
  "signAndApplyTransfer ed sign S s dbs to username amount source =
     (if to \<le> TreasuryDscID then Inl (Sentinel ErrBadDiscourseID)
      else attempts (\<lambda>db. signAndApplyTransferOnce ed sign S s db to username amount source) (take 8 dbs)
             (Errorf ''''))"

section \<open>One payment per event\<close>

text \<open>
  \<open>PayRewardOnce\<close> with no other writer in between. It returns the result or the error, and the
  database it leaves.
\<close>

definition PayRewardOnce ::
  "(bytes \<Rightarrow> bytes \<Rightarrow> bytes \<Rightarrow> bool) \<Rightarrow> (bytes \<Rightarrow> bytes \<Rightarrow> bytes) \<Rightarrow> RewardService \<Rightarrow> int \<Rightarrow> pgdb \<Rightarrow>
   bytes \<Rightarrow> bytes \<Rightarrow> int \<Rightarrow> bytes \<Rightarrow> bytes \<Rightarrow> (err + PaymentResult) \<times> pgdb" where
  "PayRewardOnce ed sign s now db eventType eventKey to username source =
     (if to \<le> TreasuryDscID then (Inr (not_paid ''skip non-user discourse_id''), db)
      else case GetRewardAmount db eventType of (amount, enabled) \<Rightarrow>
        (if \<not> enabled \<or> amount \<le> 0 then (Inr (not_paid ''reward disabled or amount=0''), db)
         else case TryReserveRewardEvent now db eventType eventKey of
           (False, db) \<Rightarrow> (Inr (not_paid ''already paid or in-flight (dedup)''), db)
         | (True, db) \<Rightarrow>
             (case signAndApplyTransfer ed sign PgOps s (replicate 8 db) to username amount source of
                Inl e \<Rightarrow> (Inl (Wrapf ''apply'' e), ReleaseRewardEvent db eventType eventKey)
              | Inr (tx, db) \<Rightarrow>
                  (case CompleteRewardEvent now db eventType eventKey (TxHash tx) of
                     Inl e \<Rightarrow> (Inl (Wrapf ''dedup complete after tx'' e), db)
                   | Inr db \<Rightarrow>
                       (Inr \<lparr>pr_Paid = True, pr_Reason = [], pr_Amount = amount, pr_Tx = Some tx\<rparr>, db)))))"

section \<open>The webhook\<close>

definition verifySig :: "RewardService \<Rightarrow> request \<Rightarrow> bytes \<Rightarrow> bool" where
  "verifySig s rq body \<longleftrightarrow>
     (let header = rq_header rq ''X-Discourse-Event-Signature''
      in if header = [] then False
         else case strip_prefix ''sha256='' header of
           None \<Rightarrow> False
         | Some h \<Rightarrow> (case hex_decode h of None \<Rightarrow> False | Some want \<Rightarrow> want = hmac_sha256 (rs_WebhookSecret s) body))"

record UserInfo =
  ui_ID :: int
  ui_Username :: bytes
  ui_Active :: bool
  ui_Approved :: bool
  ui_TrustLevel :: int

record PostInfo =
  pi_ID :: int
  pi_UserID :: int
  pi_Username :: bytes
  pi_PostNumber :: int

definition user_info_field :: "UserInfo \<Rightarrow> bytes \<Rightarrow> json \<Rightarrow> UserInfo option" where
  "user_info_field u k v =
     (if field_is ''id'' k then map_option (\<lambda>x. u\<lparr>ui_ID := x\<rparr>) (dec_int64 (ui_ID u) v)
      else if field_is ''username'' k then map_option (\<lambda>x. u\<lparr>ui_Username := x\<rparr>) (dec_string (ui_Username u) v)
      else if field_is ''active'' k then map_option (\<lambda>x. u\<lparr>ui_Active := x\<rparr>) (dec_bool (ui_Active u) v)
      else if field_is ''approved'' k then map_option (\<lambda>x. u\<lparr>ui_Approved := x\<rparr>) (dec_bool (ui_Approved u) v)
      else if field_is ''trust_level'' k then map_option (\<lambda>x. u\<lparr>ui_TrustLevel := x\<rparr>) (dec_int64 (ui_TrustLevel u) v)
      else Some u)"

definition post_info_field :: "PostInfo \<Rightarrow> bytes \<Rightarrow> json \<Rightarrow> PostInfo option" where
  "post_info_field p k v =
     (if field_is ''id'' k then map_option (\<lambda>x. p\<lparr>pi_ID := x\<rparr>) (dec_int64 (pi_ID p) v)
      else if field_is ''user_id'' k then map_option (\<lambda>x. p\<lparr>pi_UserID := x\<rparr>) (dec_int64 (pi_UserID p) v)
      else if field_is ''username'' k then map_option (\<lambda>x. p\<lparr>pi_Username := x\<rparr>) (dec_string (pi_Username p) v)
      else if field_is ''post_number'' k then map_option (\<lambda>x. p\<lparr>pi_PostNumber := x\<rparr>) (dec_int64 (pi_PostNumber p) v)
      else Some p)"

text \<open>The payload has the object as its only field, which \<open>null\<close> leaves alone.\<close>

definition userPayload :: "bytes \<Rightarrow> UserInfo option" where
  "userPayload =
     Unmarshal (\<lambda>u k v. if field_is ''user'' k then decode_struct user_info_field u v else Some u)
       \<lparr>ui_ID = 0, ui_Username = [], ui_Active = False, ui_Approved = False, ui_TrustLevel = 0\<rparr>"

definition postPayload :: "bytes \<Rightarrow> PostInfo option" where
  "postPayload =
     Unmarshal (\<lambda>p k v. if field_is ''post'' k then decode_struct post_info_field p v else Some p)
       \<lparr>pi_ID = 0, pi_UserID = 0, pi_Username = [], pi_PostNumber = 0\<rparr>"

definition ok_detail :: "string \<Rightarrow> response" where
  "ok_detail msg = Reply 200 (JObj [(''status'', JStr ''ok''), (''detail'', JStr msg)])"

definition payOnce ::
  "(bytes \<Rightarrow> bytes \<Rightarrow> bytes \<Rightarrow> bool) \<Rightarrow> (bytes \<Rightarrow> bytes \<Rightarrow> bytes) \<Rightarrow> RewardService \<Rightarrow> int \<Rightarrow> pgdb \<Rightarrow>
   bytes \<Rightarrow> bytes \<Rightarrow> int \<Rightarrow> bytes \<Rightarrow> response \<times> pgdb" where
  "payOnce ed sign s now db eventType eventKey to username =
     (case PayRewardOnce ed sign s now db eventType eventKey to username eventType of
        (Inl e, db) \<Rightarrow> (Fail 500 (Wrapf ''apply'' e), db)
      | (Inr result, db) \<Rightarrow>
          (case pr_Tx result of
             Some tx \<Rightarrow>
               (Reply 200 (JObj [(''status'', JStr ''paid''), (''event'', JStr eventType), (''to'', enc_int to),
                  (''amount'', enc_int (pr_Amount result)), (''tx_hash'', enc_hex (TxHash tx)),
                  (''leaf_index'', enc_int (LeafIndex tx))]), db)
           | None \<Rightarrow> (ok_detail (pr_Reason result), db)))"

definition user_key :: "int \<Rightarrow> bytes" where
  "user_key n = ''user:'' @ format_int n"

definition handleUserEvent ::
  "(bytes \<Rightarrow> bytes \<Rightarrow> bytes \<Rightarrow> bool) \<Rightarrow> (bytes \<Rightarrow> bytes \<Rightarrow> bytes) \<Rightarrow> RewardService \<Rightarrow> int \<Rightarrow> pgdb \<Rightarrow>
   bytes \<Rightarrow> bytes \<Rightarrow> response \<times> pgdb" where
  "handleUserEvent ed sign s now db eventName body =
     (case userPayload body of
        None \<Rightarrow> (Fail 400 (Errorf ''bad user payload''), db)
      | Some u \<Rightarrow>
          (if ui_ID u \<le> 0 then (Fail 400 (Errorf ''missing user.id''), db)
           else if (eventName = ''user_created'' \<or> eventName = ''user_activated'') \<and> ui_Active u
             then payOnce ed sign s now db EventSignupBonus (user_key (ui_ID u)) (ui_ID u) (ui_Username u)
           else (ok_detail ''user event recorded, no reward triggered'', db)))"

definition handlePostEvent ::
  "(bytes \<Rightarrow> bytes \<Rightarrow> bytes \<Rightarrow> bool) \<Rightarrow> (bytes \<Rightarrow> bytes \<Rightarrow> bytes) \<Rightarrow> RewardService \<Rightarrow> int \<Rightarrow> pgdb \<Rightarrow>
   bytes \<Rightarrow> bytes \<Rightarrow> response \<times> pgdb" where
  "handlePostEvent ed sign s now db eventName body =
     (case postPayload body of
        None \<Rightarrow> (Fail 400 (Errorf ''bad post payload''), db)
      | Some p \<Rightarrow>
          (if eventName = ''post_created'' then
             (if pi_UserID p \<le> 0 then (ok_detail ''skip non-user post author'', db)
              else payOnce ed sign s now db EventFirstPostEver (user_key (pi_UserID p)) (pi_UserID p) (pi_Username p))
           else (ok_detail ''post event recorded, no reward triggered'', db)))"

definition Webhook ::
  "(bytes \<Rightarrow> bytes \<Rightarrow> bytes \<Rightarrow> bool) \<Rightarrow> (bytes \<Rightarrow> bytes \<Rightarrow> bytes) \<Rightarrow> RewardService \<Rightarrow> int \<Rightarrow> pgdb \<Rightarrow> request \<Rightarrow>
   response \<times> pgdb" where
  "Webhook ed sign s now db rq =
     (let body = take 1048576 (rq_body rq);
          eventType = rq_header rq ''X-Discourse-Event-Type''; eventName = rq_header rq ''X-Discourse-Event''
      in if \<not> verifySig s rq body then (Fail 401 (Errorf ''bad signature''), db)
         else if eventType = ''user'' then handleUserEvent ed sign s now db eventName body
         else if eventType = ''post'' then handlePostEvent ed sign s now db eventName body
         else (Reply 200 (JObj [(''status'', JStr ''ignored'')]), db))"

end
