(* ===== verification/RewardSample.thy ===== *)
theory RewardSample
  imports Rewards LogProperties
begin

text \<open>A concrete reward: the payload that the server signs for a signup bonus, and its hash.\<close>

definition reward_json :: bytes where
  "reward_json = ''{'' @ quoted ''from'' @ '':'' @ quoted zero_key_base64 @ '','' @
     quoted ''to_discourse_id'' @ '':7,'' @ quoted ''amount'' @ '':100,'' @ quoted ''nonce'' @ '':1,'' @
     quoted ''meta'' @ '':{'' @ quoted ''reward_source'' @ '':'' @ quoted ''signup_bonus'' @ '','' @
     quoted ''tip_target_username'' @ '':'' @ quoted ''bob'' @ ''}}''"

lemma reward_json_payload:
  "CanonicalJSON (transfer_tree (reward_payload zero_key 7 100 1 ''signup_bonus'' ''bob'')) = reward_json"
  unfolding zero_key_def by code_simp

lemma reward_block_1:
  "map2 (\<lambda>x y. n32 (x + y)) [817957434, 955054524, 1872468679, 39326405, 2885768626, 2958908423, 4012201641, 2498806377]
     (sha_rounds sha_k [1970434917, 1600742434, 976694306, 1634561909, 1853104698, 825241644, 577662830, 1667572282, 824975981, 1702125858, 981148274, 1702322546, 1683977071, 1970430821, 574235251, 1768386165]
       [817957434, 955054524, 1872468679, 39326405, 2885768626, 2958908423, 4012201641, 2498806377]) =
   [2816602822, 4272621350, 3952680739, 2201597669, 3557568213, 997394118, 334548081, 4049578439]"
  by (simp add: sha_k_def sha_eval)

lemma reward_block_2:
  "map2 (\<lambda>x y. n32 (x + y)) [2816602822, 4272621350, 3952680739, 2201597669, 3557568213, 997394118, 334548081, 4049578439]
     (sha_rounds sha_k [1885299311, 1853190946, 740455529, 1885303905, 1919378804, 1601532773, 1919836525, 1696741922, 1651466786, 2105344000, 0, 0, 0, 0, 0, 0]
       [2816602822, 4272621350, 3952680739, 2201597669, 3557568213, 997394118, 334548081, 4049578439]) =
   [3067949597, 734311009, 2018650856, 3864062971, 757479759, 2894033242, 2061344770, 1579739557]"
  by (simp add: sha_k_def sha_eval)

lemma reward_block_3:
  "map2 (\<lambda>x y. n32 (x + y)) [3067949597, 734311009, 2018650856, 3864062971, 757479759, 2894033242, 2061344770, 1579739557]
     (sha_rounds sha_k [0, 0, 0, 0, 0, 0, 0, 0, 0, 0, 0, 0, 0, 0, 0, 0]
       [3067949597, 734311009, 2018650856, 3864062971, 757479759, 2894033242, 2061344770, 1579739557]) =
   [976069971, 522984970, 3882247902, 4023843571, 2457585798, 1773061788, 3623217299, 1794456189]"
  by (simp add: sha_k_def sha_eval)

lemma reward_block_4:
  "map2 (\<lambda>x y. n32 (x + y)) [976069971, 522984970, 3882247902, 4023843571, 2457585798, 1773061788, 3623217299, 1794456189]
     (sha_rounds sha_k [0, 32768, 0, 0, 0, 0, 0, 0, 0, 0, 0, 0, 0, 0, 0, 2096]
       [976069971, 522984970, 3882247902, 4023843571, 2457585798, 1773061788, 3623217299, 1794456189]) =
   [2063046036, 6437577, 3557782909, 535494308, 3961147224, 1134894949, 2188715091, 473821317]"
  by (simp add: sha_k_def sha_eval)

lemma reward_words:
  "map (\<lambda>b. map be32 (chunks 16 4 b)) (chunks 5 64 (sha_pad (reward_json @ zero_sig @ ZeroHash))) =
   [[2065852018, 1869423162, 574701889, 1094795585, 1094795585, 1094795585, 1094795585, 1094795585, 1094795585, 1094795585, 1094795585, 1094795585, 1094795585, 1025649698, 1953455972, 1769169775],
    [1970434917, 1600742434, 976694306, 1634561909, 1853104698, 825241644, 577662830, 1667572282, 824975981, 1702125858, 981148274, 1702322546, 1683977071, 1970430821, 574235251, 1768386165],
    [1885299311, 1853190946, 740455529, 1885303905, 1919378804, 1601532773, 1919836525, 1696741922, 1651466786, 2105344000, 0, 0, 0, 0, 0, 0],
    [0, 0, 0, 0, 0, 0, 0, 0, 0, 0, 0, 0, 0, 0, 0, 0],
    [0, 32768, 0, 0, 0, 0, 0, 0, 0, 0, 0, 0, 0, 0, 0, 2096]]"
  by code_simp

lemma reward_hash: "tx_hash reward_json zero_sig ZeroHash = map byte [122, 247, 149, 148, 0, 98, 58, 201, 212, 15, 117, 125, 31, 234, 254, 164, 236, 26, 79, 88, 67, 165, 31, 101, 130, 117, 36, 83, 28, 61, 240, 133]"
proof -
  have n: "length (sha_pad (reward_json @ zero_sig @ ZeroHash)) div 64 = 5" by code_simp
  show ?thesis
    unfolding tx_hash_def sha256_words [OF n reward_words]
    by (simp only: foldl.simps sha_init_def transfer_block_0 [unfolded sha_init_def] reward_block_1 reward_block_2 reward_block_3 reward_block_4) code_simp
qed

lemma reward_hash_fresh: "tx_hash reward_json zero_sig ZeroHash \<noteq> ZeroHash"
  unfolding reward_hash by code_simp

end
