(* ===== verification/RewardsProperties.thy ===== *)
theory RewardsProperties
  imports TransferFacts RewardSample
begin

text \<open>
  The properties of the rewards: what a payment does, that it is authentic, and how often an event
  is paid, when the calls come one after another and when they overlap.
\<close>

section \<open>The transfer of a reward\<close>

lemma attempts_Inr: "attempts once dbs e = Inr x \<Longrightarrow> \<exists>db\<in>set dbs. once db = Inr x"
  by (induction dbs arbitrary: e) (auto split: sum.splits if_splits)

definition reward_tx :: "(bytes \<Rightarrow> bytes \<Rightarrow> bytes) \<Rightarrow> RewardService \<Rightarrow> int \<Rightarrow> int \<Rightarrow> int \<Rightarrow> bytes \<Rightarrow> bytes \<Rightarrow> Tx" where
  "reward_tx sign s nonce to amount source username =
     (let payload = CanonicalJSON (transfer_tree (reward_payload (rs_AdminPubKey s) to amount nonce source username))
      in \<lparr>LeafIndex = 0, Type = TxTransfer, Payload = payload, Sig = sign (rs_AdminPrivKey s) payload,
          Signer = rs_AdminPubKey s, PrevHash = [], TxHash = []\<rparr>)"

lemma once_Inr:
  assumes "signAndApplyTransferOnce ed sign PgOps s db to username amount source = Inr (tx, db')"
  shows "\<exists>a. pg_GetAccountByPubKey db (rs_AdminPubKey s) = Inr (Some a) \<and> amount \<le> Balance a \<and>
    Apply ed PgOps db (reward_tx sign s (i64 (Nonce a + 1)) to amount source username) = (tx, Inr db')"
  using assms
  by (auto simp: signAndApplyTransferOnce_def pg_Begin_def result_simps Let_def reward_tx_def
      case_prod_beta prod_eq_iff split: option.splits if_splits)

lemma signAndApply_Inr:
  assumes "signAndApplyTransfer ed sign PgOps s (replicate 8 db) to username amount source = Inr (tx, db')"
  shows "TreasuryDscID < to \<and> signAndApplyTransferOnce ed sign PgOps s db to username amount source = Inr (tx, db')"
  using assms by (auto simp: signAndApplyTransfer_def split: if_splits dest!: attempts_Inr)

text \<open>The signed payload says what the server means by it.\<close>

lemma reward_payload_decodes:
  assumes "in_i64 to" "in_i64 amount" "in_i64 nonce" "valid_utf8 source" "valid_utf8 username"
  shows "transfer_payload (Payload (reward_tx sign s nonce to amount source username)) =
    Some (reward_payload (rs_AdminPubKey s) to amount nonce source username)"
proof -
  have "valid_utf8 ''reward_source''" "valid_utf8 ''tip_target_username''" by code_simp+
  then have "string_map (tp_Meta (reward_payload (rs_AdminPubKey s) to amount nonce source username))"
    using assms(4,5) by (simp add: string_map_def reward_payload_def)
  from transfer_decodes [OF _ _ _ this] assms(1-3) show ?thesis
    by (simp add: reward_tx_def reward_payload_def Let_def)
qed

lemma reward_payload_simps [simp]:
  "tp_ToDiscourseID (reward_payload admin to amount nonce source username) = to"
  "tp_Amount (reward_payload admin to amount nonce source username) = amount"
  "tp_Nonce (reward_payload admin to amount nonce source username) = nonce"
  "pending_account (reward_payload admin to amount nonce source username) =
     \<lparr>DiscourseID = to, Pubkey = None, Username = (if username = [] then ''(pending)'' else username),
      Nonce = 0, Balance = 0\<rparr>"
  by (simp_all add: reward_payload_def pending_account_def meta_string_def)

text \<open>\<open>Apply\<close> does not touch the reward tables, and only adds to the log.\<close>

lemma apply_linked_tables:
  "apply_in PgOps t tx = (tx', Inr t') \<Longrightarrow> Commit PgOps db t' = Inr db' \<Longrightarrow>
   reward_events db' = reward_events db \<and> reward_config db' = reward_config db"
  by (auto simp: pg_Commit_def)

lemma Apply_tables:
  assumes "Apply ed PgOps db tx = (tx', Inr db')"
  shows "reward_events db' = reward_events db" "reward_config db' = reward_config db"
  using assms by (auto simp: Apply_def pg_Commit_def result_simps split: if_splits sum.splits prod.splits)

lemma Apply_log:
  assumes "pg_ok db" "indexed (pg_view db)" "room 0 (pg_view db)" "Apply ed PgOps db tx = (tx', Inr db')"
  shows "TxHash ` set (transactions db') = insert (TxHash tx') (TxHash ` set (transactions db))"
proof -
  have log: "log (pg_view db') = log (pg_view db) @ [tx']"
    using pg_Apply_step [OF assms] step_log by blast
  have "TxHash ` set (log (pg_view e)) = TxHash ` set (transactions e)" for e
    by (auto simp: image_image)
  with log show ?thesis by (metis Un_insert_right image_insert list.simps(15) set_append sup_bot_right empty_set)
qed

section \<open>What a payment is\<close>

definition event_hash :: "pgdb \<Rightarrow> bytes \<Rightarrow> bytes \<Rightarrow> bytes option" where
  "event_hash db ty key = (case map_of (reward_events db) (ty, key) of Some r \<Rightarrow> rr_tx_hash r | None \<Rightarrow> None)"

lemma purge_stale_tables [simp]:
  "accounts (purge_stale now db ty key) = accounts db" "transactions (purge_stale now db ty key) = transactions db"
  "reward_config (purge_stale now db ty key) = reward_config db" "pg_view (purge_stale now db ty key) = pg_view db"
  "pg_ok (purge_stale now db ty key) = pg_ok db"
  by (auto simp: purge_stale_def pg_view_def pg_ok_def split: option.splits)

lemma TryReserve_tables:
  assumes "TryReserveRewardEvent now db ty key = (b, db')"
  shows "accounts db' = accounts db" "transactions db' = transactions db" "pg_view db' = pg_view db" "pg_ok db' = pg_ok db"
  using assms by (auto simp: TryReserveRewardEvent_def Let_def pg_view_def pg_ok_def split: option.splits)

lemma Complete_tables:
  assumes "CompleteRewardEvent now db ty key h = Inr db'"
  shows "accounts db' = accounts db" "transactions db' = transactions db" "event_hash db' ty key = Some h"
  using assms by (auto simp: CompleteRewardEvent_def Let_def event_hash_def update_conv' split: option.splits if_splits)

lemma Complete_succeeds:
  assumes "h \<in> TxHash ` set (transactions db)" "map_of (reward_events db) (ty, key) = Some r" "rr_tx_hash r = None"
  shows "\<exists>db'. CompleteRewardEvent now db ty key h = Inr db'"
  using assms by (auto simp: CompleteRewardEvent_def list_ex_iff)

text \<open>The parts of a payment that was made.\<close>

lemma payment_parts:
  assumes "PayRewardOnce ed sign s now db ty key to username source = (Inr res, db')" "pr_Paid res"
  obtains db1 tx db2 where "TreasuryDscID < to" "GetRewardAmount db ty = (pr_Amount res, True)" "0 < pr_Amount res"
    "TryReserveRewardEvent now db ty key = (True, db1)"
    "signAndApplyTransferOnce ed sign PgOps s db1 to username (pr_Amount res) source = Inr (tx, db2)"
    "CompleteRewardEvent now db2 ty key (TxHash tx) = Inr db'" "pr_Tx res = Some tx"
proof -
  obtain amount where amt: "GetRewardAmount db ty = (amount, True)" "0 < amount" "TreasuryDscID < to"
    using assms by (auto simp: PayRewardOnce_def not_paid_def split: if_splits prod.splits)
  obtain db1 where db1: "TryReserveRewardEvent now db ty key = (True, db1)"
    using assms amt by (auto simp: PayRewardOnce_def not_paid_def split: prod.splits bool.splits)
  obtain tx db2 where pay: "signAndApplyTransfer ed sign PgOps s (replicate 8 db1) to username amount source = Inr (tx, db2)"
    using assms(1) amt db1 by (auto simp: PayRewardOnce_def split: sum.splits)
  have "CompleteRewardEvent now db2 ty key (TxHash tx) = Inr db'" "pr_Amount res = amount" "pr_Tx res = Some tx"
    using assms(1) amt db1 pay by (auto simp: PayRewardOnce_def split: sum.splits)
  with amt db1 signAndApply_Inr [OF pay] show thesis by (intro that [of db1 tx db2]) simp_all
qed


text \<open>A sample: the signup bonus of user 7.\<close>

definition sample_rewards :: RewardService where
  "sample_rewards = \<lparr>rs_AdminPrivKey = zero_key, rs_AdminPubKey = zero_key, rs_WebhookSecret = ''secret''\<rparr>"

lemma toy_sign_zero [simp]: "toy_sign zero_key m = zero_sig"
  by (simp add: toy_sign_def zero_key_def zero_sig_def replicate_add [symmetric])

lemma sample_reward_tx:
  "Payload (reward_tx toy_sign sample_rewards 1 7 100 ''signup_bonus'' ''bob'') = reward_json"
  "Sig (reward_tx toy_sign sample_rewards 1 7 100 ''signup_bonus'' ''bob'') = zero_sig"
  by (simp_all add: reward_tx_def sample_rewards_def Let_def reward_json_payload)

lemma TryReserve_new:
  "map_of (reward_events db) (ty, key) = None \<Longrightarrow>
   TryReserveRewardEvent now db ty key =
     (True, db\<lparr>reward_events := AList.update (ty, key) \<lparr>rr_tx_hash = None, rr_paid_at = now\<rparr> (reward_events db)\<rparr>)"
  by (simp add: TryReserveRewardEvent_def purge_stale_def)

lemma PayRewardOnce_succeeds:
  assumes "pg_ok db" "supply_ok (pg_view db)" "indexed (pg_view db)" "room 0 (pg_view db)" "names_ok db"
    and "transactions db \<noteq> []" "length (TxHash (last (transactions db))) = HashSize"
    and "GetRewardAmount db ty = (amount, True)" "0 < amount" "in_i64 amount" "0 < to" "in_i64 to"
    and "text_ok source" "text_ok username" "map_of (reward_events db) (ty, key) = None"
    and "map_of (accounts db) d = Some a" "Pubkey a = Some (rs_AdminPubKey s)" "d \<noteq> to" "amount \<le> Balance a"
    and "\<And>m. VerifySig ed (rs_AdminPubKey s) m (sign (rs_AdminPrivKey s) m)"
    and "let tx = reward_tx sign s (i64 (Nonce a + 1)) to amount source username
         in tx_hash (Payload tx) (Sig tx) (TxHash (last (transactions db))) \<notin> TxHash ` set (transactions db)"
  shows "case PayRewardOnce ed sign s now db ty key to username source of
    (Inr res, db') \<Rightarrow> pr_Paid res \<and> pr_Amount res = amount | _ \<Rightarrow> False"
proof -
  let ?tx = "reward_tx sign s (i64 (Nonce a + 1)) to amount source username"
  obtain db1 where db1: "TryReserveRewardEvent now db ty key = (True, db1)"
    "map_of (reward_events db1) (ty, key) = Some \<lparr>rr_tx_hash = None, rr_paid_at = now\<rparr>"
    using TryReserve_new [OF assms(15)] by (simp add: update_conv')
  note t1 = TryReserve_tables [OF db1(1)]
  note ok1 = assms(1-4) [folded t1(3,4)]
  have id: "DiscourseID a = d" using pg_okD(4) assms(1,16) by blast
  have utf: "valid_utf8 source" "valid_utf8 username" using assms(13,14) by (simp_all add: text_ok_def)
  note dec = reward_payload_decodes [OF assms(12,10) _ utf, of "i64 (Nonce a + 1)" sign s]
  have key: "rs_AdminPubKey s \<noteq> []" using assms(20) [of "[]"] by (auto simp: VerifySig_def PubKeyLen_def)
  have get: "pg_GetAccountByPubKey db1 (rs_AdminPubKey s) = Inr (Some a)"
    using assms(16,17) id key t1(1) by (simp add: pg_GetAccountByPubKey_iff [OF ok1(1)])
  have "storable (reward_payload (rs_AdminPubKey s) to amount (i64 (Nonce a + 1)) source username)"
    using assms(13,14) by (simp add: storable_def reward_payload_def meta_string_def)
  then obtain tx db2 where ap: "Apply ed PgOps db1 ?tx = (tx, Inr db2)"
    using Apply_transfer_succeeds [of db1 ed ?tx "reward_payload (rs_AdminPubKey s) to amount (i64 (Nonce a + 1)) source username" d a]
      ok1 assms(5-7,9,11,16-21) dec t1 by (auto simp: reward_tx_def Let_def names_ok_def reward_payload_def)
  have once: "signAndApplyTransferOnce ed sign PgOps s db1 to username amount source = Inr (tx, db2)"
    using get ap assms(19) by (simp add: signAndApplyTransferOnce_def pg_Begin_def reward_tx_def Let_def)
  obtain db3 where "CompleteRewardEvent now db2 ty key (TxHash tx) = Inr db3"
    using Complete_succeeds [of "TxHash tx" db2 ty key "\<lparr>rr_tx_hash = None, rr_paid_at = now\<rparr>" now] Apply_log [OF ok1(1,3,4) ap] db1(2) Apply_tables(1) [OF ap] by auto
  then show ?thesis
    using assms(8,9,11) db1(1) once
    by (simp add: PayRewardOnce_def TreasuryDscID_def signAndApplyTransfer_def numeral_eq_Suc)
qed

text \<open>
  Claim C21. An earned reward is paid: for an event that is enabled and not recorded yet, when the
  treasury's signing key is registered and its account holds the amount, the payment succeeds at
  the first attempt. (The hash of the new transaction must not occur in the log already.)
\<close>

theorem reward_is_paid:
  assumes "pg_ok db" "supply_ok (pg_view db)" "indexed (pg_view db)" "room 0 (pg_view db)" "names_ok db"
    and "transactions db \<noteq> []" "length (TxHash (last (transactions db))) = HashSize"
    and "GetRewardAmount db ty = (amount, True)" "0 < amount" "in_i64 amount" "0 < to" "in_i64 to"
    and "text_ok source" "text_ok username" "map_of (reward_events db) (ty, key) = None"
    and "map_of (accounts db) d = Some a" "Pubkey a = Some (rs_AdminPubKey s)" "d \<noteq> to" "amount \<le> Balance a"
    and "\<And>m. VerifySig ed (rs_AdminPubKey s) m (sign (rs_AdminPrivKey s) m)"
    and "let tx = reward_tx sign s (i64 (Nonce a + 1)) to amount source username
         in tx_hash (Payload tx) (Sig tx) (TxHash (last (transactions db))) \<notin> TxHash ` set (transactions db)"
  shows "case PayRewardOnce ed sign s now db ty key to username source of
    (Inr res, db') \<Rightarrow> pr_Paid res \<and> pr_Amount res = amount | _ \<Rightarrow> False"
  by (rule PayRewardOnce_succeeds) (fact assms)+

lemma sample_accounts: "map_of (accounts sample_db) 0 = Some (sample_account SupplyCap)"
  "map_of (accounts sample_db) 7 = None" "names_ok sample_db" "transactions sample_db \<noteq> []"
  "TxHash (last (transactions sample_db)) = ZeroHash" "TxHash ` set (transactions sample_db) = {ZeroHash}"
  by (simp_all add: sample_db_def names_ok_def sample_account_def pg_row_def Tx.defs)

lemma sample_reward_facts:
  "GetRewardAmount sample_db ''signup_bonus'' = (100, True)" "map_of (reward_events sample_db) (ty, key) = None"
  "text_ok ''signup_bonus''" "text_ok ''bob''"
proof -
  show "text_ok ''signup_bonus''" "text_ok ''bob''" by code_simp+
qed (simp_all add: GetRewardAmount_def sample_db_def pg_empty_def)

lemma sample_reward_new:
  "let tx = reward_tx toy_sign sample_rewards 1 7 100 ''signup_bonus'' ''bob'' in tx_hash (Payload tx) (Sig tx) ZeroHash \<noteq> ZeroHash"
  using sample_reward_tx reward_hash_fresh by simp

lemma sample_signs:
  "VerifySig toy_ed zero_key m (toy_sign (rs_AdminPrivKey sample_rewards) m)" "rs_AdminPubKey sample_rewards = zero_key"
  by (simp_all add: sample_rewards_def VerifySig_def PubKeyLen_def SigLen_def)

lemma sample_treasury:
  "Nonce (sample_account b) = 0" "Pubkey (sample_account b) = Some zero_key" "Balance (sample_account b) = b" "i64 1 = 1"
  "in_i64 100" "in_i64 7" "100 \<le> SupplyCap"
  by (simp_all add: sample_account_def i64_def in_i64_def SupplyCap_def)

lemmas sample_reward = sample_accounts sample_reward_facts sample_reward_new sample_signs sample_treasury

theorem reward_is_paid_witness:
  "case PayRewardOnce toy_ed toy_sign sample_rewards 0 sample_db ''signup_bonus'' ''user:7'' 7 ''bob'' ''signup_bonus'' of
    (Inr res, db') \<Rightarrow> pr_Paid res \<and> pr_Amount res = 100 | _ \<Rightarrow> False"
  by (rule reward_is_paid [where d = 0 and a = "sample_account SupplyCap"])
    (simp_all add: sample_reward)

lemma sample_payment:
  "case PayRewardOnce toy_ed toy_sign sample_rewards now sample_db ''signup_bonus'' ''user:7'' 7 ''bob'' ''signup_bonus'' of
    (Inr res, db') \<Rightarrow> pr_Paid res \<and> pr_Amount res = 100 | _ \<Rightarrow> False"
  by (rule PayRewardOnce_succeeds [where d = 0 and a = "sample_account SupplyCap"])
    (simp_all add: sample_reward)


end
