(* ===== verification/ApiProperties.thy ===== *)
theory ApiProperties
  imports Api RewardsProperties AdminProperties
begin

text \<open>
  The properties of the public endpoints and of the server as a whole, over the PostgreSQL store.
\<close>

section \<open>Submitted transactions\<close>

lemma StdEncode_utf8 [simp]: "valid_utf8 (StdEncode b)"
  using printable_enc_bytes [of 0 b] by (simp add: enc_bytes_def)

lemma submit_keys [simp]:
  "field_is ''tx_type'' ''tx_type''" "\<not> field_is ''tx_type'' ''payload_b64''" "\<not> field_is ''tx_type'' ''sig_b64''"
  "\<not> field_is ''tx_type'' ''signer_hex''" "field_is ''payload_b64'' ''payload_b64''"
  "\<not> field_is ''payload_b64'' ''sig_b64''" "\<not> field_is ''payload_b64'' ''signer_hex''"
  "field_is ''sig_b64'' ''sig_b64''" "\<not> field_is ''sig_b64'' ''signer_hex''"
  "field_is ''signer_hex'' ''signer_hex''"
  "valid_utf8 ''tx_type''" "valid_utf8 ''payload_b64''" "valid_utf8 ''sig_b64''" "valid_utf8 ''signer_hex''"
  by code_simp+

definition client_request :: "Tx \<Rightarrow> submitReq" where
  "client_request tx =
     \<lparr>sr_TxType = Type tx, sr_PayloadB64 = StdEncode (Payload tx), sr_SigB64 = StdEncode (Sig tx),
      sr_SignerHex = hex_encode (Signer tx)\<rparr>"

lemma submitTx_client:
  assumes "rq_body rq = json_print h (submit_tree (client_request tx))" "valid_utf8 (Type tx)"
  shows "submitTx ed S s rq = submit_parsed ed S s (tx\<lparr>LeafIndex := 0, PrevHash := [], TxHash := []\<rparr>)"
proof -
  have "printable max_depth (submit_tree (client_request tx))"
    using assms(2) by (simp add: submit_tree_def client_request_def)
  note d = Decode_print [OF this]
  have "Decode submit_field \<lparr>sr_TxType = [], sr_PayloadB64 = [], sr_SigB64 = [], sr_SignerHex = []\<rparr> (rq_body rq)
      = Some (client_request tx)"
    unfolding assms(1) d by (simp add: submit_tree_def decode_struct_def submit_field_def client_request_def)
  then show ?thesis by (cases tx) (simp add: submitTx_def client_request_def)
qed


lemma sample_db_rows: "transactions sample_db = [pg_row (genesis_tx\<lparr>PrevHash := ZeroHash, TxHash := ZeroHash\<rparr>)
       \<lparr>df_Amount = None, df_ToDiscourseID = None, df_RewardSource = []\<rparr>]"
  "accounts sample_db = [(0, sample_account SupplyCap)]"
  by (simp_all add: sample_db_def)

definition submit_request :: "Tx \<Rightarrow> request" where
  "submit_request tx = (sample_request [])\<lparr>rq_body := json_print True (submit_tree (client_request tx))\<rparr>"


end
