(* ===== verification/RewardRace.thy ===== *)
theory RewardRace
  imports RewardsProperties
begin

text \<open>
  Overlapping payments of one event: any number of workers (webhook deliveries, backfills) run
  \<open>PayRewardOnce\<close> for it on one database, each between any of its statements, while other
  transactions are applied and time passes. \<open>rc_payments\<close> is what was paid for the event so far.
\<close>

section \<open>The workers\<close>

datatype worker = Idle | Holding int | Paid int bytes | Finished

record race =
  rc_db :: pgdb
  rc_now :: int
  rc_worker :: "nat \<Rightarrow> worker"
  rc_payments :: "bytes list"

text \<open>The time of the reservation that a worker works under.\<close>

fun reserved_at :: "worker \<Rightarrow> int option" where
  "reserved_at (Holding t) = Some t"
| "reserved_at (Paid t h) = Some t"
| "reserved_at _ = None"

definition timely :: "race \<Rightarrow> int \<Rightarrow> bool" where
  "timely x now \<longleftrightarrow> (\<forall>w t. reserved_at (rc_worker x w) = Some t \<longrightarrow> now \<le> t + stale_after)"

text \<open>
  The steps are the statements of \<open>PayRewardOnce\<close>. If \<open>patient\<close> holds, the clock waits for the
  workers: none is still at work 15 minutes after its reservation.
\<close>

inductive race_step ::
  "(bytes \<Rightarrow> bytes \<Rightarrow> bytes \<Rightarrow> bool) \<Rightarrow> (bytes \<Rightarrow> bytes \<Rightarrow> bytes) \<Rightarrow> RewardService \<Rightarrow> bytes \<Rightarrow> bytes \<Rightarrow> int \<Rightarrow> int \<Rightarrow>
   bytes \<Rightarrow> bytes \<Rightarrow> bool \<Rightarrow> race \<Rightarrow> race \<Rightarrow> bool"
  for ed sign s ty key to amount username source patient where
  tick:
    "\<lbrakk>rc_now x \<le> n; patient \<longrightarrow> timely x n\<rbrakk>
     \<Longrightarrow> race_step ed sign s ty key to amount username source patient x (x\<lparr>rc_now := n\<rparr>)"
| reserve:
    "\<lbrakk>rc_worker x w = Idle; TryReserveRewardEvent (rc_now x) (rc_db x) ty key = (got, db)\<rbrakk>
     \<Longrightarrow> race_step ed sign s ty key to amount username source patient x
          (x\<lparr>rc_db := db, rc_worker := (rc_worker x)(w := if got then Holding (rc_now x) else Finished)\<rparr>)"
| pay:
    "\<lbrakk>rc_worker x w = Holding t;
      signAndApplyTransferOnce ed sign PgOps s (rc_db x) to username amount source = Inr (tx, db)\<rbrakk>
     \<Longrightarrow> race_step ed sign s ty key to amount username source patient x
          (x\<lparr>rc_db := db, rc_worker := (rc_worker x)(w := Paid t (TxHash tx)),
             rc_payments := rc_payments x @ [TxHash tx]\<rparr>)"
| give_up:
    "rc_worker x w = Holding t
     \<Longrightarrow> race_step ed sign s ty key to amount username source patient x
          (x\<lparr>rc_db := ReleaseRewardEvent (rc_db x) ty key, rc_worker := (rc_worker x)(w := Finished)\<rparr>)"
| complete:
    "\<lbrakk>rc_worker x w = Paid t h; CompleteRewardEvent (rc_now x) (rc_db x) ty key h = Inr db\<rbrakk>
     \<Longrightarrow> race_step ed sign s ty key to amount username source patient x
          (x\<lparr>rc_db := db, rc_worker := (rc_worker x)(w := Finished)\<rparr>)"
| complete_error:
    "\<lbrakk>rc_worker x w = Paid t h; CompleteRewardEvent (rc_now x) (rc_db x) ty key h = Inl e\<rbrakk>
     \<Longrightarrow> race_step ed sign s ty key to amount username source patient x
          (x\<lparr>rc_worker := (rc_worker x)(w := Finished)\<rparr>)"
| other:
    "Apply ed PgOps (rc_db x) tx = (tx', Inr db)
     \<Longrightarrow> race_step ed sign s ty key to amount username source patient x (x\<lparr>rc_db := db\<rparr>)"

definition race_start :: "pgdb \<Rightarrow> int \<Rightarrow> race" where
  "race_start db now = \<lparr>rc_db = db, rc_now = now, rc_worker = (\<lambda>_. Idle), rc_payments = []\<rparr>"

section \<open>Rows and hashes\<close>

definition event_row :: "pgdb \<Rightarrow> bytes \<Rightarrow> bytes \<Rightarrow> RewardRow option" where
  "event_row db ty key = map_of (reward_events db) (ty, key)"

definition hashes :: "pgdb \<Rightarrow> bytes set" where
  "hashes db = TxHash ` set (transactions db)"

lemma pg_row_hash [simp]: "TxHash (pg_row tx f) = TxHash tx"
  by (simp add: pg_row_def Tx.defs)

lemma Apply_hashes:
  assumes "Apply ed PgOps db tx = (tx', Inr db')"
  shows "hashes db' = insert (TxHash tx') (hashes db)" "event_row db' ty key = event_row db ty key"
    "length (transactions db') = Suc (length (transactions db))"
proof -
  show "event_row db' ty key = event_row db ty key" using Apply_tables(1) [OF assms] by (simp add: event_row_def)
  obtain t1 t2 where "dispatch PgOps db tx' = Inr t1" "pg_InsertTx t1 tx' = Inr t2" "transactions db' = transactions t2"
    using assms
    by (auto simp: Apply_def apply_in_def apply_linked_def pg_Begin_def pg_LockLedger_def pg_Commit_def Let_def result_simps
        checkSupply_def split: if_splits sum.splits prod.splits)
  then show "hashes db' = insert (TxHash tx') (hashes db)"
    "length (transactions db') = Suc (length (transactions db))"
    using dispatch_rows [of db tx' t1] by (auto simp: hashes_def elim!: pg_InsertTx_ok)
qed

lemma once_hashes:
  assumes "signAndApplyTransferOnce ed sign PgOps s db to username amount source = Inr (tx, db')"
  shows "hashes db' = insert (TxHash tx) (hashes db)" "event_row db' ty key = event_row db ty key"
    "length (transactions db') = Suc (length (transactions db))"
  using once_Inr [OF assms] Apply_hashes by metis+

lemma reserve_row:
  assumes "TryReserveRewardEvent now db ty key = (got, db')"
  shows "hashes db' = hashes db"
    "event_row db' ty key = (if got then Some \<lparr>rr_tx_hash = None, rr_paid_at = now\<rparr> else event_row db ty key)"
    "got \<longleftrightarrow> (case event_row db ty key of None \<Rightarrow> True | Some r \<Rightarrow> rr_tx_hash r = None \<and> rr_paid_at r < now - stale_after)"
  using assms
  by (auto simp: TryReserveRewardEvent_def purge_stale_def Let_def event_row_def hashes_def update_conv' delete_conv'
      split: option.splits if_splits)

lemma release_row:
  "hashes (ReleaseRewardEvent db ty key) = hashes db"
  "event_row (ReleaseRewardEvent db ty key) ty key =
     (case event_row db ty key of Some r \<Rightarrow> if rr_tx_hash r = None then None else Some r | None \<Rightarrow> None)"
  by (auto simp: ReleaseRewardEvent_def event_row_def hashes_def delete_conv' split: option.splits)

lemma complete_row:
  assumes "event_row db ty key = Some r" "rr_tx_hash r = None" "h \<in> hashes db"
  shows "CompleteRewardEvent now db ty key h \<noteq> Inl e"
    "CompleteRewardEvent now db ty key h = Inr db' \<Longrightarrow>
     hashes db' = hashes db \<and> event_row db' ty key = Some \<lparr>rr_tx_hash = Some h, rr_paid_at = now\<rparr>"
  using assms by (auto simp: CompleteRewardEvent_def event_row_def hashes_def list_ex_iff Let_def update_conv' split: if_splits)

section \<open>At most one payment\<close>

text \<open>
  What the workers can have brought about: none is at work, and what was paid is recorded; or one
  is at work under the reservation in the table, and has not paid yet; or it has.
\<close>

inductive race_ok :: "bytes \<Rightarrow> bytes \<Rightarrow> race \<Rightarrow> bool" for ty key where
  free:
    "\<lbrakk>\<And>v. reserved_at (rc_worker x v) = None;
      rc_payments x = [] \<or> (length (rc_payments x) = 1 \<and> event_hash (rc_db x) ty key \<noteq> None)\<rbrakk>
     \<Longrightarrow> race_ok ty key x"
| held:
    "\<lbrakk>rc_worker x w = Holding t; \<And>v. v \<noteq> w \<Longrightarrow> reserved_at (rc_worker x v) = None;
      event_row (rc_db x) ty key = Some \<lparr>rr_tx_hash = None, rr_paid_at = t\<rparr>; rc_now x \<le> t + stale_after;
      rc_payments x = []\<rbrakk>
     \<Longrightarrow> race_ok ty key x"
| paid:
    "\<lbrakk>rc_worker x w = Paid t h; \<And>v. v \<noteq> w \<Longrightarrow> reserved_at (rc_worker x v) = None;
      event_row (rc_db x) ty key = Some \<lparr>rr_tx_hash = None, rr_paid_at = t\<rparr>; rc_now x \<le> t + stale_after;
      rc_payments x = [h]; h \<in> hashes (rc_db x)\<rbrakk>
     \<Longrightarrow> race_ok ty key x"

inductive_cases race_okE: "race_ok ty key x"

lemma event_hash_row: "event_hash db ty key = (case event_row db ty key of Some r \<Rightarrow> rr_tx_hash r | None \<Rightarrow> None)"
  by (simp add: event_hash_def event_row_def)

lemma one_worker:
  "rc_worker x v = a \<Longrightarrow> reserved_at a = Some t \<Longrightarrow> (\<And>u. u \<noteq> w \<Longrightarrow> reserved_at (rc_worker x u) = None) \<Longrightarrow> v = w"
  by (cases "v = w") fastforce+

text \<open>Steps that change neither the workers nor what they rely on.\<close>

lemma race_ok_same:
  assumes "race_ok ty key x" "rc_worker y = rc_worker x" "rc_payments y = rc_payments x"
    and "event_row (rc_db y) ty key = event_row (rc_db x) ty key" "hashes (rc_db x) \<subseteq> hashes (rc_db y)"
    and "timely x (rc_now y)"
  shows "race_ok ty key y"
  using assms(1)
proof cases
  case free
  with assms show ?thesis by (intro race_ok.free) (simp_all add: event_hash_row)
next
  case (held w t)
  then have "rc_now y \<le> t + stale_after"
    using assms(6) unfolding timely_def by (metis reserved_at.simps(1,2))
  with held assms show ?thesis by (intro race_ok.held [of y w t]) simp_all
next
  case (paid w t h)
  then have "rc_now y \<le> t + stale_after"
    using assms(6) unfolding timely_def by (metis reserved_at.simps(1,2))
  with paid assms show ?thesis by (intro race_ok.paid [of y w t h]) auto
qed

lemma race_ok_timely: "race_ok ty key x \<Longrightarrow> timely x (rc_now x)"
  by (erule race_okE) (auto simp: timely_def, (metis one_worker reserved_at.simps option.inject)+)

text \<open>A worker that holds the reservation, or has paid under it, is the only one at work.\<close>

lemma race_ok_holding:
  assumes "race_ok ty key x" "rc_worker x w = Holding t"
  shows "(\<forall>v. v \<noteq> w \<longrightarrow> reserved_at (rc_worker x v) = None) \<and>
    event_row (rc_db x) ty key = Some \<lparr>rr_tx_hash = None, rr_paid_at = t\<rparr> \<and> rc_now x \<le> t + stale_after \<and> rc_payments x = []"
  using assms(1)
proof cases
  case free
  with free(1) [of w] assms(2) show ?thesis by simp
next
  case (held v u)
  then have "v = w" using one_worker [OF assms(2), of t v] by simp
  with held assms(2) show ?thesis by simp
next
  case (paid v u h)
  then show ?thesis using one_worker [OF assms(2), of t v] assms(2) by simp
qed

lemma race_ok_paying:
  assumes "race_ok ty key x" "rc_worker x w = Paid t h"
  shows "(\<forall>v. v \<noteq> w \<longrightarrow> reserved_at (rc_worker x v) = None) \<and>
    event_row (rc_db x) ty key = Some \<lparr>rr_tx_hash = None, rr_paid_at = t\<rparr> \<and> rc_now x \<le> t + stale_after \<and>
    rc_payments x = [h] \<and> h \<in> hashes (rc_db x)"
  using assms(1)
proof cases
  case free
  with free(1) [of w] assms(2) show ?thesis by simp
next
  case (held v u)
  then show ?thesis using one_worker [OF assms(2), of t v] assms(2) by simp
next
  case (paid v u g)
  then have "v = w" using one_worker [OF assms(2), of t v] by simp
  with paid assms(2) show ?thesis by simp
qed

text \<open>A reservation is granted only where nobody is at work and nothing has been paid.\<close>

lemma race_ok_reserve:
  assumes "race_ok ty key x" "rc_worker x w = Idle" "TryReserveRewardEvent (rc_now x) (rc_db x) ty key = (got, db)"
    and y: "y = x\<lparr>rc_db := db, rc_worker := (rc_worker x)(w := if got then Holding (rc_now x) else Finished)\<rparr>"
  shows "race_ok ty key y"
  using assms(1)
proof cases
  case free
  note row = reserve_row [OF assms(3)]
  show ?thesis
  proof (cases got)
    case True
    then have "rc_payments x = []" using free(2) row(3) by (auto simp: event_hash_row split: option.splits)
    with free(1) True y row show ?thesis
      by (intro race_ok.held [of y w "rc_now x"]) (simp_all add: stale_after_def)
  next
    case False
    with free y row show ?thesis by (intro race_ok.free) (auto simp: event_hash_row)
  qed
next
  case (held v t)
  with reserve_row [OF assms(3)] have "\<not> got" "v \<noteq> w" using assms(2) by auto
  with held reserve_row [OF assms(3)] y show ?thesis by (intro race_ok.held [of y v t]) auto
next
  case (paid v t h)
  with reserve_row [OF assms(3)] have "\<not> got" "v \<noteq> w" using assms(2) by auto
  with paid reserve_row [OF assms(3)] y show ?thesis by (intro race_ok.paid [of y v t h]) auto
qed

lemma race_step_ok:
  assumes "race_step ed sign s ty key to amount username source True x y" "race_ok ty key x"
  shows "race_ok ty key y"
  using assms(1)
proof cases
  case (tick n)
  with race_ok_same [OF assms(2), of y] show ?thesis by simp
next
  case (reserve w got db)
  then show ?thesis by (intro race_ok_reserve [OF assms(2)])
next
  case (pay w t tx db)
  with race_ok_holding [OF assms(2) pay(2)] once_hashes(1) [OF pay(3)] once_hashes(2) [OF pay(3), of ty key]
  show ?thesis by (intro race_ok.paid [of y w t "TxHash tx"]) auto
next
  case (give_up w t)
  with race_ok_holding [OF assms(2) give_up(2)] show ?thesis by (intro race_ok.free) auto
next
  case (complete w t h db)
  from race_ok_paying [OF assms(2) complete(2)] complete complete_row(2) [OF _ _ _ complete(3)]
  show ?thesis by (intro race_ok.free) (auto simp: event_hash_row)
next
  case (complete_error w t h e)
  from race_ok_paying [OF assms(2) complete_error(2)] complete_row(1) complete_error(3) show ?thesis by fastforce
next
  case (other tx tx' db)
  with race_ok_same [OF assms(2), of y] Apply_hashes(1) [OF other(2)] Apply_hashes(2) [OF other(2), of ty key]
    race_ok_timely [OF assms(2)]
  show ?thesis by auto
qed

text \<open>
  Claim C10. At most one payment per event: however many workers overlap, and whatever other
  transactions come in between, the event is paid at most once, and two workers are never at work
  on it together, as long as every worker is done within 15 minutes of its reservation.
\<close>

theorem at_most_once:
  assumes "(race_step ed sign s ty key to amount username source True)\<^sup>*\<^sup>* (race_start db now) x"
  shows "length (rc_payments x) \<le> 1 \<and>
    (\<forall>v w. v \<noteq> w \<longrightarrow> reserved_at (rc_worker x v) = None \<or> reserved_at (rc_worker x w) = None)"
proof -
  have "race_ok ty key (race_start db now)" by (intro race_ok.free) (simp_all add: race_start_def)
  with assms have "race_ok ty key x" by (induction rule: rtranclp_induct) (blast intro: race_step_ok)+
  then show ?thesis by cases (force, metis le_refl length_Cons list.size(3) zero_le_one One_nat_def, simp, metis)
qed

text \<open>A run of one worker that pays, on the sample database.\<close>

lemma sample_paying:
  "\<exists>db (tx :: Tx). (race_step toy_ed toy_sign sample_rewards ''signup_bonus'' ''user:7'' 7 100 ''bob'' ''signup_bonus'' patient)\<^sup>*\<^sup>*
     (race_start sample_db 0)
     (race_start db 0\<lparr>rc_worker := (\<lambda>_. Idle)(0 := Paid 0 (TxHash tx)), rc_payments := [TxHash tx]\<rparr>) \<and>
     event_row db ''signup_bonus'' ''user:7'' = Some \<lparr>rr_tx_hash = None, rr_paid_at = 0\<rparr>"
proof -
  obtain res db' where p: "PayRewardOnce toy_ed toy_sign sample_rewards 0 sample_db ''signup_bonus'' ''user:7'' 7 ''bob'' ''signup_bonus'' =
      (Inr res, db')" "pr_Paid res" "pr_Amount res = 100"
    using sample_payment [of 0] by (auto split: prod.splits sum.splits)
  obtain db1 tx db2 where parts: "TryReserveRewardEvent 0 sample_db ''signup_bonus'' ''user:7'' = (True, db1)"
    "signAndApplyTransferOnce toy_ed toy_sign PgOps sample_rewards db1 7 ''bob'' 100 ''signup_bonus'' = Inr (tx, db2)"
    using payment_parts [OF p(1,2)] p(3) by metis
  let ?step = "race_step toy_ed toy_sign sample_rewards ''signup_bonus'' ''user:7'' 7 100 ''bob'' ''signup_bonus'' patient"
  let ?x = "race_start db1 0\<lparr>rc_worker := (\<lambda>_. Idle)(0 := Holding 0)\<rparr>"
  let ?y = "race_start db2 0\<lparr>rc_worker := (\<lambda>_. Idle)(0 := Paid 0 (TxHash tx)), rc_payments := [TxHash tx]\<rparr>"
  have "?step (race_start sample_db 0) ?x"
    using race_step.reserve [of "race_start sample_db 0" 0 "''signup_bonus''" "''user:7''" True db1] parts(1)
    by (simp add: race_start_def)
  moreover have "?step ?x ?y"
    using race_step.pay [of ?x 0 0 toy_ed toy_sign sample_rewards 7 "''bob''" 100 "''signup_bonus''" tx db2] parts(2)
    by (simp add: race_start_def)
  moreover have "event_row db2 ''signup_bonus'' ''user:7'' = Some \<lparr>rr_tx_hash = None, rr_paid_at = 0\<rparr>"
    using once_hashes(2) [OF parts(2)] reserve_row(2) [OF parts(1)] by simp
  ultimately have "?step\<^sup>*\<^sup>* (race_start sample_db 0) ?y"
    "event_row db2 ''signup_bonus'' ''user:7'' = Some \<lparr>rr_tx_hash = None, rr_paid_at = 0\<rparr>"
    by (meson r_into_rtranclp rtranclp.rtrancl_into_rtrancl)+
  then show ?thesis by blast
qed

theorem at_most_once_witness:
  "\<exists>x. (race_step toy_ed toy_sign sample_rewards ''signup_bonus'' ''user:7'' 7 100 ''bob'' ''signup_bonus'' True)\<^sup>*\<^sup>*
     (race_start sample_db 0) x \<and> length (rc_payments x) = 1 \<and>
     reserved_at (rc_worker x 0) = Some 0 \<and> reserved_at (rc_worker x 1) = None"
proof -
  obtain db and tx :: Tx where run: "(race_step toy_ed toy_sign sample_rewards ''signup_bonus'' ''user:7'' 7 100 ''bob'' ''signup_bonus'' True)\<^sup>*\<^sup>*
     (race_start sample_db 0)
     (race_start db 0\<lparr>rc_worker := (\<lambda>_. Idle)(0 := Paid 0 (TxHash tx)), rc_payments := [TxHash tx]\<rparr>)"
    using sample_paying by blast
  let ?x = "race_start db 0\<lparr>rc_worker := (\<lambda>_. Idle)(0 := Paid 0 (TxHash tx)), rc_payments := [TxHash tx]\<rparr>"
  have "reserved_at (rc_worker ?x 0) = None \<or> reserved_at (rc_worker ?x 1) = None"
    using at_most_once [OF run, THEN conjunct2, rule_format, of 0 1] by simp
  with run show ?thesis by (intro exI [of _ ?x]) simp
qed

text \<open>
  Claim C33. Not so when a worker is slow: 15 minutes after a reservation its row counts as
  stale, although the worker that made it has paid and is only about to record this; a second
  worker then reserves the same event and holds the right to pay it again.
\<close>

theorem slow_worker_second_reservation:
  "\<exists>x h. (race_step toy_ed toy_sign sample_rewards ''signup_bonus'' ''user:7'' 7 100 ''bob'' ''signup_bonus'' False)\<^sup>*\<^sup>*
     (race_start sample_db 0) x \<and> rc_payments x = [h] \<and>
     rc_worker x 0 = Paid 0 h \<and> rc_worker x 1 = Holding 901"
proof -
  let ?step = "race_step toy_ed toy_sign sample_rewards ''signup_bonus'' ''user:7'' 7 100 ''bob'' ''signup_bonus'' False"
  obtain db and tx :: Tx where run: "?step\<^sup>*\<^sup>* (race_start sample_db 0)
     (race_start db 0\<lparr>rc_worker := (\<lambda>_. Idle)(0 := Paid 0 (TxHash tx)), rc_payments := [TxHash tx]\<rparr>)"
    and row: "event_row db ''signup_bonus'' ''user:7'' = Some \<lparr>rr_tx_hash = None, rr_paid_at = 0\<rparr>"
    using sample_paying by blast
  let ?x = "race_start db 0\<lparr>rc_worker := (\<lambda>_. Idle)(0 := Paid 0 (TxHash tx)), rc_payments := [TxHash tx]\<rparr>"
  let ?y = "?x\<lparr>rc_now := 901\<rparr>"
  obtain got db' where r: "TryReserveRewardEvent 901 db ''signup_bonus'' ''user:7'' = (got, db')" by fastforce
  with reserve_row(3) [OF r] row have "got" by (simp add: stale_after_def)
  then have "?step ?y (?y\<lparr>rc_db := db', rc_worker := (rc_worker ?y)(1 := Holding 901)\<rparr>)"
    using race_step.reserve [of ?y 1 "''signup_bonus''" "''user:7''" True db'] r by (simp add: race_start_def)
  moreover have "?step ?x ?y" by (rule race_step.tick) (simp_all add: race_start_def)
  ultimately have "?step\<^sup>*\<^sup>* (race_start sample_db 0) (?y\<lparr>rc_db := db', rc_worker := (rc_worker ?y)(1 := Holding 901)\<rparr>)"
    using run by (meson rtranclp.rtrancl_into_rtrancl)
  then show ?thesis by (intro exI conjI) (assumption, simp_all add: race_start_def)
qed

end
