(* ===== verification/WebhookProperties.thy ===== *)
theory WebhookProperties
  imports RewardRace
begin

text \<open>What the webhook does to the database, and that a recorded payment is final.\<close>

section \<open>Payments one after another\<close>

text \<open>The ways in which \<open>PayRewardOnce\<close> ends.\<close>

lemma PayRewardOnce_cases:
  assumes "PayRewardOnce ed sign s now db ty key to username source = (out, db')"
  obtains (skipped) reason where "out = Inr (not_paid reason)" "db' = db"
    | (recorded) reason where "out = Inr (not_paid reason)" "TryReserveRewardEvent now db ty key = (False, db')"
    | (failed) db1 e where "out = Inl e" "TryReserveRewardEvent now db ty key = (True, db1)"
        "db' = ReleaseRewardEvent db1 ty key"
    | (unrecorded) db1 amount tx e e' where "out = Inl e" "TryReserveRewardEvent now db ty key = (True, db1)"
        "signAndApplyTransferOnce ed sign PgOps s db1 to username amount source = Inr (tx, db')"
        "CompleteRewardEvent now db' ty key (TxHash tx) = Inl e'"
    | (paid) db1 amount tx db2 res where "out = Inr res" "pr_Paid res" "TryReserveRewardEvent now db ty key = (True, db1)"
        "signAndApplyTransferOnce ed sign PgOps s db1 to username amount source = Inr (tx, db2)"
        "CompleteRewardEvent now db2 ty key (TxHash tx) = Inr db'"
proof -
  obtain amount enabled where g: "GetRewardAmount db ty = (amount, enabled)" by fastforce
  obtain got db1 where r: "TryReserveRewardEvent now db ty key = (got, db1)" by fastforce
  show thesis
  proof (cases "to \<le> TreasuryDscID \<or> \<not> enabled \<or> amount \<le> 0")
    case True
    with assms g that(1) show thesis by (auto simp: PayRewardOnce_def split: if_splits)
  next
    case on: False
    show thesis
    proof (cases got)
      case False
      with on assms g r that(2) show thesis by (auto simp: PayRewardOnce_def)
    next
      case True
      show thesis
      proof (cases "signAndApplyTransfer ed sign PgOps s (replicate 8 db1) to username amount source")
        case (Inl e)
        with True on assms g r that(3) show thesis by (auto simp: PayRewardOnce_def)
      next
        case (Inr p)
        obtain tx db2 where p: "p = (tx, db2)" by fastforce
        note once = conjunct2 [OF signAndApply_Inr [OF Inr [unfolded p]]]
        show thesis
          using True on assms g r Inr p that(4) [OF _ _ _] that(5) once
          by (cases "CompleteRewardEvent now db2 ty key (TxHash tx)") (auto simp: PayRewardOnce_def)
      qed
    qed
  qed
qed

text \<open>With nobody in between, what was paid is recorded: the last statement does not fail.\<close>

lemma PayRewardOnce_unpaid:
  assumes "PayRewardOnce ed sign s now db ty key to username source = (out, db')"
    and "\<And>res. out = Inr res \<Longrightarrow> \<not> pr_Paid res"
  shows "accounts db' = accounts db \<and> transactions db' = transactions db"
  using assms(1)
proof (cases rule: PayRewardOnce_cases)
  case (failed db1 e)
  with TryReserve_tables [OF failed(2)] show ?thesis
    by (auto simp: ReleaseRewardEvent_def split: option.splits)
next
  case (unrecorded db1 amount tx e e')
  note once = once_hashes(1) [OF unrecorded(3)] once_hashes(2) [OF unrecorded(3), of ty key]
  have "event_row db' ty key = Some \<lparr>rr_tx_hash = None, rr_paid_at = now\<rparr>"
    using once(2) reserve_row(2) [OF unrecorded(2)] by simp
  from complete_row(1) [OF this] once(1) unrecorded(4) show ?thesis by auto
qed (use assms(2) in \<open>auto dest: TryReserve_tables\<close>)

text \<open>A recorded payment stays recorded, whatever the reward code does afterwards.\<close>

lemma event_hash_kept:
  assumes "event_hash db ty key = Some h"
  shows "TryReserveRewardEvent now db ty' key' = (got, db') \<Longrightarrow> event_hash db' ty key = Some h"
    "CompleteRewardEvent now db ty' key' g = Inr db' \<Longrightarrow> event_hash db' ty key = Some h"
    "event_hash (ReleaseRewardEvent db ty' key') ty key = Some h"
    "Apply ed PgOps db tx = (tx', Inr db') \<Longrightarrow> event_hash db' ty key = Some h"
  using assms
  by (auto simp: event_hash_def TryReserveRewardEvent_def purge_stale_def CompleteRewardEvent_def ReleaseRewardEvent_def
      Let_def update_conv' delete_conv' Apply_tables split: option.splits if_splits)

lemma PayRewardOnce_kept:
  assumes "event_hash db ty key = Some h"
    and "PayRewardOnce ed sign s now db ty' key' to username source = (out, db')"
  shows "event_hash db' ty key = Some h"
  using assms(2)
proof (cases rule: PayRewardOnce_cases)
  case (paid db1 amount tx db2 res)
  with event_hash_kept(1,2,4) assms(1) once_Inr [OF paid(4)] show ?thesis by metis
next
  case (unrecorded db1 amount tx e e')
  with event_hash_kept(1,4) assms(1) once_Inr [OF unrecorded(3)] show ?thesis by metis
qed (use assms(1) event_hash_kept(1,3) in \<open>metis+\<close>)

lemma PayRewardOnce_recorded:
  assumes "event_hash db ty key = Some h"
  shows "\<exists>reason. PayRewardOnce ed sign s now db ty key to username source = (Inr (not_paid reason), db)"
proof -
  obtain r where "map_of (reward_events db) (ty, key) = Some r" "rr_tx_hash r = Some h"
    using assms by (auto simp: event_hash_def split: option.splits)
  then have "TryReserveRewardEvent now db ty key = (False, db)"
    by (simp add: TryReserveRewardEvent_def purge_stale_def)
  then show ?thesis by (auto simp: PayRewardOnce_def split: prod.splits)
qed

section \<open>The webhook\<close>

lemma paid_grows:
  assumes "PayRewardOnce ed sign s now db ty key to username source = (Inr res, db')" "pr_Paid res"
  shows "length (transactions db') = Suc (length (transactions db)) \<and> pr_Tx res \<noteq> None"
proof -
  obtain tx db1 db2 where p: "pr_Tx res = Some tx" "TryReserveRewardEvent now db ty key = (True, db1)"
    "signAndApplyTransferOnce ed sign PgOps s db1 to username (pr_Amount res) source = Inr (tx, db2)"
    "CompleteRewardEvent now db2 ty key (TxHash tx) = Inr db'"
    by (rule payment_parts [OF assms])
  with once_hashes(3) [OF p(3)] Complete_tables(2) [OF p(4)] TryReserve_tables(2) [OF p(2)] show ?thesis by simp
qed

lemma payOnce_pays:
  assumes "payOnce ed sign s now db ty key to username = (r, db')"
  shows "if transactions db' = transactions db then accounts db' = accounts db
    else status r = 200 \<and> (\<exists>res. PayRewardOnce ed sign s now db ty key to username ty = (Inr res, db') \<and> pr_Paid res)"
proof -
  obtain out where out: "PayRewardOnce ed sign s now db ty key to username ty = (out, db')"
    using assms(1) by (auto simp: payOnce_def split: prod.splits sum.splits option.splits)
  show ?thesis
  proof (cases "\<exists>res. out = Inr res \<and> pr_Paid res")
    case True
    then obtain res where res: "out = Inr res" "pr_Paid res" by blast
    note g = paid_grows [OF out [unfolded res(1)] res(2)]
    with out res assms show ?thesis by (auto simp: payOnce_def)
  next
    case False
    with PayRewardOnce_unpaid [OF out] show ?thesis by auto
  qed
qed

lemma webhook_effect:
  assumes "Webhook ed sign s now db rq = (r, db')"
  shows "if \<not> verifySig s rq (take 1048576 (rq_body rq)) then status r = 401 \<and> db' = db
    else if transactions db' = transactions db then accounts db' = accounts db
    else status r = 200 \<and>
      (\<exists>ty uid name res. PayRewardOnce ed sign s now db ty (user_key uid) uid name ty = (Inr res, db') \<and> pr_Paid res \<and>
        (if ty = EventSignupBonus then
           rq_header rq ''X-Discourse-Event-Type'' = ''user'' \<and>
           rq_header rq ''X-Discourse-Event'' \<in> {''user_created'', ''user_activated''} \<and>
           (\<exists>u. userPayload (take 1048576 (rq_body rq)) = Some u \<and> ui_Active u \<and> ui_ID u = uid \<and> ui_Username u = name)
         else ty = EventFirstPostEver \<and>
           rq_header rq ''X-Discourse-Event-Type'' = ''post'' \<and> rq_header rq ''X-Discourse-Event'' = ''post_created'' \<and>
           (\<exists>p. postPayload (take 1048576 (rq_body rq)) = Some p \<and> pi_UserID p = uid \<and> pi_Username p = name)))"
proof -
  let ?body = "take 1048576 (rq_body rq)"
  have ne: "EventSignupBonus \<noteq> EventFirstPostEver" by (simp add: EventSignupBonus_def EventFirstPostEver_def)
  show ?thesis
  proof (cases "verifySig s rq ?body")
    case False
    with assms show ?thesis by (auto simp: Webhook_def Let_def)
  next
    case sig: True
    show ?thesis
    proof (cases "transactions db' = transactions db")
      case True
      with assms sig show ?thesis
        by (auto simp: Webhook_def Let_def handleUserEvent_def handlePostEvent_def split: if_splits option.splits
            dest!: payOnce_pays)
    next
      case False
      consider (user) u where "rq_header rq ''X-Discourse-Event-Type'' = ''user''"
          "rq_header rq ''X-Discourse-Event'' \<in> {''user_created'', ''user_activated''}" "userPayload ?body = Some u" "ui_Active u"
          "payOnce ed sign s now db EventSignupBonus (user_key (ui_ID u)) (ui_ID u) (ui_Username u) = (r, db')"
        | (post) p where "rq_header rq ''X-Discourse-Event-Type'' = ''post''" "rq_header rq ''X-Discourse-Event'' = ''post_created''"
          "postPayload ?body = Some p"
          "payOnce ed sign s now db EventFirstPostEver (user_key (pi_UserID p)) (pi_UserID p) (pi_Username p) = (r, db')"
        using assms sig False
        by (auto simp: Webhook_def Let_def handleUserEvent_def handlePostEvent_def split: if_splits option.splits)
      then show ?thesis
      proof cases
        case (user u)
        with sig False payOnce_pays [OF user(5)] show ?thesis by auto
      next
        case (post p)
        with sig False ne payOnce_pays [OF post(4)] show ?thesis by (auto intro!: exI [of _ EventFirstPostEver])
      qed
    qed
  qed
qed

text \<open>The signature check, spelled out.\<close>

lemma strip_prefix_iff: "strip_prefix p s = Some h \<longleftrightarrow> s = p @ h"
proof
  assume "strip_prefix p s = Some h"
  then have "take (length p) s = p" "h = drop (length p) s" by (simp_all add: strip_prefix_def split: if_splits)
  then show "s = p @ h" by (metis append_take_drop_id)
qed (simp add: strip_prefix_def)

lemma verifySig_iff:
  "verifySig s rq body \<longleftrightarrow>
     (\<exists>h. rq_header rq ''X-Discourse-Event-Signature'' = ''sha256='' @ h \<and>
        hex_decode h = Some (hmac_sha256 (rs_WebhookSecret s) body))"
proof (cases "strip_prefix ''sha256='' (rq_header rq ''X-Discourse-Event-Signature'')")
  case None
  then have "rq_header rq ''X-Discourse-Event-Signature'' \<noteq> ''sha256='' @ h" for h
    by (metis option.distinct(1) strip_prefix_iff)
  with None show ?thesis by (simp add: verifySig_def Let_def)
next
  case (Some h)
  then have "rq_header rq ''X-Discourse-Event-Signature'' = ''sha256='' @ h" by (simp only: strip_prefix_iff)
  with Some show ?thesis by (auto simp: verifySig_def Let_def split: option.splits)
qed

text \<open>
  Claim C20. Only Discourse triggers payments: a request whose signature header is not \<open>sha256=\<close> and
  the hexadecimal HMAC-SHA-256 of its body (the first megabyte of it) under the shared secret is
  answered 401 and changes nothing. Of the others, the webhook adds to the log only by one
  payment of \<open>PayRewardOnce\<close>: the signup bonus of the active user whom a user event names, or
  the first-post bonus of the author whom a \<open>post_created\<close> event names, under the key of that
  user.
\<close>

theorem webhook_pays:
  assumes "Webhook ed sign s now db rq = (r, db')"
  shows "if \<nexists>h. rq_header rq ''X-Discourse-Event-Signature'' = ''sha256='' @ h \<and>
      hex_decode h = Some (hmac_sha256 (rs_WebhookSecret s) (take 1048576 (rq_body rq)))
    then status r = 401 \<and> db' = db
    else if transactions db' = transactions db then accounts db' = accounts db
    else status r = 200 \<and>
      (\<exists>ty uid name res. PayRewardOnce ed sign s now db ty (user_key uid) uid name ty = (Inr res, db') \<and> pr_Paid res \<and>
        (if ty = EventSignupBonus then
           rq_header rq ''X-Discourse-Event-Type'' = ''user'' \<and>
           rq_header rq ''X-Discourse-Event'' \<in> {''user_created'', ''user_activated''} \<and>
           (\<exists>u. userPayload (take 1048576 (rq_body rq)) = Some u \<and> ui_Active u \<and> ui_ID u = uid \<and> ui_Username u = name)
         else ty = EventFirstPostEver \<and>
           rq_header rq ''X-Discourse-Event-Type'' = ''post'' \<and> rq_header rq ''X-Discourse-Event'' = ''post_created'' \<and>
           (\<exists>p. postPayload (take 1048576 (rq_body rq)) = Some p \<and> pi_UserID p = uid \<and> pi_Username p = name)))"
  using webhook_effect [OF assms] unfolding verifySig_iff .

definition signed_request :: "bytes \<Rightarrow> bytes \<Rightarrow> bytes \<Rightarrow> request" where
  "signed_request ty name body = (sample_request [])\<lparr>rq_body := body, rq_header :=
     (\<lambda>_. [])(''X-Discourse-Event-Type'' := ty, ''X-Discourse-Event'' := name,
       ''X-Discourse-Event-Signature'' := ''sha256='' @ hex_encode (hmac_sha256 ''secret'' body))\<rparr>"

definition user_json :: bytes where
  "user_json = ''{'' @ quoted ''user'' @ '':{'' @ quoted ''id'' @ '':7,'' @ quoted ''username'' @ '':'' @ quoted ''bob'' @ '','' @
     quoted ''active'' @ '':true}}''"

theorem webhook_pays_witness:
  "\<exists>r db' res. Webhook toy_ed toy_sign sample_rewards 0 sample_db (signed_request ''user'' ''user_created'' user_json) = (r, db') \<and>
     status r = 200 \<and> pr_Paid res \<and>
     PayRewardOnce toy_ed toy_sign sample_rewards 0 sample_db EventSignupBonus (user_key 7) 7 ''bob'' EventSignupBonus = (Inr res, db')"
proof -
  have names: "EventSignupBonus = ''signup_bonus''" "user_key 7 = ''user:7''" by code_simp+
  obtain res0 db0 where p: "PayRewardOnce toy_ed toy_sign sample_rewards 0 sample_db EventSignupBonus (user_key 7) 7 ''bob'' EventSignupBonus =
      (Inr res0, db0)" "pr_Paid res0"
    using sample_payment [of 0] unfolding names by (auto split: prod.splits sum.splits)
  let ?rq = "signed_request ''user'' ''user_created'' user_json"
  obtain r db' where w: "Webhook toy_ed toy_sign sample_rewards 0 sample_db ?rq = (r, db')" by fastforce
  have "length user_json = 48" by code_simp
  then have body: "take 1048576 (rq_body ?rq) = user_json" by (simp add: signed_request_def)
  have u: "userPayload user_json = Some \<lparr>ui_ID = 7, ui_Username = ''bob'', ui_Active = True, ui_Approved = False, ui_TrustLevel = 0\<rparr>"
    by code_simp
  have sig: "verifySig sample_rewards ?rq user_json"
    by (simp add: verifySig_def signed_request_def strip_prefix_def sample_rewards_def)
  have hdr: "rq_header ?rq ''X-Discourse-Event-Type'' = ''user''" "rq_header ?rq ''X-Discourse-Event'' = ''user_created''"
    by (simp_all add: signed_request_def)
  have "payOnce toy_ed toy_sign sample_rewards 0 sample_db EventSignupBonus (user_key 7) 7 ''bob'' = (r, db')"
    using w by (simp add: Webhook_def Let_def body sig hdr handleUserEvent_def u)
  with p have "db' = db0" by (auto simp: payOnce_def split: option.splits)
  then have "transactions db' \<noteq> transactions sample_db" using paid_grows [OF p] by auto
  with webhook_pays [OF w] sig [unfolded verifySig_iff] obtain ty uid name res where
    "PayRewardOnce toy_ed toy_sign sample_rewards 0 sample_db ty (user_key uid) uid name ty = (Inr res, db')" "pr_Paid res"
    "status r = 200" "ty = EventSignupBonus" "uid = 7" "name = ''bob''"
    by (auto simp: body u hdr split: if_splits)
  with w show ?thesis by blast
qed

end
