(* ===== verification/ServerProperties.thy ===== *)
theory ServerProperties
  imports ApiProperties WebhookProperties
begin

text \<open>
  The server as a whole: any sequence of requests to the API, the webhook and the admin page, and
  of commands of \<open>ledger-admin\<close>, each handled to its end before the next. Then what happens when
  a registration and a transfer overlap.
\<close>

section \<open>Every request keeps the ledger\<close>

text \<open>The first database after \<open>n\<close> requests may have become the second.\<close>

inductive served ::
  "(bytes \<Rightarrow> bytes \<Rightarrow> bytes \<Rightarrow> bool) \<Rightarrow> (bytes \<Rightarrow> bytes \<Rightarrow> bytes) \<Rightarrow> RewardService \<Rightarrow> Server \<Rightarrow> pgdb \<Rightarrow> nat \<Rightarrow> pgdb \<Rightarrow> bool"
  for ed sign rs sv db where
  started: "served ed sign rs sv db 0 db"
| submitted: "\<lbrakk>served ed sign rs sv db n x; submitTx ed PgOps x rq = (r, y)\<rbrakk> \<Longrightarrow> served ed sign rs sv db (Suc n) y"
| registered: "\<lbrakk>served ed sign rs sv db n x; register PgOps sv now x rq = (r, y)\<rbrakk> \<Longrightarrow> served ed sign rs sv db (Suc n) y"
| notified: "\<lbrakk>served ed sign rs sv db n x; Webhook ed sign rs now x rq = (r, y)\<rbrakk> \<Longrightarrow> served ed sign rs sv db (Suc n) y"
| configured: "\<lbrakk>served ed sign rs sv db n x; updateRewardConfig x rq = (r, y)\<rbrakk> \<Longrightarrow> served ed sign rs sv db (Suc n) y"
| applied: "\<lbrakk>served ed sign rs sv db n x; Apply ed PgOps x tx = (tx', Inr y)\<rbrakk> \<Longrightarrow> served ed sign rs sv db (Suc n) y"
| paid: "\<lbrakk>served ed sign rs sv db n x; PayRewardOnce ed sign s now x ty key to name source = (out, y)\<rbrakk> \<Longrightarrow>
    served ed sign rs sv db (Suc n) y"

section \<open>What the rows are\<close>

text \<open>Names in the table are valid texts, and keys have 32 bytes.\<close>

definition row_ok :: "Account \<Rightarrow> bool" where
  "row_ok a \<longleftrightarrow> text_ok (Username a) \<and> (case Pubkey a of None \<Rightarrow> True | Some k \<Rightarrow> length k = PubKeyLen)"

definition rows_ok :: "pgdb \<Rightarrow> bool" where
  "rows_ok t \<longleftrightarrow> list_all (\<lambda>(d, a). row_ok a) (accounts t)"

lemma rows_names: "rows_ok t \<Longrightarrow> names_ok t"
  by (auto simp: rows_ok_def row_ok_def names_ok_def list_all_iff)

lemma rows_okD: "rows_ok t \<Longrightarrow> map_of (accounts t) d = Some a \<Longrightarrow> row_ok a"
  by (auto simp: rows_ok_def list_all_iff dest: map_of_SomeD)

lemma set_alist_update: "set (AList.update k v xs) \<subseteq> insert (k, v) (set xs)"
  by (induction xs) auto

lemma rows_update: "rows_ok t \<Longrightarrow> row_ok a \<Longrightarrow> rows_ok (t\<lparr>accounts := AList.update d a (accounts t)\<rparr>)"
  using set_alist_update [of d a "accounts t"] by (auto simp: rows_ok_def list_all_iff)

lemma find_in_set: "find P xs = Some x \<Longrightarrow> x \<in> set xs"
  by (auto simp: find_Some_iff)

lemma rows_pubkey: "rows_ok t \<Longrightarrow> pg_GetAccountByPubKey t k = Inr (Some a) \<Longrightarrow> row_ok a"
  by (auto simp: pg_GetAccountByPubKey_def rows_ok_def list_all_iff dest: find_in_set split: if_splits)

lemma pg_Upsert_rows:
  assumes "rows_ok t" "pg_UpsertAccount t a = Inr t'" "case Pubkey a of None \<Rightarrow> True | Some k \<Rightarrow> length k = PubKeyLen"
  shows "rows_ok t'"
proof -
  let ?new = "upsert_row (map_of (accounts t) (DiscourseID a))
    (a\<lparr>Pubkey := case Pubkey a of Some k \<Rightarrow> if k = [] then None else Some k | None \<Rightarrow> None\<rparr>)"
  have t': "text_ok (Username a)" "t' = t\<lparr>accounts := AList.update (DiscourseID a) ?new (accounts t)\<rparr>"
    using assms(2) by (auto simp: pg_UpsertAccount_def Let_def split: if_splits)
  have "row_ok ?new"
  proof (cases "map_of (accounts t) (DiscourseID a)")
    case None
    with t'(1) assms(3) show ?thesis by (auto simp: upsert_row_def row_ok_def split: option.splits)
  next
    case (Some b)
    from rows_okD [OF assms(1) this] t'(1) assms(3) Some show ?thesis
      by (cases "Pubkey a") (auto simp: upsert_row_def row_ok_def PubKeyLen_def)
  qed
  with t'(2) show ?thesis using rows_update [OF assms(1)] by simp
qed

lemma pg_UpdatePubKey_rows:
  assumes "rows_ok t" "pg_UpdatePubKey t k k' = Inr t'" "length k' = PubKeyLen"
  shows "rows_ok t'"
proof -
  obtain p where p: "find (\<lambda>(d, a). Pubkey a = Some k) (accounts t) = Some p"
    "t' = t\<lparr>accounts := AList.update (fst p) ((snd p)\<lparr>Pubkey := Some k'\<rparr>) (accounts t)\<rparr>"
    using assms(2) by (auto simp: pg_UpdatePubKey_def split: option.splits if_splits)
  then have "p \<in> set (accounts t)" by (blast dest: find_in_set)
  with assms(1) have "row_ok (snd p)" by (auto simp: rows_ok_def list_all_iff)
  with assms(3) have "row_ok ((snd p)\<lparr>Pubkey := Some k'\<rparr>)" by (simp add: row_ok_def)
  with p(2) rows_update [OF assms(1)] show ?thesis by simp
qed

lemma pg_UpdateUsername_rows:
  "rows_ok t \<Longrightarrow> pg_UpdateUsernameAndPubKey t d k u = Inr t' \<Longrightarrow> length k = PubKeyLen \<Longrightarrow> rows_ok t'"
  by (auto simp: pg_UpdateUsernameAndPubKey_def row_ok_def intro!: rows_update split: option.splits if_splits)

text \<open>The writes that the handlers of transactions make.\<close>

definition key_ok :: "Account \<Rightarrow> bool" where
  "key_ok a \<longleftrightarrow> (case Pubkey a of None \<Rightarrow> True | Some k \<Rightarrow> length k = PubKeyLen)"

lemma row_key: "row_ok a \<Longrightarrow> Pubkey b = Pubkey a \<Longrightarrow> key_ok b"
  by (simp add: row_ok_def key_ok_def)

lemma dispatch_writes:
  assumes "dispatch PgOps t tx = Inr t'" "rows_ok t"
  obtains (one) a where "pg_UpsertAccount t a = Inr t'" "key_ok a"
    | (two) a b t1 where "pg_UpsertAccount t a = Inr t1" "pg_UpsertAccount t1 b = Inr t'" "key_ok a" "key_ok b"
    | (rotate) a t1 k k' where "pg_UpsertAccount t a = Inr t1" "pg_UpdatePubKey t1 k k' = Inr t'" "key_ok a"
        "length k' = PubKeyLen"
proof -
  note key = row_key [OF rows_pubkey [OF assms(2)]] row_key [OF rows_okD [OF assms(2)]]
  consider "applyGenesis PgOps t tx = Inr t'" | "applyTransfer PgOps t tx = Inr t'"
    | "applyRotateKey PgOps t tx = Inr t'" | "applyReclaimInvalid PgOps t tx = Inr t'"
    using assms(1) by (auto simp: dispatch_def split: if_splits)
  then show thesis
  proof cases
    case 1
    then show thesis
      by (auto simp: applyGenesis_def result_simps treasury_account_def key_ok_def intro!: one)
  next
    case 2
    then obtain p a t1 where p: "pg_GetAccountByPubKey t (tp_From p) = Inr (Some a)"
      "pg_UpsertAccount t (a\<lparr>Balance := i64 (Balance a - tp_Amount p), Nonce := tp_Nonce p\<rparr>) = Inr t1"
      "pg_UpsertAccount t1 ((recipient p (map_of (accounts t) (tp_ToDiscourseID p)))\<lparr>Balance :=
         i64 (Balance (recipient p (map_of (accounts t) (tp_ToDiscourseID p))) + tp_Amount p)\<rparr>) = Inr t'"
      by (auto simp: applyTransfer_def result_simps Let_def pg_GetAccountByDiscourseID_def)
    moreover have "key_ok (recipient p (map_of (accounts t) (tp_ToDiscourseID p)))"
      by (cases "map_of (accounts t) (tp_ToDiscourseID p)")
        (auto simp: recipient_def pending_account_def key_ok_def intro: key [unfolded key_ok_def])
    ultimately show thesis using key(1) [OF p(1)] by (intro two [OF p(2,3)]) (simp_all add: key_ok_def)
  next
    case 3
    then obtain p :: RotateKeyPayload and a t1 where p: "pg_GetAccountByPubKey t (rk_OldPubKey p) = Inr (Some a)" "length (rk_NewPubKey p) = PubKeyLen"
      "pg_UpsertAccount t (a\<lparr>Nonce := i64 (Nonce a + 1)\<rparr>) = Inr t1" "pg_UpdatePubKey t1 (rk_OldPubKey p) (rk_NewPubKey p) = Inr t'"
      by (auto simp: applyRotateKey_def result_simps)
    then show thesis using key(1) [OF p(1)] by (intro rotate [OF p(3,4)]) (simp_all add: key_ok_def)
  next
    case 4
    then obtain p :: ReclaimInvalidPayload and a b t1 where p: "pg_GetAccountByPubKey t (ri_Admin p) = Inr (Some a)"
      "map_of (accounts t) (ri_FromDiscourseID p) = Some b"
      "pg_UpsertAccount t (b\<lparr>Balance := i64 (Balance b - ri_Amount p)\<rparr>) = Inr t1"
      "pg_UpsertAccount t1 (a\<lparr>Balance := i64 (Balance a + ri_Amount p), Nonce := ri_Nonce p\<rparr>) = Inr t'"
      by (auto simp: applyReclaimInvalid_def result_simps Let_def pg_GetAccountByDiscourseID_def)
    then show thesis using key(1) [OF p(1)] key(2) [OF p(2)] by (intro two [OF p(3,4)]) (simp_all add: key_ok_def)
  qed
qed

lemma Apply_rows_ok:
  assumes "rows_ok db" "Apply ed PgOps db tx = (tx', Inr db')"
  shows "rows_ok db'"
proof -
  obtain t1 t2 where t: "dispatch PgOps db tx' = Inr t1" "pg_InsertTx t1 tx' = Inr t2" "accounts db' = accounts t2"
    using assms(2)
    by (auto simp: Apply_def apply_in_def apply_linked_def pg_Begin_def pg_LockLedger_def pg_Commit_def Let_def result_simps
        checkSupply_def split: if_splits sum.splits prod.splits)
  note up = pg_Upsert_rows [folded key_ok_def]
  from t(1) assms(1) have "rows_ok t1"
  proof (cases rule: dispatch_writes)
    case (one a)
    from up [OF assms(1) this] show ?thesis .
  next
    case (two a b t')
    from up [OF up [OF assms(1) two(1,3)] two(2,4)] show ?thesis .
  next
    case (rotate a t' k k')
    from pg_UpdatePubKey_rows [OF up [OF assms(1) rotate(1,3)] rotate(2,4)] show ?thesis .
  qed
  with t(2,3) show ?thesis by (auto simp: rows_ok_def elim!: pg_InsertTx_ok)
qed


section \<open>What is logged\<close>

text \<open>A logged transaction is of one of the four types, with a payload that decodes to what its type demands.\<close>

definition logged_ok :: "Tx \<Rightarrow> bool" where
  "logged_ok tx \<longleftrightarrow>
     (if Type tx = TxGenesis then (case genesis_payload (Payload tx) of Some p \<Rightarrow> gp_Amount p = SupplyCap | None \<Rightarrow> False)
      else if Type tx = TxTransfer then (case transfer_payload (Payload tx) of Some p \<Rightarrow> 0 < tp_Amount p | None \<Rightarrow> False)
      else if Type tx = TxReclaimInvalid
        then (case reclaim_payload (Payload tx) of Some p \<Rightarrow> ri_FromDiscourseID p < 0 \<and> 0 < ri_Amount p | None \<Rightarrow> False)
      else Type tx = TxRotateKey)"

lemma step_logged: "ledger_step ed L tx L' \<Longrightarrow> logged_ok tx"
  by (cases rule: ledger_step.cases) (auto simp: logged_ok_def TreasuryDscID_def)

section \<open>The invariant of the server\<close>

definition db_ok :: "(bytes \<Rightarrow> bytes \<Rightarrow> bytes \<Rightarrow> bool) \<Rightarrow> nat \<Rightarrow> pgdb \<Rightarrow> bool" where
  "db_ok ed n db \<longleftrightarrow>
     pg_ok db \<and> ledger_ok ed (pg_view db) \<and> nonces_ok (pg_view db) \<and> rows_ok db \<and>
     list_all logged_ok (log (pg_view db)) \<and> length (transactions db) \<le> n"

lemma db_ok_same:
  "db_ok ed n x \<Longrightarrow> accounts y = accounts x \<Longrightarrow> transactions y = transactions x \<Longrightarrow> db_ok ed (Suc n) y"
  by (simp add: db_ok_def pg_ok_def pg_view_def rows_ok_def)

lemma db_ok_room: "db_ok ed n db \<Longrightarrow> int n < 2 ^ 62 \<Longrightarrow> room 0 (pg_view db)"
  by (simp add: db_ok_def room_def)

lemma Apply_db_ok:
  assumes "db_ok ed n db" "int n < 2 ^ 62" "Apply ed PgOps db tx = (tx', Inr db')"
  shows "db_ok ed (Suc n) db'"
proof -
  have ok: "pg_ok db" "ledger_ok ed (pg_view db)" "nonces_ok (pg_view db)" "rows_ok db" "list_all logged_ok (log (pg_view db))"
    "length (transactions db) \<le> n"
    using assms(1) by (simp_all add: db_ok_def)
  note room = db_ok_room [OF assms(1,2)]
  have st: "pg_ok db'" "ledger_step ed (pg_view db) tx' (pg_view db')" "ledger_ok ed (pg_view db')"
    using pg.Apply_refines [OF ok(1,2) room assms(3)] by simp_all
  have log: "log (pg_view db') = log (pg_view db) @ [tx']" using step_log [OF st(2)] by simp
  have "length (transactions db') = Suc (length (transactions db))" using arg_cong [OF log, of length] by simp
  moreover have "list_all logged_ok (log (pg_view db'))" unfolding log using ok(5) step_logged [OF st(2)] by simp
  moreover note st ok(6) step_nonces_ok(1) [OF st(2) ok(3) room] Apply_rows_ok [OF ok(4) assms(3)]
  ultimately show ?thesis by (simp add: db_ok_def del: pg_view_simps)
qed

lemma submitTx_cases:
  assumes "submitTx ed S s rq = (r, s')"
  obtains (same) "s' = s" | (applied) tx tx' where "Apply ed S s tx = (tx', Inr s')"
  using assms
  by (auto simp: submitTx_def submit_parsed_def split: option.splits sum.splits prod.splits)

lemma register_cases:
  assumes "register S sv now s rq = (r, s')"
  obtains (same) "s' = s" | (as) n name pub where "register_as S s n name pub = (r, s')" "length pub = PubKeyLen"
  using assms by (auto simp: register_def split: sum.splits option.splits if_splits prod.splits)

lemma register_write_rows:
  assumes "rows_ok t" "register_write PgOps t ex n name pub = (r, Some t')" "length pub = PubKeyLen"
  shows "rows_ok t'"
  using assms pg_UpdateUsername_rows [OF assms(1)] pg_Upsert_rows [OF assms(1)]
  by (auto simp: register_write_def Let_def split: option.splits sum.splits if_splits)

lemma register_as_rows:
  assumes "rows_ok db" "register_as PgOps db n name pub = (r, db')" "length pub = PubKeyLen"
  shows "rows_ok db'"
proof -
  let ?ex = "map_of (accounts db) n"
  obtain r' w where w: "register_write PgOps db ?ex n name pub = (r', w)" by fastforce
  with assms(2) have "commit_response PgOps db (r', w) = (r, db')"
    by (simp add: register_as_def pg_Begin_def pg_GetAccountByDiscourseID_def)
  with w assms(1,3) register_write_rows [of db ?ex n name pub r'] show ?thesis
    by (cases w) (auto simp: commit_response_def pg_Commit_def rows_ok_def)
qed

lemma register_db_ok:
  assumes "db_ok ed n db" "register PgOps sv now db rq = (r, db')"
  shows "db_ok ed (Suc n) db'"
  using assms(2)
proof (cases rule: register_cases)
  case same
  with db_ok_same [OF assms(1)] show ?thesis by simp
next
  case (as k name pub)
  have ok: "pg_ok db" "ledger_ok ed (pg_view db)" "nonces_ok (pg_view db)" "rows_ok db" "length (transactions db) \<le> n"
    "list_all logged_ok (log (pg_view db))"
    using assms(1) by (simp_all add: db_ok_def)
  have "pub \<noteq> []" using as(2) by (auto simp: PubKeyLen_def)
  note law = ledger_store.register_as_law [OF pg.ledger_store_axioms ok(1) as(1) this]
  show ?thesis
  proof (cases "status r = 500")
    case True
    with law db_ok_same [OF assms(1)] show ?thesis by simp
  next
    case False
    with law have "pg_ok db'" and reg: "registered (pg_view db) k name pub (status r) (pg_view db')" by simp_all
    moreover have "log (pg_view db') = log (pg_view db)" using reg by (simp add: registered_def)
    moreover from arg_cong [OF this, of length] have "length (transactions db') = length (transactions db)" by simp
    moreover note registered_ok [OF reg ok(2)] register_as_rows [OF ok(4) as]
    ultimately show ?thesis using ok by (simp add: db_ok_def nonces_ok_def del: pg_view_simps)
  qed
qed

lemma updateRewardConfig_tables:
  assumes "updateRewardConfig db rq = (r, db')"
  shows "accounts db' = accounts db" "transactions db' = transactions db" "reward_events db' = reward_events db"
  using assms by (auto simp: updateRewardConfig_def Let_def split: option.splits if_splits)

lemma PayRewardOnce_db_ok:
  assumes "db_ok ed n db" "int n < 2 ^ 62" "PayRewardOnce ed sign s now db ty key to name source = (out, db')"
  shows "db_ok ed (Suc n) db'"
proof (cases "\<exists>res. out = Inr res \<and> pr_Paid res")
  case False
  with PayRewardOnce_unpaid [OF assms(3)] db_ok_same [OF assms(1)] show ?thesis by auto
next
  case True
  then obtain res where p: "PayRewardOnce ed sign s now db ty key to name source = (Inr res, db')" "pr_Paid res"
    using assms(3) by blast
  obtain db1 tx db2 where parts: "TryReserveRewardEvent now db ty key = (True, db1)"
    "signAndApplyTransferOnce ed sign PgOps s db1 to name (pr_Amount res) source = Inr (tx, db2)"
    "CompleteRewardEvent now db2 ty key (TxHash tx) = Inr db'"
    by (rule payment_parts [OF p])
  have "db_ok ed n db1"
    using assms(1) TryReserve_tables [OF parts(1)] by (simp add: db_ok_def rows_ok_def del: pg_view_simps)
  moreover obtain tx0 where "Apply ed PgOps db1 tx0 = (tx, Inr db2)"
    using once_Inr [OF parts(2)] by blast
  ultimately have "db_ok ed (Suc n) db2" using Apply_db_ok assms(2) by blast
  with Complete_tables(1,2) [OF parts(3)] show ?thesis
    by (simp add: db_ok_def pg_ok_def pg_view_def rows_ok_def)
qed

lemma Webhook_cases:
  assumes "Webhook ed sign s now db rq = (r, db')"
  obtains (same) "db' = db" | (pays) ty key to name out where "PayRewardOnce ed sign s now db ty key to name ty = (out, db')"
proof -
  have pay_once: "\<exists>out. PayRewardOnce ed sign s now db ty key to name ty = (out, db')"
    if "payOnce ed sign s now db ty key to name = (r, db')" for ty key to name
    using that by (auto simp: payOnce_def split: prod.splits sum.splits option.splits)
  consider "db' = db" | (pay) ty key to name where "payOnce ed sign s now db ty key to name = (r, db')"
    using assms
    by (auto simp: Webhook_def Let_def handleUserEvent_def handlePostEvent_def split: if_splits option.splits)
  then show thesis
  proof cases
    case pay
    from pay_once [OF this] that(2) show thesis by blast
  qed (rule that(1))
qed

lemma Webhook_db_ok:
  assumes "db_ok ed n db" "int n < 2 ^ 62" "Webhook ed sign s now db rq = (r, db')"
  shows "db_ok ed (Suc n) db'"
  using assms(3)
proof (cases rule: Webhook_cases)
  case same
  with db_ok_same [OF assms(1)] show ?thesis by simp
next
  case pays
  then show ?thesis by (rule PayRewardOnce_db_ok [OF assms(1,2)])
qed

lemma served_ok:
  assumes "served ed sign rs sv db n db'" "db_ok ed m db" "int (m + n) < 2 ^ 62"
  shows "db_ok ed (m + n) db'"
  using assms(1,3)
proof induction
  case (submitted n x rq r y)
  then have ok: "db_ok ed (m + n) x" "int (m + n) < 2 ^ 62" by simp_all
  from submitted(2) show ?case
    by (cases rule: submitTx_cases) (auto intro: Apply_db_ok [OF ok] db_ok_same [OF ok(1)])
next
  case (notified n x now rq r y)
  then show ?case using Webhook_db_ok [of ed "m + n" x] by simp
next
  case (applied n x tx tx' y)
  then show ?case using Apply_db_ok [of ed "m + n" x] by simp
next
  case (configured n x rq r y)
  then have "db_ok ed (m + n) x" by simp
  from db_ok_same [OF this] updateRewardConfig_tables [OF configured(2)] show ?case by simp
next
  case (registered n x now rq r y)
  then show ?case using register_db_ok [of ed "m + n" x] by simp
next
  case (paid n x s now ty key to name source out y)
  then show ?case using PayRewardOnce_db_ok [of ed "m + n" x] by simp
qed (use assms(2) in simp)

text \<open>The log only grows.\<close>

lemma Apply_appends:
  assumes "Apply ed PgOps db tx = (tx', Inr db')"
  obtains row where "transactions db' = transactions db @ [row]"
proof -
  obtain t1 t2 where "dispatch PgOps db tx' = Inr t1" "pg_InsertTx t1 tx' = Inr t2" "transactions db' = transactions t2"
    using assms
    by (auto simp: Apply_def apply_in_def apply_linked_def pg_Begin_def pg_LockLedger_def pg_Commit_def Let_def result_simps
        checkSupply_def split: if_splits sum.splits prod.splits)
  with dispatch_rows [of db tx' t1] show thesis by (auto intro: that elim!: pg_InsertTx_ok)
qed

lemma register_appends:
  assumes "register PgOps sv now db rq = (r, db')"
  shows "transactions db' = transactions db"
  using assms
proof (cases rule: register_cases)
  case (as n name pub)
  obtain r' w where w: "register_write PgOps db (map_of (accounts db) n) n name pub = (r', w)" by fastforce
  with as(1) have "commit_response PgOps db (r', w) = (r, db')"
    by (simp add: register_as_def pg_Begin_def pg_GetAccountByDiscourseID_def)
  moreover have "transactions t = transactions db" if "w = Some t" for t
    using w that
    by (auto simp: register_write_def Let_def pg_UpdateUsernameAndPubKey_def dest: pg_rows
        split: option.splits sum.splits if_splits)
  ultimately show ?thesis by (auto simp: commit_response_def pg_Commit_def split: option.splits)
qed simp

lemma PayRewardOnce_appends:
  assumes "PayRewardOnce ed sign s now db ty key to name source = (out, db')"
  shows "\<exists>more. transactions db' = transactions db @ more"
proof (cases "\<exists>res. out = Inr res \<and> pr_Paid res")
  case True
  then obtain res where p: "PayRewardOnce ed sign s now db ty key to name source = (Inr res, db')" "pr_Paid res"
    using assms by blast
  obtain db1 tx db2 where parts: "TryReserveRewardEvent now db ty key = (True, db1)"
    "signAndApplyTransferOnce ed sign PgOps s db1 to name (pr_Amount res) source = Inr (tx, db2)"
    "CompleteRewardEvent now db2 ty key (TxHash tx) = Inr db'"
    by (rule payment_parts [OF p])
  obtain tx0 where "Apply ed PgOps db1 tx0 = (tx, Inr db2)" using once_Inr [OF parts(2)] by blast
  then obtain row where "transactions db2 = transactions db1 @ [row]" by (rule Apply_appends)
  with TryReserve_tables(2) [OF parts(1)] Complete_tables(2) [OF parts(3)] show ?thesis by simp
qed (use PayRewardOnce_unpaid [OF assms] in auto)

lemma served_appends:
  "served ed sign rs sv db n db' \<Longrightarrow> \<exists>more. transactions db' = transactions db @ more"
proof (induction rule: served.induct)
  case (submitted n x rq r y)
  from submitted(2) show ?case
  proof (cases rule: submitTx_cases)
    case (applied tx tx')
    then obtain row where "transactions y = transactions x @ [row]" by (rule Apply_appends)
    with submitted show ?thesis by auto
  qed (use submitted in simp)
next
  case (registered n x now rq r y)
  with register_appends show ?case by metis
next
  case (notified n x now rq r y)
  from notified(2) show ?case
  proof (cases rule: Webhook_cases)
    case (pays ty key to name out)
    from PayRewardOnce_appends [OF this] notified(3) show ?thesis by auto
  qed (use notified in simp)
next
  case (paid n x s now ty key to name source out y)
  from PayRewardOnce_appends [OF paid(2)] paid(3) show ?case by auto
next
  case (configured n x rq r y)
  with updateRewardConfig_tables(2) [OF configured(2)] show ?case by simp
next
  case (applied n x tx tx' y)
  from applied(2) obtain row where "transactions y = transactions x @ [row]" by (rule Apply_appends)
  with applied show ?case by auto
qed simp

lemma db_ok_empty: "db_ok ed 0 pg_empty"
  by (simp add: db_ok_def nonces_ok_def nonce_of_def val_at_def rows_ok_def pg_empty_accounts)
    (simp add: pg_empty_def empty_ledger_def)

lemma served_empty: "served ed sign rs sv pg_empty n db \<Longrightarrow> int n < 2 ^ 62 \<Longrightarrow> db_ok ed n db"
  using served_ok [OF _ db_ok_empty, of ed sign rs sv n db] by simp

text \<open>
  Claim C1. The server keeps the money: from the empty database on, after any sequence of API
  requests, registrations, webhook deliveries, reward configurations, payments and commands of the
  operator, valid or not, no balance is negative, and the balances add up to nothing before the genesis and to exactly
  the supply cap after it; and the log is a hash chain of verified transactions.
\<close>

theorem server_keeps_ledger:
  assumes "served ed sign rs sv pg_empty n db" "int n < 2 ^ 62"
  shows "list_all (\<lambda>(d, a). 0 \<le> Balance a) (accounts db) \<and>
    sum_on Balance (accounts db) = (if transactions db = [] then 0 else SupplyCap) \<and>
    chain_from ed 0 ZeroHash (log (pg_view db))"
proof -
  have "db_ok ed n db" by (rule served_empty [OF assms])
  then show ?thesis
    by (auto simp: db_ok_def ledger_ok_def supply_ok_def sum_on_eq_sum_map pg_okD list_all_iff)
qed

text \<open>The sample run: the genesis, by the operator's command.\<close>

lemma sample_served:
  obtains db where "served toy_ed toy_sign sample_rewards sv pg_empty 1 db" "transactions db \<noteq> []"
proof -
  obtain tx' db where g: "Apply toy_ed PgOps pg_empty genesis_tx = (tx', Inr db)"
    using genesis_Apply_empty by blast
  have "served toy_ed toy_sign sample_rewards sv pg_empty 1 db"
    using applied [OF started g] by simp
  moreover have "transactions db \<noteq> []" using Apply_hashes(3) [OF g] by auto
  ultimately show thesis using that by blast
qed

theorem server_keeps_ledger_witness:
  "\<exists>db. served toy_ed toy_sign sample_rewards \<lparr>sv_DC = None, sv_DevHeaderAuthToken = []\<rparr> pg_empty 1 db \<and>
     sum_on Balance (accounts db) = SupplyCap"
  by (rule sample_served) (use server_keeps_ledger in force)

definition typed_tx :: "Tx \<Rightarrow> bool" where
  "typed_tx tx \<longleftrightarrow> length (Signer tx) = PubKeyLen \<and> length (Sig tx) = SigLen \<and>
     length (PrevHash tx) = HashSize \<and> length (TxHash tx) = HashSize"

lemma chain_typed: "chain_from ed i prev ts \<Longrightarrow> length prev = HashSize \<Longrightarrow> list_all typed_tx ts"
  by (induction ed i prev ts rule: chain_from.induct) (auto simp: typed_tx_def dest: VerifySigD)

text \<open>
  Claim C22. What the tables hold is well-typed in every state of the server: an account stands
  under its own id, with a valid text as name and either no key or one of 32 bytes that no other
  account has; a logged transaction has a signer of 32 bytes, a signature of 64, and hashes of
  32 bytes.
\<close>

theorem server_tables_typed:
  assumes "served ed sign rs sv pg_empty n db" "int n < 2 ^ 62"
  shows "distinct (map fst (accounts db)) \<and>
    list_all (\<lambda>(d, a). DiscourseID a = d \<and> row_ok a \<and> key_free (accounts db) d (Pubkey a)) (accounts db) \<and>
    list_all (\<lambda>tx. length (Signer tx) = PubKeyLen \<and> length (Sig tx) = SigLen \<and>
      length (PrevHash tx) = HashSize \<and> length (TxHash tx) = HashSize) (transactions db)"
proof -
  have ok: "db_ok ed n db" by (rule served_empty [OF assms])
  then have pg: "pg_ok db" "rows_ok db" "chain_from ed 0 ZeroHash (log (pg_view db))"
    by (simp_all add: db_ok_def ledger_ok_def)
  have "DiscourseID a = d \<and> row_ok a \<and> key_free (accounts db) d (Pubkey a)" if "(d, a) \<in> set (accounts db)" for d a
  proof -
    have "map_of (accounts db) d = Some a" using that pg_okD(1) [OF pg(1)] by simp
    with pg_okD(4) [OF pg(1)] rows_okD [OF pg(2)] pg_own_key_free [OF pg(1), of "Pubkey a" d] show ?thesis by auto
  qed
  moreover have "list_all typed_tx (map Tx.truncate (transactions db))"
    using chain_typed [OF pg(3)] by simp
  ultimately show ?thesis
    using pg_okD(1) [OF pg(1)] by (auto simp: list_all_iff typed_tx_def Tx.defs)
qed

theorem server_tables_typed_witness:
  "\<exists>db. served toy_ed toy_sign sample_rewards \<lparr>sv_DC = None, sv_DevHeaderAuthToken = []\<rparr> pg_empty 1 db \<and>
     transactions db \<noteq> [] \<and> list_all (\<lambda>tx. length (Signer tx) = 32) (transactions db)"
proof (rule sample_served)
  fix db
  assume db: "served toy_ed toy_sign sample_rewards \<lparr>sv_DC = None, sv_DevHeaderAuthToken = []\<rparr> pg_empty 1 db" "transactions db \<noteq> []"
  from server_tables_typed [OF this(1)] db show ?thesis by (auto simp: list_all_iff PubKeyLen_def)
qed

text \<open>
  Claim C23. No number of the ledger wraps: in every state of the server a balance is at most the
  supply cap, a nonce is not negative and at most the number of logged transactions, and the
  leaf indexes count the rows of the log from 0; all of them are far inside \<open>int64\<close>.
\<close>

theorem server_numbers_bounded:
  assumes "served ed sign rs sv pg_empty n db" "int n < 2 ^ 62"
  shows "list_all (\<lambda>(d, a). 0 \<le> Balance a \<and> Balance a \<le> SupplyCap \<and>
      0 \<le> Nonce a \<and> Nonce a \<le> int (length (transactions db))) (accounts db) \<and>
    map LeafIndex (transactions db) = map int [0..<length (transactions db)] \<and>
    length (transactions db) \<le> n"
proof -
  have ok: "db_ok ed n db" by (rule served_empty [OF assms])
  then have pg: "pg_ok db" "wf_accts (pg_view db)" "supply_ok (pg_view db)" "nonces_ok (pg_view db)"
    "chain_from ed 0 ZeroHash (log (pg_view db))"
    by (simp_all add: db_ok_def ledger_ok_def del: pg_view_simps)
  have "0 \<le> Balance a \<and> Balance a \<le> SupplyCap \<and> 0 \<le> Nonce a \<and> Nonce a \<le> int (length (transactions db))"
    if "(d, a) \<in> set (accounts db)" for d a
  proof -
    have "map_of (accounts db) d = Some a" using that pg_okD(1) [OF pg(1)] by simp
    with balance_le_cap [OF pg(2,3), of d a] pg(4) show ?thesis
      by (auto simp: nonces_ok_def nonce_of_def val_at_def dest!: spec [of _ d])
  qed
  moreover have "indexed (pg_view db)" by (rule chain_indexed [OF pg(5) db_ok_room [OF ok assms(2)]])
  then have "map LeafIndex (transactions db) = map int [0..<length (transactions db)]"
    by (intro nth_equalityI) (simp_all add: indexed_def)
  ultimately show ?thesis using ok by (auto simp: db_ok_def list_all_iff)
qed

theorem server_numbers_bounded_witness:
  "\<exists>db. served toy_ed toy_sign sample_rewards \<lparr>sv_DC = None, sv_DevHeaderAuthToken = []\<rparr> pg_empty 1 db \<and>
     transactions db \<noteq> [] \<and> length (transactions db) \<le> 1"
  by (rule sample_served) (use server_numbers_bounded in force)


section \<open>A reward is paid once\<close>

lemma register_events:
  assumes "register PgOps sv now db rq = (r, db')"
  shows "reward_events db' = reward_events db"
  using assms
proof (cases rule: register_cases)
  case (as n name pub)
  obtain r' w where w: "register_write PgOps db (map_of (accounts db) n) n name pub = (r', w)" by fastforce
  with as(1) have "commit_response PgOps db (r', w) = (r, db')"
    by (simp add: register_as_def pg_Begin_def pg_GetAccountByDiscourseID_def)
  then show ?thesis by (auto simp: commit_response_def pg_Commit_def split: option.splits)
qed simp

lemma event_hash_events: "reward_events y = reward_events x \<Longrightarrow> event_hash y ty key = event_hash x ty key"
  by (simp add: event_hash_def)

lemma served_kept:
  assumes "served ed sign rs sv db n db'" "event_hash db ty key = Some h"
  shows "event_hash db' ty key = Some h"
  using assms(1)
proof induction
  case started
  show ?case by (rule assms(2))
next
  case (submitted n x rq r y)
  from submitted(2,3) event_hash_kept(4) show ?case by (cases rule: submitTx_cases) blast+
next
  case (registered n x now rq r y)
  with event_hash_events [OF register_events [OF registered(2)]] show ?case by simp
next
  case (notified n x now rq r y)
  from notified(2,3) PayRewardOnce_kept show ?case by (cases rule: Webhook_cases) blast+
next
  case (paid n x s now ty key to name source out y)
  with PayRewardOnce_kept show ?case by blast
next
  case (configured n x rq r y)
  with event_hash_events [OF updateRewardConfig_tables(3) [OF configured(2)]] show ?case by simp
next
  case (applied n x tx tx' y)
  with event_hash_kept(4) show ?case by blast
qed

text \<open>
  Claim C12. Once and for all: when an event is recorded as paid, it stays recorded with that
  payment whatever the server is asked afterwards, and no later attempt pays it again, at any
  time, to anybody, or by any service.
\<close>

theorem reward_once_for_all:
  assumes "served ed sign rs sv db n db'" "event_hash db ty key = Some h"
  shows "event_hash db' ty key = Some h \<and>
    (\<exists>reason. PayRewardOnce ed' sign' rs' now db' ty key to username source = (Inr (not_paid reason), db'))"
  using served_kept [OF assms] PayRewardOnce_recorded by blast

theorem reward_once_for_all_witness:
  "\<exists>db h reason. event_hash db ''signup_bonus'' ''user:7'' = Some h \<and>
     PayRewardOnce toy_ed toy_sign sample_rewards 1000000 db ''signup_bonus'' ''user:7'' 7 ''bob'' ''signup_bonus'' =
       (Inr (not_paid reason), db)"
proof -
  obtain res db where p: "PayRewardOnce toy_ed toy_sign sample_rewards 0 sample_db ''signup_bonus'' ''user:7'' 7 ''bob'' ''signup_bonus'' =
      (Inr res, db)" "pr_Paid res"
    using sample_payment [of 0] by (auto split: prod.splits sum.splits)
  obtain tx :: Tx and db2 where "CompleteRewardEvent 0 db2 ''signup_bonus'' ''user:7'' (TxHash tx) = Inr db"
    by (rule payment_parts [OF p]) blast
  from Complete_tables(3) [OF this] have h: "event_hash db ''signup_bonus'' ''user:7'' = Some (TxHash tx)" .
  from reward_once_for_all [OF started h] h show ?thesis by blast
qed

section \<open>Registering while a payment arrives\<close>

text \<open>
  Claim C34. A registration does not lock the ledger. If the look-up finds no account, and a payment
  that creates the account is committed before the registration writes, then the registration is
  answered 201 and stores the account with balance 0: the payment is lost, and the total of all
  balances is short by it.
\<close>

theorem register_race:
  assumes "pg_ok db0" "GetAccountByDiscourseID PgOps db0 n = Inr existing" "map_of (accounts db0) n = None"
    and "Apply ed PgOps db0 tx = (tx', Inr db)" "pg_ok db" "map_of (accounts db) n = Some b"
    and "text_ok name" "pub \<noteq> []" "key_free (accounts db) n (Some pub)"
  shows "case commit_response PgOps db (register_write PgOps db existing n name pub) of (r, db') \<Rightarrow>
    status r = 201 \<and> map_option Balance (map_of (accounts db') n) = Some 0 \<and>
    sum_on Balance (accounts db') = sum_on Balance (accounts db) - Balance b"
proof -
  have ex: "existing = None" using assms(2,3) by (simp add: pg_GetAccountByDiscourseID_def)
  let ?a = "\<lparr>DiscourseID = n, Pubkey = Some pub, Username = name, Nonce = 0, Balance = 0\<rparr>"
  let ?new = "upsert_row (Some b) ?a"
  let ?t = "db\<lparr>accounts := AList.update n ?new (accounts db)\<rparr>"
  have new: "Pubkey ?new = Some pub" "Balance ?new = 0" by (simp_all add: upsert_row_def)
  have up: "pg_UpsertAccount db ?a = Inr ?t"
    using assms(6-9) new by (simp add: pg_UpsertAccount_def)
  have distinct: "distinct (map fst (accounts db))" by (rule pg_okD(1) [OF assms(5)])
  have "sum_on Balance (accounts ?t) = sum_on Balance (accounts db) - Balance b"
    using distinct assms(6) new(2)
    by (simp add: sum_on_eq_sum_map distinct_update update_conv' sum_map_update finite_dom_map_of val_at_def)
  then show ?thesis
    using up new(2) by (simp add: ex register_write_def commit_response_def pg_Commit_def update_conv' Let_def)
qed

theorem register_race_witness:
  "\<exists>db r db'. Apply toy_ed PgOps sample_db transfer_tx = (sample_tx', Inr db) \<and>
     sum_on Balance (accounts db) = SupplyCap \<and>
     commit_response PgOps db (register_write PgOps db None 7 ''bob'' (replicate 32 (byte 1))) = (r, db') \<and>
     status r = 201 \<and> sum_on Balance (accounts db') = SupplyCap - 5"
proof -
  let ?db = "sample_db' sample_tx'"
  have up: "pg_ok ?db"
    using pg_Apply_step [OF sample_db_ok(1) sample_db_facts(1,2) sample_Apply] by blast
  have facts: "map_of (accounts sample_db) 7 = None" "sum_on Balance (accounts ?db) = SupplyCap"
    "map_of (accounts ?db) 7 = Some \<lparr>DiscourseID = 7, Pubkey = None, Username = ''(pending)'', Nonce = 0, Balance = 5\<rparr>"
    by (simp_all add: sample_db_rows sample_db'_def sum_on_def sample_account_def)
  have "key_free (accounts ?db) 7 (Some (replicate 32 (byte 1)))"
    by (simp add: key_free_def sample_db'_def sample_account_def) code_simp
  with register_race [OF sample_db_ok(1) _ facts(1) sample_Apply up facts(3), of None "''bob''" "replicate 32 (byte 1)"]
    sample_Apply facts
  show ?thesis by (auto simp: pg_GetAccountByDiscourseID_def sample_reward_facts split: prod.splits)
qed

end
