(* ===== verification/VerifyComplete.thy ===== *)
theory VerifyComplete
  imports VerifyProperties ServerProperties "HOL-Library.List_Lexorder" "HOL-Library.Char_ord"
begin

text \<open>
  The audit tool and the server together: what the handlers of the log endpoints answer for the
  database of a server, at whatever times and with whatever caches, passes the audit.
\<close>

section \<open>The server as the tool sees it\<close>

text \<open>
  A response on the wire: the encoder writes the members of a Go map in the order of their keys,
  and a line break at the end. (The tool does not read the body of an error, which is left out.)
\<close>

fun go_map :: "response \<Rightarrow> response" where
  "go_map (Reply c (JObj ms)) = Reply c (JObj (sort_key fst ms))"
| "go_map r = r"

fun wire :: "response \<Rightarrow> int \<times> bytes" where
  "wire (Reply c v) = (c, json_print True v @ [CHR 0x0A])"
| "wire (Fail c e) = (c, [])"

text \<open>The database and the cache may be others at every request.\<close>

fun log_server ::
  "(bytes \<Rightarrow> bytes \<Rightarrow> bytes \<Rightarrow> bool) \<Rightarrow> (bytes \<Rightarrow> bytes \<Rightarrow> bytes) \<Rightarrow> (nat \<Rightarrow> LogService) \<Rightarrow> (nat \<Rightarrow> pgdb) \<Rightarrow> int \<Rightarrow>
   checkpoints \<Rightarrow> web" where
  "log_server ed sign svc db ts cps n AskSTH = Some (wire (fst (logSTH ed sign (svc n) (db n) ts cps)))"
| "log_server ed sign svc db ts cps n (AskLeaves start to) =
     Some (wire (go_map (logLeaves (db n)
       (sample_request [(''from'', format_int start), (''to'', format_int to)]))))"
| "log_server ed sign svc db ts cps n (AskInclusion idx sz) =
     Some (wire (go_map (fst (logInclusion (svc n) (db n)
       (sample_request [(''leaf_index'', format_int idx), (''tree_size'', format_int sz)])))))"
| "log_server ed sign svc db ts cps n (AskConsistency m k) =
     Some (wire (go_map (fst (logConsistency (svc n) (db n)
       (sample_request [(''first'', format_int m), (''second'', format_int k)])))))"

section \<open>Reading what the server writes\<close>

lemma sort_members:
  "sort_key fst [(''from'', a), (''to'', b), (''count'', c), (''leaves'', d)] =
     [(''count'', c), (''from'', a), (''leaves'', d), (''to'', b)]"
  "sort_key fst [(''leaf_index'', a), (''tree_size'', b), (''leaf_hash_hex'', c), (''audit_path'', d)] =
     [(''audit_path'', d), (''leaf_hash_hex'', c), (''leaf_index'', a), (''tree_size'', b)]"
  "sort_key fst [(''first'', a), (''second'', b), (''proof'', c)] = [(''first'', a), (''proof'', c), (''second'', b)]"
  by (simp_all add: less_eq_char_def)

lemma page_keys [simp]:
  "field_is ''count'' ''count''" "\<not> field_is ''count'' ''from''" "\<not> field_is ''count'' ''leaves''" "\<not> field_is ''count'' ''to''"
  "\<not> field_is ''leaves'' ''from''" "field_is ''leaves'' ''leaves''" "\<not> field_is ''leaves'' ''to''"
  "field_is ''leaf_hash_hex'' ''leaf_hash_hex''" "\<not> field_is ''leaf_hash_hex'' ''audit_path''"
  "\<not> field_is ''leaf_hash_hex'' ''leaf_index''" "\<not> field_is ''leaf_hash_hex'' ''tree_size''"
  "field_is ''audit_path'' ''audit_path''" "\<not> field_is ''audit_path'' ''leaf_index''" "\<not> field_is ''audit_path'' ''tree_size''"
  "field_is ''proof'' ''proof''" "\<not> field_is ''proof'' ''first''" "\<not> field_is ''proof'' ''second''"
  by code_simp+

lemma sth_keys [simp]:
  "field_is ''tree_size'' ''tree_size''" "\<not> field_is ''tree_size'' ''root_hash_hex''" "\<not> field_is ''tree_size'' ''timestamp_ms''"
  "\<not> field_is ''tree_size'' ''admin_sig_hex''" "\<not> field_is ''tree_size'' ''admin_pubkey_hex''"
  "field_is ''root_hash_hex'' ''root_hash_hex''" "\<not> field_is ''root_hash_hex'' ''timestamp_ms''"
  "\<not> field_is ''root_hash_hex'' ''admin_sig_hex''" "\<not> field_is ''root_hash_hex'' ''admin_pubkey_hex''"
  "field_is ''timestamp_ms'' ''timestamp_ms''" "\<not> field_is ''timestamp_ms'' ''admin_sig_hex''"
  "\<not> field_is ''timestamp_ms'' ''admin_pubkey_hex''"
  "field_is ''admin_sig_hex'' ''admin_sig_hex''" "\<not> field_is ''admin_sig_hex'' ''admin_pubkey_hex''"
  "field_is ''admin_pubkey_hex'' ''admin_pubkey_hex''"
  by code_simp+

lemma leaf_keys [simp]:
  "field_is ''leaf_index'' ''leaf_index''" "\<not> field_is ''leaf_index'' ''tx_type''" "\<not> field_is ''leaf_index'' ''payload_b64''"
  "\<not> field_is ''leaf_index'' ''sig_hex''" "\<not> field_is ''leaf_index'' ''signer_hex''" "\<not> field_is ''leaf_index'' ''prev_hash_hex''"
  "\<not> field_is ''leaf_index'' ''tx_hash_hex''"
  "\<not> field_is ''tx_type'' ''sig_hex''" "\<not> field_is ''tx_type'' ''prev_hash_hex''"
  "\<not> field_is ''tx_type'' ''tx_hash_hex''" "\<not> field_is ''payload_b64'' ''sig_hex''"
  "\<not> field_is ''payload_b64'' ''prev_hash_hex''" "\<not> field_is ''payload_b64'' ''tx_hash_hex''"
  "field_is ''sig_hex'' ''sig_hex''" "\<not> field_is ''sig_hex'' ''signer_hex''" "\<not> field_is ''sig_hex'' ''prev_hash_hex''"
  "\<not> field_is ''sig_hex'' ''tx_hash_hex''" "\<not> field_is ''signer_hex'' ''prev_hash_hex''"
  "\<not> field_is ''signer_hex'' ''tx_hash_hex''" "field_is ''prev_hash_hex'' ''prev_hash_hex''"
  "\<not> field_is ''prev_hash_hex'' ''tx_hash_hex''" "field_is ''tx_hash_hex'' ''tx_hash_hex''"
  by code_simp+

lemma log_names_utf8 [simp]:
  "valid_utf8 ''count''" "valid_utf8 ''from''" "valid_utf8 ''to''" "valid_utf8 ''leaves''" "valid_utf8 ''leaf_index''"
  "valid_utf8 ''sig_hex''" "valid_utf8 ''prev_hash_hex''" "valid_utf8 ''tx_hash_hex''" "valid_utf8 ''tree_size''"
  "valid_utf8 ''leaf_hash_hex''" "valid_utf8 ''audit_path''" "valid_utf8 ''first''" "valid_utf8 ''second''" "valid_utf8 ''proof''"
  "valid_utf8 ''root_hash_hex''" "valid_utf8 ''timestamp_ms''" "valid_utf8 ''admin_sig_hex''" "valid_utf8 ''admin_pubkey_hex''"
  "valid_utf8 TxGenesis" "valid_utf8 TxTransfer" "valid_utf8 TxRotateKey" "valid_utf8 TxReclaimInvalid"
  by code_simp+

lemma pg_base64_utf8 [simp]: "valid_utf8 (pg_base64 b)"
proof -
  have "\<forall>c\<in>insert CHR ''='' (set b64_std). code c < 0x80" by code_simp
  with set_StdEncode have std: "list_all (\<lambda>c. code c < 0x80) (StdEncode b)" for b
    unfolding list_all_iff by blast
  have "list_all (\<lambda>c. code c < 0x80) (pg_base64 b)"
  proof (induction b rule: pg_base64.induct)
    case (1 b)
    have "code (CHR 0x0A) < 0x80" by code_simp
    with 1 std show ?case by (simp add: pg_base64.simps [of b])
  qed
  then show ?thesis by (rule ascii_valid_utf8)
qed

text \<open>Base64 that decodes, decodes to the same with the error ignored.\<close>

lemma b64_prefix_eq: "b64_decode_digits b64_std True s = Some b \<Longrightarrow> b64_prefix s = b"
  by (induction s arbitrary: b rule: b64_prefix.induct) (auto split: option.splits if_splits)

lemma StdDecode_prefix_pg_base64 [simp]: "StdDecode_prefix (pg_base64 b) = b"
  using StdDecode_pg_base64 [of b] unfolding StdDecode_def b64_decode_def StdDecode_prefix_def by (rule b64_prefix_eq)

lemma mustDecodeHex_encode [simp]: "mustDecodeHex (hex_encode b) = Inr b"
  by (simp add: mustDecodeHex_def)

lemma decode_all_encode [simp]: "decode_all (map hex_encode bs) = Inr bs"
  by (induction bs) simp_all

lemma printable_enc_hex [simp]: "printable d (enc_hex b)"
  by (simp add: enc_hex_def)

text \<open>The two forms of arrays in the answers.\<close>

lemma dec_strings [simp]:
  "dec_elems dec_string z [] (map enc_hex bs) = Some (map hex_encode bs)"
  "dec_elems (lenient dec_string) z [] (map enc_hex bs) = Some (map hex_encode bs)"
  by (induction bs) (simp_all add: enc_hex_def lenient_def)

definition leaf_typed :: "LeafRecord \<Rightarrow> bool" where
  "leaf_typed l \<longleftrightarrow> in_i64 (lr_LeafIndex l) \<and> valid_utf8 (lr_TxType l) \<and> valid_utf8 (lr_Payload l) \<and> valid_utf8 (lr_Sig l) \<and>
     valid_utf8 (lr_Signer l) \<and> valid_utf8 (lr_PrevHash l) \<and> valid_utf8 (lr_TxHash l)"

lemma leaf_decodes: "leaf_typed l \<Longrightarrow> decode_struct leaf_field zero_leaf (JObj (leaf_members l)) = Some l"
  by (cases l) (simp add: leaf_typed_def decode_struct_def leaf_members_def leaf_field_def zero_leaf_def)

lemma leaves_decode:
  "list_all leaf_typed ls \<Longrightarrow> dec_elems (decode_struct leaf_field) zero_leaf [] (map (JObj \<circ> leaf_members) ls) = Some ls"
  by (induction ls) (simp_all add: leaf_decodes)

lemma leaf_printable: "leaf_typed l \<Longrightarrow> 0 < d \<Longrightarrow> printable d (JObj (leaf_members l))"
  by (simp add: leaf_typed_def leaf_members_def)

lemma leaves_printable: "list_all leaf_typed ls \<Longrightarrow> 0 < d \<Longrightarrow> list_all (printable d) (map (JObj \<circ> leaf_members) ls)"
  by (induction ls) (simp_all add: leaf_printable del: printable.simps)

lemma ParseInt_value_format [simp]: "in_i64 n \<Longrightarrow> ParseInt_value (format_int n) = n"
  by (simp add: ParseInt_value_def)

lemma format_int_not_Nil [simp]: "format_int n \<noteq> []"
  by (cases rule: format_int_head [of n]) simp

section \<open>The tree head\<close>

definition checkpoints_typed :: "checkpoints \<Rightarrow> bool" where
  "checkpoints_typed cps \<longleftrightarrow> list_all (\<lambda>(n, c). in_i64 (cp_timestamp_ms c) \<and> length (cp_admin_sig c) = SigLen \<and>
     length (stored_pub c) \<in> {0, PubKeyLen}) cps"

definition key_pair :: "(bytes \<Rightarrow> bytes \<Rightarrow> bytes \<Rightarrow> bool) \<Rightarrow> (bytes \<Rightarrow> bytes \<Rightarrow> bytes) \<Rightarrow> LogService \<Rightarrow> bool" where
  "key_pair ed sign s \<longleftrightarrow> length (ls_AdminPubKey s) = PubKeyLen \<and>
     (\<forall>m. length (sign (ls_AdminPrivKey s) m) = SigLen \<and> ed (ls_AdminPubKey s) m (sign (ls_AdminPrivKey s) m))"

lemma persist_typed:
  assumes "persistCheckpoint ed sign s ts cps n root = (Inr sth, cps')" "checkpoints_typed cps" "in_i64 ts" "key_pair ed sign s"
  obtains pub sig where "sth_AdminPubKey sth = hex_encode pub" "length pub = PubKeyLen" "sth_AdminSig sth = hex_encode sig"
    "length sig = SigLen" "in_i64 (sth_TimestampMS sth)"
proof (cases "map_of cps n")
  case None
  with assms that show thesis
    by (auto simp: persistCheckpoint_def insert_checkpoint_def Let_def checkpointPubKey_def key_pair_def split: if_splits)
next
  case (Some c)
  then have c: "in_i64 (cp_timestamp_ms c)" "length (cp_admin_sig c) = SigLen" "length (stored_pub c) \<in> {0, PubKeyLen}"
    using assms(2) by (auto simp: checkpoints_typed_def list_all_iff dest!: map_of_SomeD)
  with Some assms(1,4) that show thesis
    by (auto simp: persistCheckpoint_def insert_checkpoint_def checkpointPubKey_def key_pair_def split: if_splits)
qed

lemma CurrentSTH_typed:
  assumes "snap_ok db (ls_snapshot s)" "indexed (pg_view db)" "room 0 (pg_view db)"
    and "checkpoints_typed cps" "in_i64 ts" "key_pair ed sign s" "CurrentSTH ed sign s db ts cps = (Inr sth, s', cps')"
  obtains pub sig where "sth_AdminPubKey sth = hex_encode pub" "length pub = PubKeyLen" "sth_AdminSig sth = hex_encode sig"
    "length sig = SigLen" "in_i64 (sth_TimestampMS sth)"
proof -
  have n: "numbered 0 (transactions db)" "int (length (transactions db)) < 2 ^ 63"
    using assms(2,3) by (simp_all add: numbered_view room_def)
  obtain s1 where s1: "snapshot_of s db (-1) = (Inr (snap_at db (length (transactions db))), s1)"
    "ls_AdminPubKey s1 = ls_AdminPubKey s" "ls_AdminPrivKey s1 = ls_AdminPrivKey s"
    using snapshot_of_snap [OF assms(1) n, of "-1"] by (auto simp: resolved_def)
  then have "persistCheckpoint ed sign s1 ts cps (int (length (transactions db)))
      (ms_RootHash (snap_at db (length (transactions db)))) = (Inr sth, cps')"
    using assms(7) by (auto simp: CurrentSTH_def split: prod.splits)
  moreover have "key_pair ed sign s1" using assms(6) s1 by (simp add: key_pair_def)
  ultimately show thesis using persist_typed assms(4,5) that by blast
qed

lemma sth_decodes:
  assumes "in_i64 (sth_TreeSize sth)" "in_i64 (sth_TimestampMS sth)" "valid_utf8 (sth_RootHash sth)"
    "valid_utf8 (sth_AdminSig sth)" "valid_utf8 (sth_AdminPubKey sth)"
    and "fst (logSTH ed sign (svc 0) (db 0) ts cps) = Reply 200 (JObj (sth_members sth))"
  shows "mustGetSTH (log_server ed sign svc db ts cps) 0 = Inr (sth :: STH)"
proof -
  have "printable max_depth (JObj (sth_members sth))" using assms(3-5) by (simp add: sth_members_def max_depth_def)
  note d = Decode_print_line [OF this]
  have "decode_struct sth_field \<lparr>sth_TreeSize = 0, sth_RootHash = [], sth_TimestampMS = 0, sth_AdminSig = [], sth_AdminPubKey = []\<rparr>
      (JObj (sth_members sth)) = Some sth"
    using assms(1,2) by (cases sth) (simp add: decode_struct_def sth_members_def sth_field_def)
  moreover have "log_server ed sign svc db ts cps 0 AskSTH = Some (200, json_print True (JObj (sth_members sth)) @ [CHR 0x0A])"
    using assms(6) by (simp del: json_print.simps)
  ultimately show ?thesis by (simp add: d mustGetSTH_def ask_ok_def del: json_print.simps)
qed

lemma length_Root: "leaves \<noteq> [] \<Longrightarrow> length (Root leaves) = HashSize"
  by (simp add: Root_rootOfHashes length_rootOfHashes)

section \<open>The leaves\<close>

text \<open>The log \<open>rows\<close> that the tree head covers, and a database that may have grown since.\<close>

definition extends_log :: "TxRow list \<Rightarrow> pgdb \<Rightarrow> bool" where
  "extends_log rows db \<longleftrightarrow> numbered 0 (transactions db) \<and> int (length (transactions db)) < 2 ^ 62 \<and>
     (\<exists>more. transactions db = rows @ more)"

lemma extends_numbered:
  assumes "extends_log rows db"
  shows "numbered 0 rows \<and> int (length rows) < 2 ^ 62"
proof -
  obtain more where "transactions db = rows @ more" "numbered 0 (transactions db)" "int (length (transactions db)) < 2 ^ 62"
    using assms by (auto simp: extends_log_def)
  then show ?thesis
    using numbered_take_drop [of 0 "transactions db" 0 "length rows"] by simp
qed

lemma extends_take: "extends_log rows db \<Longrightarrow> n \<le> length rows \<Longrightarrow> take n (transactions db) = take n rows"
  by (auto simp: extends_log_def)

lemma RangeLeaves_page:
  assumes "extends_log rows db" "a \<le> length rows"
  shows "RangeLeaves db (int a) (int (length rows)) = map leaf_record (take 10000 (drop a rows))"
proof -
  have "numbered 0 (transactions db)" using assms(1) by (simp add: extends_log_def)
  note filter = filter_numbered [OF this assms(2)] and sort = sort_numbered [OF this]
  have "take (length rows - a) (drop a (transactions db)) = drop a rows"
    using extends_take [OF assms(1), of "length rows"] by (simp flip: drop_take)
  then show ?thesis using filter unfolding RangeLeaves_def sort by simp
qed

lemma row_typed:
  assumes "numbered 0 rows" "int (length rows) < 2 ^ 62" "list_all logged_ok (map Tx.truncate rows)"
  shows "list_all leaf_typed (map leaf_record rows)"
proof -
  have "leaf_typed (leaf_record r)" if "r \<in> set rows" for r
  proof -
    have "logged_ok (Tx.truncate r)" using that assms(3) by (auto simp: list_all_iff)
    then have "valid_utf8 (Type r)" by (auto simp: logged_ok_def split: if_splits)
    moreover have "in_i64 (LeafIndex r)"
      using that assms(1,2) by (auto simp: numbered_def in_set_conv_nth in_i64_def)
    ultimately show ?thesis by (simp add: leaf_typed_def leaf_record_def)
  qed
  then show ?thesis by (auto simp: list_all_iff)
qed

lemma page_served:
  assumes "extends_log rows (db n)" "list_all leaf_typed (map leaf_record rows)" "a \<le> length rows"
  shows "mustGetLeaves (log_server ed sign svc db ts cps) n (int a) (int (length rows)) =
    Inr (map leaf_record (take 10000 (drop a rows)))"
proof -
  let ?ls = "map leaf_record (take 10000 (drop a rows))"
  let ?v = "JObj [(''count'', enc_int (int (length ?ls))), (''from'', enc_int (int a)),
    (''leaves'', JArr (map (JObj \<circ> leaf_members) ?ls)), (''to'', enc_int (int (length rows)))]"
  have i64: "in_i64 (int a)" "in_i64 (int (length rows))" "in_i64 (int (length ?ls))"
    using extends_numbered [OF assms(1)] assms(3) by (auto simp: in_i64_def)
  have typed: "list_all leaf_typed ?ls"
    using assms(2) by (auto simp: list_all_iff dest!: in_set_takeD in_set_dropD)
  then have "list_all (printable 9998) (map (JObj \<circ> leaf_members) ?ls)"
    by (rule leaves_printable) simp
  then have "printable max_depth ?v" by (simp add: max_depth_def del: map_map)
  note d = Decode_print_line [OF this]
  have "log_server ed sign svc db ts cps n (AskLeaves (int a) (int (length rows))) = Some (200, json_print True ?v @ [CHR 0x0A])"
    using i64 RangeLeaves_page [OF assms(1,3)] by (simp add: logLeaves_def sample_request_def Let_def sort_members del: json_print.simps)
  then show ?thesis
    using leaves_decode [OF typed] i64
    by (simp add: d mustGetLeaves_def ask_ok_def decode_struct_def leaves_field_def dec_slice_def
        del: map_map json_print.simps log_server.simps length_map length_take)
qed

lemma fetch_served:
  assumes "\<And>n. extends_log rows (db n)" "list_all leaf_typed (map leaf_record rows)" "a \<le> length rows"
  shows "\<exists>n'. fetchAllLeaves (log_server ed sign svc db ts cps) (int (length rows)) (int a) n (map leaf_record (take a rows)) =
    Some (Inr (map leaf_record rows, n'))"
  using assms(3)
proof (induction "length rows - a" arbitrary: a n rule: less_induct)
  case less
  show ?case
  proof (cases "a = length rows")
    case True
    then show ?thesis by (simp add: fetchAllLeaves.simps)
  next
    case False
    let ?p = "take 10000 (drop a rows)"
    let ?b = "a + length ?p"
    have p: "?p \<noteq> []" "?b \<le> length rows" "a < ?b" "a < length rows" using False less.prems by auto
    have num: "numbered 0 rows" "int (length rows) < 2 ^ 62" using extends_numbered [OF assms(1)] by blast+
    have "last ?p = rows ! (?b - 1)" using p(1,4) by (simp add: last_conv_nth)
    then have "LeafIndex (last ?p) = int (?b - 1)" using num(1) p by (simp add: numbered_def)
    then have "lr_LeafIndex (last (map leaf_record ?p)) + 1 = int ?b"
      using p(1,3) by (simp add: last_map leaf_record_def del: length_take length_drop)
    moreover have "in_i64 (int ?b)" using p(2) num(2) by (simp add: in_i64_def del: length_take length_drop)
    ultimately have next_page: "i64 (lr_LeafIndex (last (map leaf_record ?p)) + 1) = int ?b"
      by (metis i64_id)
    have "map leaf_record (take a rows) @ map leaf_record ?p = map leaf_record (take ?b rows)"
      by (simp flip: map_append add: take_add min_def)
    moreover have "\<exists>n'. fetchAllLeaves (log_server ed sign svc db ts cps) (int (length rows)) (int ?b) (Suc n)
        (map leaf_record (take ?b rows)) = Some (Inr (map leaf_record rows, n'))"
      by (rule less.hyps) (use p in linarith)+
    ultimately show ?thesis
      using p(1,4) page_served [where db = db and n = n, OF assms(1,2) less.prems] next_page
      by (subst fetchAllLeaves.simps) (simp del: length_take length_drop)
  qed
qed


lemma leaf_record_fields:
  "lr_TxType (leaf_record r) = Type r" "StdDecode_prefix (lr_Payload (leaf_record r)) = Payload r"
  by (simp_all add: leaf_record_def)

text \<open>Every leaf of a hash chain passes the checks of its hash, its link and its signature.\<close>

declare truncate_fields [simp]

lemma leaves_verify:
  "chain_from ed i prev (map Tx.truncate rows) \<Longrightarrow> verifyLeaves ed prev (map leaf_record rows) = Inr (map TxHash rows)"
proof (induction rows arbitrary: i prev)
  case (Cons r rows)
  from Cons.prems have r: "VerifySig ed (Signer r) (Payload r) (Sig r)" "PrevHash r = prev"
    "TxHash r = tx_hash (Payload r) (Sig r) prev" "chain_from ed (Suc i) (TxHash r) (map Tx.truncate rows)"
    unfolding list.map chain_from.simps truncate_simps truncate_fields by blast+
  from Cons.IH [OF r(4)] VerifySigD [OF r(1)] r(2,3) show ?case
    by (simp add: leaf_record_def ed25519_Verify_def tx_hash_def)
qed simp

lemma payloads_pass:
  "list_all logged_ok (map Tx.truncate rows) \<Longrightarrow>
   checkPayloads g (map leaf_record rows) = Inr (if list_ex (\<lambda>r. Type r = TxGenesis) rows then SupplyCap else g)"
proof (induction rows arbitrary: g)
  case (Cons r rows)
  then have r: "logged_ok (Tx.truncate r)" and "list_all logged_ok (map Tx.truncate rows)" by simp_all
  note rest = Cons.IH [OF this(2)]
  from r show ?case
    by (auto simp: leaf_record_fields logged_ok_def rest split: if_splits option.splits)
qed simp

lemma content_record:
  "content (leaf_record r) = (Payload r, Sig r, PrevHash r, TxHash r)"
  by (simp add: content_def leaf_record_def leaf_tx_hash_def)

section \<open>The proofs\<close>

text \<open>What the three theorems about the log endpoints need, for a database that may have grown.\<close>

lemma extends_view:
  "extends_log rows db \<Longrightarrow> indexed (pg_view db) \<and> room 0 (pg_view db)"
  by (simp add: extends_log_def numbered_view room_def)

lemma sample_query [simp]:
  "rq_query (sample_request [(''leaf_index'', a), (''tree_size'', b)]) ''leaf_index'' = a"
  "rq_query (sample_request [(''leaf_index'', a), (''tree_size'', b)]) ''tree_size'' = b"
  "rq_query (sample_request [(''first'', a), (''second'', b)]) ''first'' = a"
  "rq_query (sample_request [(''first'', a), (''second'', b)]) ''second'' = b"
  by (simp_all add: sample_request_def)

lemma sample_served_inclusion:
  assumes "extends_log rows (db n)" "snap_ok (db n) (ls_snapshot (svc n))" "0 \<le> i" "i < int (length rows)"
  obtains path where "log_server ed sign svc db ts cps n (AskInclusion i (int (length rows))) =
      Some (200, json_print True (JObj [(''audit_path'', JArr (map enc_hex path)),
        (''leaf_hash_hex'', enc_hex (LeafHash (TxHash (rows ! nat i)))), (''leaf_index'', enc_int i),
        (''tree_size'', enc_int (int (length rows)))]) @ [CHR 0x0A])"
    "VerifyInclusion (Root (map TxHash rows)) (LeafHash (TxHash (rows ! nat i))) i (int (length rows)) path = Inr ()"
proof -
  let ?rq = "sample_request [(''leaf_index'', format_int i), (''tree_size'', format_int (int (length rows)))]"
  have i64: "in_i64 i" "in_i64 (int (length rows))"
    using extends_numbered [OF assms(1)] assms(3,4) by (auto simp: in_i64_def)
  obtain more where more: "transactions (db n) = rows @ more" using assms(1) by (auto simp: extends_log_def)
  have nth: "transactions (db n) ! nat i = rows ! nat i" using assms(3,4) more by (simp add: nth_append nat_less_iff)
  have law: "\<exists>path. fst (logInclusion (svc n) (db n) ?rq) = Reply 200 (JObj
        [(''leaf_index'', enc_int i), (''tree_size'', enc_int (int (length rows))),
         (''leaf_hash_hex'', enc_hex (LeafHash (TxHash (rows ! nat i)))),
         (''audit_path'', JArr (map enc_hex path))]) \<and>
        VerifyInclusion (Root (map TxHash rows)) (LeafHash (TxHash (rows ! nat i))) i (int (length rows)) path = Inr ()"
    using inclusion_law [OF assms(2) conjunct1 [OF extends_view [OF assms(1)]] conjunct2 [OF extends_view [OF assms(1)]],
        of ?rq i "int (length rows)"] i64 assms(3,4) nth more
    by simp
  then obtain path where path: "fst (logInclusion (svc n) (db n) ?rq) = Reply 200 (JObj
        [(''leaf_index'', enc_int i), (''tree_size'', enc_int (int (length rows))),
         (''leaf_hash_hex'', enc_hex (LeafHash (TxHash (rows ! nat i)))),
         (''audit_path'', JArr (map enc_hex path))])"
      "VerifyInclusion (Root (map TxHash rows)) (LeafHash (TxHash (rows ! nat i))) i (int (length rows)) path = Inr ()"
    by blast
  show thesis
    by (rule that [OF _ path(2)]) (simp add: path(1) sort_members del: json_print.simps)
qed

lemma hex_array_printable: "list_all (printable d) (map enc_hex bs)"
  by (induction bs) simp_all

lemma incl_resp_served:
  "incl_resp (json_print True (JObj [(''audit_path'', JArr (map enc_hex path)), (''leaf_hash_hex'', enc_hex h),
     (''leaf_index'', enc_int i), (''tree_size'', enc_int n)]) @ [CHR 0x0A]) =
   \<lparr>ir_LeafHashHex = hex_encode h, ir_AuditPath = map hex_encode path\<rparr>"
proof -
  have "printable max_depth (JObj [(''audit_path'', JArr (map enc_hex path)), (''leaf_hash_hex'', enc_hex h),
     (''leaf_index'', enc_int i), (''tree_size'', enc_int n)])"
    using hex_array_printable by (simp add: max_depth_def)
  note d = Decode_print_line [OF this]
  have "decode_struct incl_field \<lparr>ir_LeafHashHex = [], ir_AuditPath = []\<rparr> (JObj [(''audit_path'', JArr (map enc_hex path)),
      (''leaf_hash_hex'', enc_hex h), (''leaf_index'', enc_int i), (''tree_size'', enc_int n)]) =
    Some \<lparr>ir_LeafHashHex = hex_encode h, ir_AuditPath = map hex_encode path\<rparr>"
    by (simp add: decode_struct_def incl_field_def lenient_def [of "dec_slice d z" for d z] dec_slice_def
        lenient_def [of dec_string "[]"] enc_hex_def [of h])
  then show ?thesis by (simp add: d incl_resp_def Let_def del: json_print.simps)
qed

lemma samples_pass:
  assumes "\<And>n. extends_log rows (db n)" "\<And>n. snap_ok (db n) (ls_snapshot (svc n))"
    and "list_all (\<lambda>i. 0 \<le> i \<and> i < int (length rows)) idxs"
  shows "\<exists>n'. verifyInclusionSamples (log_server ed sign svc db ts cps) n (map leaf_record rows) (int (length rows))
    (Root (map TxHash rows)) idxs = Inr n'"
  using assms(3)
proof (induction idxs arbitrary: n)
  case (Cons i idxs)
  then have i: "0 \<le> i" "i < int (length rows)" "nat i < length rows" by (auto simp: nat_less_iff)
  obtain path where path: "log_server ed sign svc db ts cps n (AskInclusion i (int (length rows))) =
      Some (200, json_print True (JObj [(''audit_path'', JArr (map enc_hex path)),
        (''leaf_hash_hex'', enc_hex (LeafHash (TxHash (rows ! nat i)))), (''leaf_index'', enc_int i),
        (''tree_size'', enc_int (int (length rows)))]) @ [CHR 0x0A])"
    "VerifyInclusion (Root (map TxHash rows)) (LeafHash (TxHash (rows ! nat i))) i (int (length rows)) path = Inr ()"
    by (rule sample_served_inclusion [OF assms(1,2) i(1,2)])
  have "lr_TxHash (map leaf_record rows ! nat i) = hex_encode (TxHash (rows ! nat i))"
    using i(3) by (simp add: leaf_record_def)
  with path Cons.IH [of "Suc n"] Cons.prems show ?case
    by (simp add: incl_resp_served del: json_print.simps log_server.simps)
qed simp

lemma midpoint_passes:
  assumes "extends_log rows (db n)" "snap_ok (db n) (ls_snapshot (svc n))"
  shows "verifyMidpoint (log_server ed sign svc db ts cps) n (int (length rows)) (map TxHash rows) (Root (map TxHash rows)) = Inr ()"
proof (cases "2 \<le> int (length rows)")
  case True
  let ?m = "int (length rows) div 2"
  let ?rq = "sample_request [(''first'', format_int ?m), (''second'', format_int (int (length rows)))]"
  have m: "0 < ?m" "?m \<le> int (length rows)" using True by auto
  have i64: "in_i64 ?m" "in_i64 (int (length rows))"
    using extends_numbered [OF assms(1)] m by (auto simp: in_i64_def)
  obtain more where more: "transactions (db n) = rows @ more" using assms(1) by (auto simp: extends_log_def)
  have take: "take (nat ?m) (transactions (db n)) = take (nat ?m) rows"
    using extends_take [OF assms(1), of "nat ?m"] m(2) by simp
  have "\<exists>path. fst (logConsistency (svc n) (db n) ?rq) = Reply 200 (JObj
        [(''first'', enc_int ?m), (''second'', enc_int (int (length rows))), (''proof'', JArr (map enc_hex path))]) \<and>
        VerifyConsistency (Root (map TxHash (take (nat ?m) rows))) (Root (map TxHash rows)) ?m (int (length rows)) path = Inr ()"
    using consistency_law [OF assms(2) conjunct1 [OF extends_view [OF assms(1)]] conjunct2 [OF extends_view [OF assms(1)]],
        of ?rq ?m "int (length rows)"] i64 m take more
    by simp
  then obtain path where path: "fst (logConsistency (svc n) (db n) ?rq) = Reply 200 (JObj
        [(''first'', enc_int ?m), (''second'', enc_int (int (length rows))), (''proof'', JArr (map enc_hex path))])"
      "VerifyConsistency (Root (map TxHash (take (nat ?m) rows))) (Root (map TxHash rows)) ?m (int (length rows)) path = Inr ()"
    by blast
  let ?v = "JObj [(''first'', enc_int ?m), (''proof'', JArr (map enc_hex path)), (''second'', enc_int (int (length rows)))]"
  have "printable max_depth ?v" using hex_array_printable by (simp add: max_depth_def)
  note d = Decode_print_line [OF this]
  have "log_server ed sign svc db ts cps n (AskConsistency ?m (int (length rows))) = Some (200, json_print True ?v @ [CHR 0x0A])"
    by (simp add: path(1) sort_members del: json_print.simps)
  then have "mustGetConsistency (log_server ed sign svc db ts cps) n ?m (int (length rows)) = Inr (map hex_encode path)"
    by (simp add: mustGetConsistency_def ask_ok_def d decode_struct_def cons_field_def dec_slice_def del: json_print.simps log_server.simps)
  then show ?thesis using path(2) True by (simp add: verifyMidpoint_def Let_def take_map)
qed (simp add: verifyMidpoint_def)


section \<open>An honest server passes\<close>

lemma fetched_passes:
  assumes "\<And>n. extends_log rows (db n)" "\<And>n. snap_ok (db n) (ls_snapshot (svc n))" "rows \<noteq> []"
    and "chain_from ed 0 ZeroHash (map Tx.truncate rows)" "list_all logged_ok (map Tx.truncate rows)"
    and "list_all (\<lambda>i. 0 \<le> i \<and> i < int (length rows)) idxs"
  shows "verifyFetched ed (log_server ed sign svc db ts cps) n (int (length rows)) (Root (map TxHash rows))
    (map leaf_record rows) idxs = Inr ()"
proof -
  have "Type (hd rows) = TxGenesis" using assms(3,4) by (cases rows) simp_all
  then have "list_ex (\<lambda>r. Type r = TxGenesis) rows" using assms(3) by (cases rows) simp_all
  then have pay: "checkPayloads 0 (map leaf_record rows) = Inr SupplyCap" using payloads_pass [OF assms(5)] by simp
  have "verifyLeaves ed (replicate 32 (byte 0)) (map leaf_record rows) = Inr (map TxHash rows)"
    using leaves_verify [OF assms(4)] by (simp add: ZeroHash_def HashSize_def)
  moreover obtain n' where "verifyInclusionSamples (log_server ed sign svc db ts cps) n (map leaf_record rows) (int (length rows))
      (Root (map TxHash rows)) idxs = Inr n'"
    using samples_pass [where db = db and svc = svc, OF assms(1,2,6)] by blast
  ultimately show ?thesis
    using pay midpoint_passes [where db = db and svc = svc, OF assms(1,2)] by (simp add: verifyFetched_def)
qed

lemma honest_run_passes:
  assumes "\<And>n. extends_log (transactions (db 0)) (db n)" "\<And>n. snap_ok (db n) (ls_snapshot (svc n))"
    and "chain_from ed 0 ZeroHash (log (pg_view (db 0)))" "list_all logged_ok (log (pg_view (db 0)))"
    and "checkpoints_ok ed cps" "checkpoints_typed cps" "in_i64 ts" "key_pair ed sign (svc 0)"
    and "CurrentSTH ed sign (svc 0) (db 0) ts cps = (Inr sth, s', cps')"
    and "list_all (\<lambda>i. 0 \<le> i \<and> i < sth_TreeSize sth) idxs" "transactions (db 0) \<noteq> []"
  shows "verify ed (log_server ed sign svc db ts cps) idxs = Some (Inr (sth, map leaf_record (transactions (db 0))))"
proof -
  let ?rows = "transactions (db 0)"
  let ?web = "log_server ed sign svc db ts cps"
  note ext = extends_view [OF assms(1) [of 0]] extends_numbered [OF assms(1) [of 0]]
  have "verifies ed sth \<and> sth_TreeSize sth = int (length ?rows) \<and> sth_RootHash sth = hex_encode (Root (map TxHash ?rows))"
    using CurrentSTH_law [OF assms(2) conjunct1 [OF ext(1)] conjunct2 [OF ext(1)] assms(5) _ assms(9)] assms(8)
    by (simp add: key_pair_def)
  then have sth: "verifies ed sth" "sth_TreeSize sth = int (length ?rows)" "sth_RootHash sth = hex_encode (Root (map TxHash ?rows))"
    by simp_all
  obtain pub sig where typed: "sth_AdminPubKey sth = hex_encode pub" "length pub = PubKeyLen"
    "sth_AdminSig sth = hex_encode sig" "length sig = SigLen" "in_i64 (sth_TimestampMS sth)"
    by (rule CurrentSTH_typed [OF assms(2) conjunct1 [OF ext(1)] conjunct2 [OF ext(1)] assms(6-9)])
  have "in_i64 (int (length ?rows))" using ext(2) by (auto simp: in_i64_def)
  then have head: "mustGetSTH ?web 0 = Inr sth"
    using sth(2,3) typed assms(9) by (intro sth_decodes) (simp_all add: logSTH_def reply_or_500_def)
  have signed: "verifySTHSig ed sth = Inr ()"
    using sth typed by (simp add: verifySTHSig_def ed25519_Verify_def verifies_def)
  have "length (Root (map TxHash ?rows)) = 32" using length_Root [of "map TxHash ?rows"] assms(11) by (simp add: HashSize_def)
  then have root: "mustDecodeHex (sth_RootHash sth) = Inr (Root (map TxHash ?rows))" "\<not> length (sth_RootHash sth) < 16"
    using sth(3) by simp_all
  have rows: "list_all leaf_typed (map leaf_record ?rows)"
    using row_typed ext(2) assms(4) by simp
  obtain n' where fetch: "fetchAllLeaves ?web (sth_TreeSize sth) 0 1 [] = Some (Inr (map leaf_record ?rows, n'))"
    using fetch_served [where db = db and a = 0, OF assms(1) rows, of ed sign svc ts cps 1] sth(2) by auto
  have "verifyFetched ed ?web n' (int (length ?rows)) (Root (map TxHash ?rows)) (map leaf_record ?rows) idxs = Inr ()"
    using assms(3,4,10) sth(2) by (intro fetched_passes [where db = db and svc = svc, OF assms(1,2,11)]) simp_all
  with head signed root fetch sth(2) assms(11) show ?thesis by (simp add: verify_def)
qed

text \<open>
  Claim C26. An honest server passes the audit: take the database that any history of requests and commands
  made of the empty one, let it grow further between the requests of the audit, with any caches
  that the log service may hold; if the service signs a tree head for it with its own key, then
  the audit tool, with whatever indexes it samples, returns without a complaint, and has seen
  exactly the logged transactions.
\<close>

theorem honest_server_passes:
  assumes "served ed sign' rs sv pg_empty k (db 0)" "\<And>n. served ed sign' rs sv (db 0) (g n) (db n)" "\<And>n. int (k + g n) < 2 ^ 62"
    and "\<And>n. snap_ok (db n) (ls_snapshot (svc n))" "key_pair ed sign (svc 0)"
    and "checkpoints_ok ed cps" "checkpoints_typed cps" "in_i64 ts"
    and "CurrentSTH ed sign (svc 0) (db 0) ts cps = (Inr sth, s', cps')"
    and "list_all (\<lambda>i. 0 \<le> i \<and> i < sth_TreeSize sth) idxs" "transactions (db 0) \<noteq> []"
  shows "\<exists>ls. verify ed (log_server ed sign svc db ts cps) idxs = Some (Inr (sth, ls)) \<and>
    map content ls = map (\<lambda>r. (Payload r, Sig r, PrevHash r, TxHash r)) (transactions (db 0))"
proof -
  have "int k < 2 ^ 62" using assms(3) [of 0] by simp
  with served_empty [OF assms(1)] have ok0: "db_ok ed k (db 0)" by simp
  have "extends_log (transactions (db 0)) (db n)" for n
  proof -
    have ok: "db_ok ed (k + g n) (db n)" by (rule served_ok [OF assms(2) ok0 assms(3)])
    then have "indexed (pg_view (db n))" "int (length (transactions (db n))) < 2 ^ 62"
      using chain_indexed db_ok_room [OF ok assms(3)] by (auto simp: db_ok_def ledger_ok_def room_def)
    then show ?thesis using served_appends [OF assms(2)] by (simp add: extends_log_def numbered_view)
  qed
  moreover have "chain_from ed 0 ZeroHash (log (pg_view (db 0)))" "list_all logged_ok (log (pg_view (db 0)))"
    using ok0 by (simp_all add: db_ok_def ledger_ok_def)
  ultimately have "verify ed (log_server ed sign svc db ts cps) idxs = Some (Inr (sth, map leaf_record (transactions (db 0))))"
    using assms(4-11) by (intro honest_run_passes [where db = db and svc = svc])
  then show ?thesis by (simp add: content_record)
qed


text \<open>The sample: the ledger after its genesis, audited at index 0.\<close>

lemma sample_key_pair: "key_pair toy_ed toy_sign sample_service"
  by (simp add: key_pair_def sample_service_def PubKeyLen_def SigLen_def)

lemma CurrentSTH_fresh:
  assumes "indexed (pg_view db)" "room 0 (pg_view db)"
  shows "\<exists>sth s' cps'. CurrentSTH toy_ed toy_sign sample_service db 5 [] = (Inr sth, s', cps')"
proof -
  have "numbered 0 (transactions db)" "int (length (transactions db)) < 2 ^ 63"
    using assms by (simp_all add: numbered_view room_def)
  then obtain s' where "snapshot_of sample_service db (-1) = (Inr (snap_at db (length (transactions db))), s')"
    "ls_AdminPubKey s' = zero_key"
    using snapshot_of_snap [OF sample_log(1), of db "-1"] by (auto simp: resolved_def sample_service_def)
  then show ?thesis
    by (simp add: CurrentSTH_def persistCheckpoint_def insert_checkpoint_def Let_def checkpointPubKey_def)
qed

lemma sample_audit:
  obtains db sth s' cps' where "served toy_ed toy_sign sample_rewards \<lparr>sv_DC = None, sv_DevHeaderAuthToken = []\<rparr> pg_empty 1 db"
    "length (transactions db) = 1" "CurrentSTH toy_ed toy_sign sample_service db 5 [] = (Inr sth, s', cps')" "sth_TreeSize sth = 1"
    "extends_log (transactions db) db" "chain_from toy_ed 0 ZeroHash (log (pg_view db))" "list_all logged_ok (log (pg_view db))"
proof (rule sample_served)
  fix db
  assume db: "served toy_ed toy_sign sample_rewards \<lparr>sv_DC = None, sv_DevHeaderAuthToken = []\<rparr> pg_empty 1 db" "transactions db \<noteq> []"
  have ok: "db_ok toy_ed 1 db" using served_empty [OF db(1)] by simp
  then have room: "room 0 (pg_view db)" "indexed (pg_view db)"
    using db_ok_room [OF ok] chain_indexed by (auto simp: db_ok_def ledger_ok_def)
  obtain sth s' cps' where sth: "CurrentSTH toy_ed toy_sign sample_service db 5 [] = (Inr sth, s', cps')"
    using CurrentSTH_fresh room by blast
  have one: "length (transactions db) = 1" using ok db(2) by (cases "transactions db") (auto simp: db_ok_def)
  have "sth_TreeSize sth = int (length (transactions db))"
    using CurrentSTH_law [OF sample_log(1) room(2,1) _ _ sth] sample_key_pair by (simp add: checkpoints_ok_def key_pair_def)
  with one have "sth_TreeSize sth = 1" by simp
  moreover have "extends_log (transactions db) db" using room by (simp add: extends_log_def numbered_view room_def)
  moreover have "chain_from toy_ed 0 ZeroHash (log (pg_view db))" "list_all logged_ok (log (pg_view db))"
    using ok by (simp_all add: db_ok_def ledger_ok_def)
  ultimately show thesis using that [OF db(1) one sth] by simp
qed

lemma sample_checkpoints [simp]: "checkpoints_ok ed []" "checkpoints_typed []" "in_i64 5"
  by (simp_all add: checkpoints_ok_def checkpoints_typed_def in_i64_def)

theorem honest_server_passes_witness:
  "\<exists>db sth ls. length (transactions db) = 1 \<and>
     verify toy_ed (log_server toy_ed toy_sign (\<lambda>_. sample_service) (\<lambda>_. db) 5 []) [0] = Some (Inr (sth, ls)) \<and>
     map content ls = map (\<lambda>r. (Payload r, Sig r, PrevHash r, TxHash r)) (transactions db)"
proof -
  obtain db sth s' cps' where db: "served toy_ed toy_sign sample_rewards \<lparr>sv_DC = None, sv_DevHeaderAuthToken = []\<rparr> pg_empty 1 db"
    "length (transactions db) = 1" "CurrentSTH toy_ed toy_sign sample_service db 5 [] = (Inr sth, s', cps')" "sth_TreeSize sth = 1"
    by (rule sample_audit)
  have "list_all (\<lambda>i. 0 \<le> i \<and> i < sth_TreeSize sth) [0]" "transactions db \<noteq> []" using db(2,4) by auto
  with honest_server_passes [where db = "\<lambda>_. db" and svc = "\<lambda>_. sample_service" and g = "\<lambda>_. 0" and idxs = "[0]", OF db(1) started _ sample_log(1)
      sample_key_pair sample_checkpoints db(3)] db(2)
  show ?thesis by (intro exI [of _ db]) auto
qed

section \<open>One root, one log\<close>

text \<open>
  Claim C25. One root, one log: if two runs of the audit tool pass against tree heads of the same size
  and root, whatever servers they talked to and whatever these answered, then both have seen the
  same transactions in the same order (payload, signature, link and hash of each), or a SHA-256
  collision is among the strings that they hashed. (Not bound by the root are the signer and the
  type of a transaction: they are not hashed.)
\<close>

theorem audit_binding:
  assumes "verify ed get idxs = Some (Inr (sth, ls))" "verify ed' get' idxs' = Some (Inr (sth', ms))"
    and "sth_TreeSize sth = sth_TreeSize sth'" "hex_decode (sth_RootHash sth) = hex_decode (sth_RootHash sth')"
  shows "map content ls = map content ms \<or> collides (hashed ls) (hashed ms)"
  using assms(1)
proof (cases rule: verify_passes)
  case empty
  with assms(3) have "ms = []" by (cases rule: verify_passes [OF assms(2)]) auto
  with empty show ?thesis by simp
next
  case (full hs)
  from assms(2) show ?thesis
  proof (cases rule: verify_passes)
    case empty
    with assms(3) full show ?thesis by simp
  next
    case (full ks)
    note ms = this
    note ls = \<open>verifyLeaves ed ZeroHash ls = Inr hs\<close> \<open>int (length ls) = sth_TreeSize sth\<close>
      \<open>hex_decode (sth_RootHash sth) = Some (Root hs)\<close> \<open>ls \<noteq> []\<close>
    from verifyLeaves_checked [OF ls(1)] verifyLeaves_checked [OF ms(1)]
    have "hs = map leaf_tx_hash ls" "ks = map leaf_tx_hash ms" "list_all checked ls" "list_all checked ms" by simp_all
    with same_root_same_content [of ls ms] ls ms assms(3,4) show ?thesis by simp
  qed
qed

theorem audit_binding_witness:
  "\<exists>get sth ls ms. verify toy_ed get [0] = Some (Inr (sth, ls)) \<and> verify toy_ed get [] = Some (Inr (sth, ms)) \<and> length ls = 1 \<and>
     (map content ls = map content ms \<or> collides (hashed ls) (hashed ms))"
proof -
  obtain db sth s' cps' where db: "length (transactions db) = 1"
    "CurrentSTH toy_ed toy_sign sample_service db 5 [] = (Inr sth, s', cps')" "sth_TreeSize sth = 1"
    "extends_log (transactions db) db" "chain_from toy_ed 0 ZeroHash (log (pg_view db))" "list_all logged_ok (log (pg_view db))"
    by (rule sample_audit)
  let ?get = "log_server toy_ed toy_sign (\<lambda>_. sample_service) (\<lambda>_. db) 5 []"
  have ne: "transactions db \<noteq> []" using db(1) by auto
  have run: "verify toy_ed ?get idxs = Some (Inr (sth, map leaf_record (transactions db)))"
    if "list_all (\<lambda>i. 0 \<le> i \<and> i < sth_TreeSize sth) idxs" for idxs
    using honest_run_passes [where db = "\<lambda>_. db" and svc = "\<lambda>_. sample_service", OF db(4) sample_log(1) db(5,6)
        sample_checkpoints sample_key_pair db(2) that ne] by simp
  have "verify toy_ed ?get [0] = Some (Inr (sth, map leaf_record (transactions db)))"
    "verify toy_ed ?get [] = Some (Inr (sth, map leaf_record (transactions db)))"
    using db(3) by (intro run; simp)+
  with audit_binding [OF this refl refl] db(1) show ?thesis by (metis length_map)
qed

end
