(* ===== verification/AdminCli.thy ===== *)
theory AdminCli
  imports Rewards
begin

text \<open>
  \<open>cmd/ledger-admin\<close>: the commands that write the ledger, \<open>init\<close>, \<open>reclaim-invalid\<close> and
  \<open>distribute\<close>. \<open>env\<close> is the process environment (\<open>[]\<close> for a variable that is not set), flags are
  arguments, \<open>log.Fatal\<close> is an error value. Connecting and migrating are taken to succeed: the
  commands start with the database \<open>db\<close>. What is printed is not modelled, except that a failed
  payment is on \<open>stderr\<close>.
\<close>

text \<open>An Ed25519 private key is the seed and the public key.\<close>

definition PrivateKeySize :: nat where "PrivateKeySize = 64"

definition Public :: "bytes \<Rightarrow> bytes" where
  "Public priv = drop 32 priv"

definition private_key :: "bytes \<Rightarrow> err + bytes" where
  "private_key privHex =
     (case hex_decode privHex of
        None \<Rightarrow> Inl (Errorf ''must be a 128-char hex Ed25519 private key'')
      | Some priv \<Rightarrow>
          if length priv \<noteq> PrivateKeySize then Inl (Errorf ''must be a 128-char hex Ed25519 private key'') else Inr priv)"

section \<open>init\<close>

definition init_tx :: "(bytes \<Rightarrow> bytes \<Rightarrow> bytes) \<Rightarrow> bytes \<Rightarrow> bytes \<Rightarrow> bytes \<Rightarrow> Tx" where
  "init_tx sign priv treasuryUser memo =
     (let payloadBytes = CanonicalJSON (genesis_tree
            \<lparr>gp_To = Public priv, gp_TreasuryUser = treasuryUser, gp_Amount = SupplyCap, gp_Memo = memo\<rparr>)
      in \<lparr>LeafIndex = 0, Type = TxGenesis, Payload = payloadBytes, Sig = sign priv payloadBytes,
          Signer = Public priv, PrevHash = [], TxHash = []\<rparr>)"

definition cmdInit ::
  "(bytes \<Rightarrow> bytes \<Rightarrow> bytes \<Rightarrow> bool) \<Rightarrow> (bytes \<Rightarrow> bytes \<Rightarrow> bytes) \<Rightarrow> (bytes \<Rightarrow> bytes) \<Rightarrow> bytes \<Rightarrow> pgdb \<Rightarrow> err + Tx \<times> pgdb" where
  "cmdInit ed sign env memo db =
     (if env ''DATABASE_URL'' = [] then Inl (Errorf ''DATABASE_URL is required'')
      else if env ''ADMIN_PRIV_KEY_HEX'' = [] then Inl (Errorf ''ADMIN_PRIV_KEY_HEX is required'')
      else and_then (private_key (env ''ADMIN_PRIV_KEY_HEX'')) (\<lambda>priv.
        let treasuryUser = (if env ''TREASURY_USERNAME'' = [] then ''TREASURY'' else env ''TREASURY_USERNAME'')
        in case Apply ed PgOps db (init_tx sign priv treasuryUser memo) of (tx, r) \<Rightarrow>
             and_then (with_context ''apply genesis'' r) (\<lambda>db. Inr (tx, db))))"

section \<open>reclaim-invalid\<close>

text \<open>
  The accounts are read in one transaction, which is rolled back, and \<open>Apply\<close> opens another: \<open>seen\<close>
  is the database that the first one reads, \<open>db\<close> the one that \<open>Apply\<close> finds.
\<close>

definition reclaim_tx :: "(bytes \<Rightarrow> bytes \<Rightarrow> bytes) \<Rightarrow> bytes \<Rightarrow> int \<Rightarrow> int \<Rightarrow> int \<Rightarrow> bytes \<Rightarrow> Tx" where
  "reclaim_tx sign priv fromID amount nonce memo =
     (let payloadBytes = CanonicalJSON (reclaim_tree
            \<lparr>ri_Admin = Public priv, ri_FromDiscourseID = fromID, ri_Amount = amount, ri_Nonce = nonce, ri_Memo = memo\<rparr>)
      in \<lparr>LeafIndex = 0, Type = TxReclaimInvalid, Payload = payloadBytes, Sig = sign priv payloadBytes,
          Signer = Public priv, PrevHash = [], TxHash = []\<rparr>)"

definition cmdReclaimInvalid ::
  "(bytes \<Rightarrow> bytes \<Rightarrow> bytes \<Rightarrow> bool) \<Rightarrow> (bytes \<Rightarrow> bytes \<Rightarrow> bytes) \<Rightarrow> (bytes \<Rightarrow> bytes) \<Rightarrow> int \<Rightarrow> int \<Rightarrow> bytes \<Rightarrow>
   pgdb \<Rightarrow> pgdb \<Rightarrow> err + Tx \<times> pgdb" where
  "cmdReclaimInvalid ed sign env fromID amount memo seen db =
     (if fromID \<ge> TreasuryDscID then Inl (Errorf ''--from must be a negative discourse_id'')
      else if env ''DATABASE_URL'' = [] \<or> env ''ADMIN_PRIV_KEY_HEX'' = []
        then Inl (Errorf ''DATABASE_URL and ADMIN_PRIV_KEY_HEX are required'')
      else and_then (private_key (env ''ADMIN_PRIV_KEY_HEX'')) (\<lambda>adminPriv.
      and_then (with_context ''begin'' (pg_Begin seen)) (\<lambda>stx.
      and_then (with_context ''admin lookup'' (pg_GetAccountByPubKey stx (Public adminPriv))) (\<lambda>adminOpt.
      and_then (with_context ''invalid account lookup'' (pg_GetAccountByDiscourseID stx fromID)) (\<lambda>fromOpt.
        case adminOpt of
          None \<Rightarrow> Inl (Errorf ''admin/treasury account not found'')
        | Some admin \<Rightarrow>
            (if DiscourseID admin \<noteq> TreasuryDscID then Inl (Errorf ''admin/treasury account not found'')
             else case fromOpt of
               None \<Rightarrow> Inl (Errorf ''account not found'')
             | Some from \<Rightarrow>
                 (if has_pubkey from then Inl (Errorf ''account is activated; refusing reclaim'')
                  else let reclaimAmount = (if amount = 0 then Balance from else amount)
                  in if reclaimAmount \<le> 0 then Inl (Errorf ''nothing to reclaim'')
                  else case Apply ed PgOps db
                         (reclaim_tx sign adminPriv fromID reclaimAmount (i64 (Nonce admin + 1)) memo) of (tx, r) \<Rightarrow>
                    and_then (with_context ''apply reclaim_invalid'' r) (\<lambda>db. Inr (tx, db)))))))))"

section \<open>distribute\<close>

record backfillRow =
  br_DscID :: int
  br_Username :: bytes
  br_HasPosted :: bool

subsection \<open>Rows from standard input\<close>

text \<open>
  A \<open>bufio.Scanner\<close> with a buffer of at most 4 MiB: a line of which the buffer does not hold the
  end stops it. A carriage return at the end of a line is dropped.
\<close>

definition max_token :: nat where "max_token = 4194304"

definition drop_cr :: "bytes \<Rightarrow> bytes" where
  "drop_cr l = (if l \<noteq> [] \<and> last l = CHR 0x0D then butlast l else l)"

lemma split2_length: "split2 sep s = Some (a, b) \<Longrightarrow> length a < length s"
  by (induction s arbitrary: a) (auto split: if_splits)

function scan_lines :: "bytes \<Rightarrow> bytes list" where
  "scan_lines s =
     (if s = [] then []
      else case split2 (CHR 0x0A) (take max_token s) of
        Some (line, _) \<Rightarrow> drop_cr line # scan_lines (drop (Suc (length line)) s)
      | None \<Rightarrow> if length s < max_token then [drop_cr s] else [])"
  by pat_completeness auto
termination by (relation "measure length") auto

declare scan_lines.simps [simp del]

text \<open>\<open>strings.TrimSpace\<close> strips the encodings of the Unicode white space from both ends.\<close>

definition white_space :: "bytes list" where
  "white_space = map encode_rune
     ([0x09, 0x0A, 0x0B, 0x0C, 0x0D, 0x20, 0x85, 0xA0, 0x1680, 0x2000, 0x2001, 0x2002, 0x2003, 0x2004, 0x2005,
       0x2006, 0x2007, 0x2008, 0x2009, 0x200A, 0x2028, 0x2029, 0x202F, 0x205F, 0x3000])"

function strip_any :: "bytes list \<Rightarrow> bytes \<Rightarrow> bytes" where
  "strip_any ws s =
     (case find (\<lambda>w. w \<noteq> [] \<and> take (length w) s = w) ws of
        None \<Rightarrow> s
      | Some w \<Rightarrow> strip_any ws (drop (length w) s))"
  by pat_completeness auto
termination
proof (relation "measure (length \<circ> snd)")
  fix ws :: "bytes list" and s w
  assume "find (\<lambda>w. w \<noteq> [] \<and> take (length w) s = w) ws = Some w"
  then have "w \<noteq> [] \<and> take (length w) s = w" by (auto simp: find_Some_iff)
  then show "((ws, drop (length w) s), ws, s) \<in> measure (length \<circ> snd)" by (cases s) auto
qed simp

declare strip_any.simps [simp del]

definition TrimSpace :: "bytes \<Rightarrow> bytes" where
  "TrimSpace s = rev (strip_any (map rev white_space) (rev (strip_any white_space s)))"

fun Split :: "char \<Rightarrow> bytes \<Rightarrow> bytes list" where
  "Split sep [] = [[]]"
| "Split sep (c # s) = (if c = sep then [] # Split sep s else (c # hd (Split sep s)) # tl (Split sep s))"

text \<open>A line that is blank, a comment or malformed gives no row.\<close>

definition csv_row :: "bytes \<Rightarrow> backfillRow option" where
  "csv_row text =
     (let line = TrimSpace text in
      if line = [] \<or> hd line = CHR ''#'' then None
      else let parts = Split (CHR '','') line in
        if length parts < 2 then None
        else case ParseInt (TrimSpace (parts ! 0)) of
          None \<Rightarrow> None
        | Some did \<Rightarrow>
            Some \<lparr>br_DscID = did, br_Username = TrimSpace (parts ! 1),
              br_HasPosted =
                (length parts \<ge> 3 \<and> (let v = TrimSpace (parts ! 2) in v = ''true'' \<or> v = ''1'' \<or> v = ''yes''))\<rparr>)"

definition streamStdin :: "bytes \<Rightarrow> backfillRow list" where
  "streamStdin stdin = List.map_filter csv_row (scan_lines stdin)"

subsection \<open>Rows from the Discourse API\<close>

record discourseUser =
  du_ID :: int
  du_Username :: bytes
  du_PostCount :: int
  du_Active :: bool
  du_Approved :: bool

definition discourse_user_field :: "discourseUser \<Rightarrow> bytes \<Rightarrow> json \<Rightarrow> discourseUser option" where
  "discourse_user_field u k v =
     (if field_is ''id'' k then map_option (\<lambda>x. u\<lparr>du_ID := x\<rparr>) (dec_int64 (du_ID u) v)
      else if field_is ''username'' k then map_option (\<lambda>x. u\<lparr>du_Username := x\<rparr>) (dec_string (du_Username u) v)
      else if field_is ''post_count'' k then map_option (\<lambda>x. u\<lparr>du_PostCount := x\<rparr>) (dec_int64 (du_PostCount u) v)
      else if field_is ''active'' k then map_option (\<lambda>x. u\<lparr>du_Active := x\<rparr>) (dec_bool (du_Active u) v)
      else if field_is ''approved'' k then map_option (\<lambda>x. u\<lparr>du_Approved := x\<rparr>) (dec_bool (du_Approved u) v)
      else Some u)"

definition page_users :: "bytes \<Rightarrow> discourseUser list option" where
  "page_users =
     Decode_slice (decode_struct discourse_user_field)
       \<lparr>du_ID = 0, du_Username = [], du_PostCount = 0, du_Active = False, du_Approved = False\<rparr>"

definition api_row :: "discourseUser \<Rightarrow> backfillRow option" where
  "api_row u =
     (if \<not> du_Active u \<or> \<not> du_Approved u then None
      else Some \<lparr>br_DscID = du_ID u, br_Username = du_Username u, br_HasPosted = 0 < du_PostCount u\<rparr>)"

text \<open>
  \<open>pages p\<close> is what Discourse answers for page \<open>p\<close>, \<open>None\<close> if the request fails, else a status and
  a body. The pages need not end; \<open>n\<close> is the number of pages that are fetched until the process ends.
\<close>

primrec streamDiscourseAPI :: "(nat \<Rightarrow> (int \<times> bytes) option) \<Rightarrow> nat \<Rightarrow> nat \<Rightarrow> backfillRow list" where
  "streamDiscourseAPI pages page 0 = []"
| "streamDiscourseAPI pages page (Suc n) =
     (case pages page of
        None \<Rightarrow> []
      | Some (st, body) \<Rightarrow>
          (if st \<noteq> 200 then []
           else case page_users body of
             None \<Rightarrow> []
           | Some users \<Rightarrow>
               if users = [] then []
               else List.map_filter api_row users @ streamDiscourseAPI pages (Suc page) n))"

subsection \<open>The payments\<close>

definition payIfNotAlready ::
  "(bytes \<Rightarrow> bytes \<Rightarrow> bytes \<Rightarrow> bool) \<Rightarrow> (bytes \<Rightarrow> bytes \<Rightarrow> bytes) \<Rightarrow> RewardService \<Rightarrow> int \<Rightarrow> pgdb \<Rightarrow>
   bytes \<Rightarrow> bytes \<Rightarrow> int \<Rightarrow> bytes \<Rightarrow> bool \<Rightarrow> (err + bool) \<times> pgdb" where
  "payIfNotAlready ed sign svc now db eventType eventKey dscID username dryRun =
     (case GetRewardAmount db eventType of (amount, enabled) \<Rightarrow>
        (if \<not> enabled \<or> amount \<le> 0 then (Inr False, db)
         else if dryRun then (Inr True, db)
         else case PayRewardOnce ed sign svc now db eventType eventKey dscID username (''backfill:'' @ eventType) of
           (Inl e, db) \<Rightarrow> (Inl e, db)
         | (Inr result, db) \<Rightarrow> (Inr (pr_Paid result), db)))"

record totals =
  to_count :: nat
  to_paidSignup :: nat
  to_paidFirstPost :: nat
  to_skipped :: nat
  to_stderr :: "(int \<times> bytes \<times> err) list"

definition no_totals :: totals where
  "no_totals = \<lparr>to_count = 0, to_paidSignup = 0, to_paidFirstPost = 0, to_skipped = 0, to_stderr = []\<rparr>"

definition report :: "int \<Rightarrow> bytes \<Rightarrow> err \<Rightarrow> totals \<Rightarrow> totals" where
  "report uid eventType e t = t\<lparr>to_stderr := to_stderr t @ [(uid, eventType, e)]\<rparr>"

text \<open>
  The body of the loop after the count of the row; \<open>clock k\<close> is the time of the database when the
  \<open>k\<close>-th payment starts, two for each row.
\<close>

definition distribute_row ::
  "(bytes \<Rightarrow> bytes \<Rightarrow> bytes \<Rightarrow> bool) \<Rightarrow> (bytes \<Rightarrow> bytes \<Rightarrow> bytes) \<Rightarrow> RewardService \<Rightarrow> (nat \<Rightarrow> int) \<Rightarrow> bool \<Rightarrow> bool \<Rightarrow>
   backfillRow \<Rightarrow> totals \<Rightarrow> pgdb \<Rightarrow> totals \<times> pgdb" where
  "distribute_row ed sign svc clock dryRun includeFirstPost row t db =
     (if br_DscID row \<le> 0 \<or> br_Username row = [] then (t, db)
      else case payIfNotAlready ed sign svc (clock (2 * to_count t)) db EventSignupBonus (user_key (br_DscID row))
             (br_DscID row) (br_Username row) dryRun of
        (Inl e, db) \<Rightarrow> (report (br_DscID row) EventSignupBonus e t, db)
      | (Inr paid, db) \<Rightarrow>
          (let t = (if paid then t\<lparr>to_paidSignup := to_paidSignup t + 1\<rparr> else t\<lparr>to_skipped := to_skipped t + 1\<rparr>)
           in if includeFirstPost \<and> br_HasPosted row then
             (case payIfNotAlready ed sign svc (clock (2 * to_count t + 1)) db EventFirstPostEver (user_key (br_DscID row))
                    (br_DscID row) (br_Username row) dryRun of
                (Inl e, db) \<Rightarrow> (report (br_DscID row) EventFirstPostEver e t, db)
              | (Inr paid2, db) \<Rightarrow>
                  ((if paid2 then t\<lparr>to_paidFirstPost := to_paidFirstPost t + 1\<rparr> else t), db))
           else (t, db)))"

fun distribute ::
  "(bytes \<Rightarrow> bytes \<Rightarrow> bytes \<Rightarrow> bool) \<Rightarrow> (bytes \<Rightarrow> bytes \<Rightarrow> bytes) \<Rightarrow> RewardService \<Rightarrow> (nat \<Rightarrow> int) \<Rightarrow> int \<Rightarrow> bool \<Rightarrow> bool \<Rightarrow>
   backfillRow list \<Rightarrow> totals \<Rightarrow> pgdb \<Rightarrow> totals \<times> pgdb" where
  "distribute ed sign svc clock maxUsers dryRun includeFirstPost [] t db = (t, db)"
| "distribute ed sign svc clock maxUsers dryRun includeFirstPost (row # rows) t db =
     (if 0 < maxUsers \<and> maxUsers \<le> int (to_count t) then (t, db)
      else case distribute_row ed sign svc clock dryRun includeFirstPost row (t\<lparr>to_count := to_count t + 1\<rparr>) db of
        (t, db) \<Rightarrow> distribute ed sign svc clock maxUsers dryRun includeFirstPost rows t db)"

record distributeFlags =
  fl_stdinMode :: bool
  fl_apiURL :: bytes
  fl_apiKey :: bytes
  fl_maxUsers :: int
  fl_dryRun :: bool
  fl_includeFirstPost :: bool

definition distribute_service :: "(bytes \<Rightarrow> bytes) \<Rightarrow> err + RewardService" where
  "distribute_service env =
     (let privHex = (if env ''REWARD_PRIV_KEY_HEX'' = [] then env ''ADMIN_PRIV_KEY_HEX'' else env ''REWARD_PRIV_KEY_HEX'')
      in if env ''DATABASE_URL'' = [] then Inl (Errorf ''DATABASE_URL is required'')
         else if privHex = [] then Inl (Errorf ''REWARD_PRIV_KEY_HEX is required'')
         else and_then (private_key privHex) (\<lambda>adminPriv.
           Inr \<lparr>rs_AdminPrivKey = adminPriv, rs_AdminPubKey = Public adminPriv, rs_WebhookSecret = []\<rparr>))"

definition cmdDistribute ::
  "(bytes \<Rightarrow> bytes \<Rightarrow> bytes \<Rightarrow> bool) \<Rightarrow> (bytes \<Rightarrow> bytes \<Rightarrow> bytes) \<Rightarrow> (bytes \<Rightarrow> bytes) \<Rightarrow> distributeFlags \<Rightarrow> (nat \<Rightarrow> int) \<Rightarrow>
   bytes \<Rightarrow> (nat \<Rightarrow> (int \<times> bytes) option) \<Rightarrow> nat \<Rightarrow> pgdb \<Rightarrow> err + totals \<times> pgdb" where
  "cmdDistribute ed sign env fl clock stdin pages n db =
     and_then (distribute_service env) (\<lambda>svc.
       let run = (\<lambda>feed. Inr (distribute ed sign svc clock (fl_maxUsers fl) (fl_dryRun fl) (fl_includeFirstPost fl)
                    feed no_totals db))
       in if fl_stdinMode fl then run (streamStdin stdin)
          else if fl_apiURL fl \<noteq> [] then
            (if fl_apiKey fl = [] then Inl (Errorf ''--api-key required for --discourse-api mode'')
             else run (streamDiscourseAPI pages 1 n))
          else Inl (Errorf ''specify --stdin or --discourse-api <url>''))"

end
