(* ===== verification/History.thy ===== *)
theory History
  imports Api Admin
begin

text \<open>
  The queries that list transactions: \<open>PGStore.UserHistory\<close> of \<open>internal/store/pgstore.go\<close>, its adapter
  in \<open>cmd/ledger-sidecar/main.go\<close>, the handler \<open>history\<close> of \<open>internal/api/server.go\<close>, and \<open>recentTxs\<close> and
  \<open>getRewardConfig\<close> of \<open>internal/admin/server.go\<close>. The query casts a payload to \<open>jsonb\<close> inside PostgreSQL:
  \<open>jsonb p\<close> is what comes of it, \<open>None\<close> if the cast fails, else the text of the member \<open>meta\<close>, if there is
  one. The columns \<open>created_at\<close> and \<open>updated_at\<close> are not modelled. In the JSON of a \<open>meta\<close> a number
  stands as it was read, where the encoder writes the float that it denotes.
\<close>

section \<open>UserHistory\<close>

record HistoryRow =
  hr_LeafIndex :: int
  hr_TxType :: bytes
  hr_Amount :: int
  hr_FromDscID :: int
  hr_ToDscID :: int
  hr_SignerHex :: bytes
  hr_CounterpartyName :: bytes
  hr_Meta :: bytes
  hr_TxHashHex :: bytes

text \<open>\<open>convert_from(payload, 'UTF8')::jsonb -> 'meta'\<close>\<close>

definition payload_meta :: "(bytes \<Rightarrow> bytes option option) \<Rightarrow> bytes \<Rightarrow> bytes option option" where
  "payload_meta jsonb payload = (if text_ok payload then jsonb payload else None)"

text \<open>The condition of the query. A user without a key has signed nothing: the comparison is \<open>NULL\<close>.\<close>

definition history_match :: "pgdb \<Rightarrow> int \<Rightarrow> TxRow \<Rightarrow> bool" where
  "history_match db uid r \<longleftrightarrow>
     (Type r = TxTransfer \<or> Type r = TxRotateKey) \<and>
     ((case map_of (accounts db) uid of
         Some a \<Rightarrow> (case Pubkey a of Some k \<Rightarrow> Signer r = k | None \<Rightarrow> False)
       | None \<Rightarrow> False) \<or>
      tr_to_discourse_id r = Some uid)"

definition from_row :: "pgdb \<Rightarrow> TxRow \<Rightarrow> (int \<times> Account) option" where
  "from_row db r = find (\<lambda>(d, a). Pubkey a = Some (Signer r)) (accounts db)"

definition to_row :: "pgdb \<Rightarrow> TxRow \<Rightarrow> Account option" where
  "to_row db r = (case tr_to_discourse_id r of None \<Rightarrow> None | Some d \<Rightarrow> map_of (accounts db) d)"

definition coalesce :: "'a option \<Rightarrow> 'a \<Rightarrow> 'a" where
  "coalesce v d = (case v of None \<Rightarrow> d | Some x \<Rightarrow> x)"

definition history_row :: "(bytes \<Rightarrow> bytes option option) \<Rightarrow> pgdb \<Rightarrow> int \<Rightarrow> TxRow \<Rightarrow> HistoryRow option" where
  "history_row jsonb db uid r =
     map_option
       (\<lambda>meta.
         let fromDscID = coalesce (map_option fst (from_row db r)) (-1);
             toName = coalesce (map_option Username (to_row db r)) [];
             fromName = coalesce (map_option (\<lambda>(d, a). Username a) (from_row db r)) []
         in \<lparr>hr_LeafIndex = LeafIndex r, hr_TxType = Type r, hr_Amount = coalesce (tr_amount r) 0,
             hr_FromDscID = fromDscID, hr_ToDscID = coalesce (tr_to_discourse_id r) (-1),
             hr_SignerHex = hex_encode (Signer r),
             hr_CounterpartyName = (if fromDscID = uid then toName else fromName),
             hr_Meta = coalesce meta [], hr_TxHashHex = hex_encode (TxHash r)\<rparr>)
       (payload_meta jsonb (Payload r))"

text \<open>
  \<open>early\<close>: whether PostgreSQL computes the columns before it cuts the result to the limit, which SQL
  leaves open; then a payload beyond the limit fails the query too.
\<close>

definition UserHistory :: "(bytes \<Rightarrow> bytes option option) \<Rightarrow> bool \<Rightarrow> pgdb \<Rightarrow> int \<Rightarrow> int \<Rightarrow> err + HistoryRow list" where
  "UserHistory jsonb early db uid limit =
     (let rows = sort_key (\<lambda>r. - LeafIndex r) (filter (history_match db uid) (transactions db));
          computed = (if early then rows else take (nat limit) rows)
      in case those (map (history_row jsonb db uid) computed) of
           None \<Rightarrow> Inl (pg_error ''invalid input syntax for type json'')
         | Some hs \<Rightarrow> Inr (take (nat limit) hs))"

section \<open>The history of a user\<close>

record HistoryEntry =
  he_LeafIndex :: int
  he_TxType :: bytes
  he_Kind :: bytes
  he_Amount :: int
  he_FromDiscourseID :: int
  he_ToDiscourseID :: int
  he_CounterpartyName :: bytes
  he_Meta :: "(bytes \<times> json) list"
  he_TxHashHex :: bytes

text \<open>
  A value decoded into an \<open>any\<close> with the error ignored: a number out of the range of a float is \<open>nil\<close>.
\<close>

fun any_value :: "json \<Rightarrow> json" where
  "any_value (JNum l) = (if float_in_range l then JNum l else JNull)"
| "any_value (JArr vs) = JArr (map any_value vs)"
| "any_value (JObj ms) = JObj (foldl (\<lambda>m (k, x). AList.update k x m) [] (map (\<lambda>(k, x). (k, any_value x)) ms))"
| "any_value v = v"

definition meta_map :: "bytes \<Rightarrow> (bytes \<times> json) list" where
  "meta_map meta =
     (if meta = [] then []
      else case json_parse meta of
        Some (JObj ms) \<Rightarrow> (case any_value (JObj ms) of JObj m \<Rightarrow> m | _ \<Rightarrow> [])
      | _ \<Rightarrow> [])"

definition history_entry :: "int \<Rightarrow> HistoryRow \<Rightarrow> HistoryEntry" where
  "history_entry uid r =
     \<lparr>he_LeafIndex = hr_LeafIndex r, he_TxType = hr_TxType r,
      he_Kind = (if hr_TxType r = ''rotate_key'' then ''rotate_key''
                 else if hr_FromDscID r = uid then ''sent''
                 else if hr_ToDscID r = uid then ''received''
                 else ''other''),
      he_Amount = hr_Amount r, he_FromDiscourseID = hr_FromDscID r, he_ToDiscourseID = hr_ToDscID r,
      he_CounterpartyName = hr_CounterpartyName r, he_Meta = meta_map (hr_Meta r), he_TxHashHex = hr_TxHashHex r\<rparr>"

definition adapter_UserHistory ::
  "(bytes \<Rightarrow> bytes option option) \<Rightarrow> bool \<Rightarrow> pgdb \<Rightarrow> int \<Rightarrow> int \<Rightarrow> err + HistoryEntry list" where
  "adapter_UserHistory jsonb early db uid limit =
     and_then (UserHistory jsonb early db uid limit) (\<lambda>rows. Inr (map (history_entry uid) rows))"

definition entry_json :: "HistoryEntry \<Rightarrow> json" where
  "entry_json e =
     JObj ([(''leaf_index'', enc_int (he_LeafIndex e)), (''tx_type'', JStr (he_TxType e)), (''kind'', JStr (he_Kind e)),
            (''amount'', enc_int (he_Amount e)), (''from_discourse_id'', enc_int (he_FromDiscourseID e)),
            (''to_discourse_id'', enc_int (he_ToDiscourseID e)),
            (''counterparty_name'', JStr (he_CounterpartyName e))] @
           (if he_Meta e = [] then [] else [(''meta'', JObj (he_Meta e))]) @
           [(''tx_hash_hex'', JStr (he_TxHashHex e))])"

text \<open>\<open>query\<close> is the \<open>HistoryQuerier\<close> of the server, if it has one.\<close>

definition history :: "(int \<Rightarrow> int \<Rightarrow> err + HistoryEntry list) option \<Rightarrow> bytes \<Rightarrow> request \<Rightarrow> response" where
  "history query idStr rq =
     (case query of
        None \<Rightarrow> Fail 501 (Errorf ''history not enabled'')
      | Some q \<Rightarrow>
          (case ParseInt idStr of
             None \<Rightarrow> Fail 400 (Errorf ''bad discourse_id'')
           | Some uid \<Rightarrow>
               (if uid < TreasuryDscID then Fail 400 (Errorf ''bad discourse_id'')
                else case q uid (limit_param 50 200 (rq_query rq ''limit'')) of
                  Inl e \<Rightarrow> Fail 500 e
                | Inr entries \<Rightarrow>
                    Reply 200 (JObj [(''discourse_id'', enc_int uid), (''count'', enc_int (int (length entries))),
                      (''entries'', JArr (map entry_json entries))]))))"

section \<open>The lists of the admin page\<close>

definition recent_row :: "pgdb \<Rightarrow> TxRow \<Rightarrow> json" where
  "recent_row db r =
     JObj [(''leaf_index'', enc_int (LeafIndex r)), (''tx_type'', JStr (Type r)),
       (''amount'', enc_int (coalesce (tr_amount r) 0)),
       (''from_did'', enc_int (coalesce (map_option fst (from_row db r)) (-1))),
       (''from_name'', JStr (coalesce (map_option (\<lambda>(d, a). Username a) (from_row db r)) [])),
       (''to_did'', enc_int (coalesce (tr_to_discourse_id r) (-1))),
       (''to_name'', JStr (coalesce (map_option Username (to_row db r)) [])),
       (''reward_source'', JStr (coalesce (tr_reward_source r) [])),
       (''tx_hash_hex'', enc_hex (TxHash r))]"

definition recentTxs :: "pgdb \<Rightarrow> response" where
  "recentTxs db =
     (let out = map (recent_row db) (take 25 (sort_key (\<lambda>r. - LeafIndex r) (transactions db)))
      in Reply 200 (JObj [(''count'', enc_int (int (length out))), (''entries'', JArr out)]))"

text \<open>The order of the event types is that of the collation of the database: \<open>rank\<close>.\<close>

definition getRewardConfig :: "(bytes \<Rightarrow> nat) \<Rightarrow> pgdb \<Rightarrow> response" where
  "getRewardConfig rank db =
     Reply 200 (JArr (map (\<lambda>(ty, amount, enabled).
       JObj [(''event_type'', JStr ty), (''amount'', enc_int amount), (''enabled'', JBool enabled)])
       (sort_key (\<lambda>(ty, amount, enabled). rank ty) (reward_config db))))"

end
