(* ===== verification/RateLimit.thy ===== *)
theory RateLimit
  imports Complex_Main AdminCli "HOL-Library.Signed_Division"
begin

text \<open>
  \<open>internal/api/security.go\<close>: the rate limiter, one token bucket per client, with its middleware and the
  key of a client. The tokens are \<open>float64\<close>: a rational number, rounded to 53 significant bits after each
  operation, as on amd64; Go lets other platforms fuse a product and a sum into one rounding. Times are
  nanoseconds of the monotonic clock, read before the lock is taken. The second half shows how many requests
  of a client get through, and that a client can choose to be a new one with every request.
\<close>

section \<open>Floating point\<close>

fun log2 :: "nat \<Rightarrow> nat" where
  "log2 n = (if n < 2 then 0 else Suc (log2 (n div 2)))"

declare log2.simps [simp del]

text \<open>The exponent of a positive number, the largest \<open>k\<close> with $2^k \le x$.\<close>

definition float_exp :: "rat \<Rightarrow> int" where
  "float_exp x =
     (case quotient_of x of (n, d) \<Rightarrow>
        let k = int (log2 (nat n)) - int (log2 (nat d)) in if 2 powi k \<le> x then k else k - 1)"

definition half_even :: "rat \<Rightarrow> int" where
  "half_even x =
     (let f = \<lfloor>x\<rfloor>; r = x - of_int f in if r < 1 / 2 \<or> (r = 1 / 2 \<and> even f) then f else f + 1)"

text \<open>Rounding to the nearest \<open>float64\<close>; no value of the limiter is subnormal or overflows.\<close>

definition float64 :: "rat \<Rightarrow> rat" where
  "float64 x =
     (if x = 0 then 0
      else let e = float_exp \<bar>x\<bar> - 52 in sgn x * of_int (half_even (\<bar>x\<bar> / 2 powi e)) * 2 powi e)"

definition Second :: int where "Second = 1000000000"
definition Minute :: int where "Minute = 60 * Second"

text \<open>\<open>Duration.Seconds\<close>\<close>

definition Seconds :: "int \<Rightarrow> rat" where
  "Seconds d = float64 (float64 (of_int (d sdiv Second)) + float64 (float64 (of_int (d smod Second)) / 1000000000))"

section \<open>The limiter\<close>

definition defaultRateLimitPerMinute :: int where "defaultRateLimitPerMinute = 600"
definition defaultRateLimitBurst :: int where "defaultRateLimitBurst = 120"

record rateBucket =
  tokens :: rat
  rb_last :: int

record rateLimiter =
  rate :: rat
  burst :: rat
  buckets :: "bytes \<Rightarrow> rateBucket option"
  lastTrim :: int

definition newRateLimiter :: "int \<Rightarrow> int \<Rightarrow> int \<Rightarrow> rateLimiter" where
  "newRateLimiter perMinute bst now =
     (let perMinute = (if perMinute \<le> 0 then defaultRateLimitPerMinute else perMinute);
          bst = (if bst \<le> 0 then defaultRateLimitBurst else bst)
      in \<lparr>rate = float64 (float64 (of_int perMinute) / 60), burst = float64 (of_int bst),
          buckets = Map.empty, lastTrim = now\<rparr>)"

definition trim :: "int \<Rightarrow> rateLimiter \<Rightarrow> rateLimiter" where
  "trim now l =
     (if now - lastTrim l > 5 * Minute then
        l\<lparr>buckets := (\<lambda>k. case buckets l k of
            None \<Rightarrow> None
          | Some b \<Rightarrow> if now - rb_last b > 10 * Minute then None else Some b),
          lastTrim := now\<rparr>
      else l)"

definition allow :: "rateLimiter \<Rightarrow> int \<Rightarrow> bytes \<Rightarrow> bool \<times> rateLimiter" where
  "allow l now key =
     (let l = trim now l
      in case buckets l key of
           None \<Rightarrow> (True, l\<lparr>buckets := (buckets l)(key \<mapsto> \<lparr>tokens = float64 (burst l - 1), rb_last = now\<rparr>)\<rparr>)
         | Some b \<Rightarrow>
             (let t = float64 (tokens b + float64 (Seconds (now - rb_last b) * rate l));
                  t = (if t > burst l then burst l else t)
              in if t < 1 then (False, l\<lparr>buckets := (buckets l)(key \<mapsto> \<lparr>tokens = t, rb_last = now\<rparr>)\<rparr>)
                 else (True, l\<lparr>buckets := (buckets l)(key \<mapsto> \<lparr>tokens = float64 (t - 1), rb_last = now\<rparr>)\<rparr>)))"

section \<open>Whose rate is limited\<close>

definition has_prefix :: "bytes \<Rightarrow> bytes \<Rightarrow> bool" where
  "has_prefix p s \<longleftrightarrow> take (length p) s = p"

definition rateLimitExempt :: "bytes \<Rightarrow> bool" where
  "rateLimitExempt path \<longleftrightarrow>
     path = ''/api/v1/health'' \<or> has_prefix ''/admin/static/'' path \<or> has_prefix ''/explorer/static/'' path"

text \<open>The host of \<open>net.SplitHostPort\<close>, \<open>None\<close> for its errors.\<close>

definition SplitHost :: "bytes \<Rightarrow> bytes option" where
  "SplitHost hostport =
     (case split2 (CHR '':'') (rev hostport) of
        None \<Rightarrow> None
      | Some (rport, rhost) \<Rightarrow>
          (if take 1 hostport = ''['' then
             (case split2 (CHR '']'') (tl hostport) of
                None \<Rightarrow> None
              | Some (host, rest) \<Rightarrow>
                  (if rest \<noteq> CHR '':'' # rev rport then None
                   else if CHR ''['' \<in> set (tl hostport) \<or> CHR '']'' \<in> set rest then None else Some host))
           else if CHR '':'' \<in> set rhost \<or> CHR ''['' \<in> set hostport \<or> CHR '']'' \<in> set hostport then None
           else Some (rev rhost)))"

definition clientIP :: "bytes \<Rightarrow> request \<Rightarrow> bytes" where
  "clientIP remoteAddr rq =
     (let xff = rq_header rq ''X-Forwarded-For''; ip = TrimSpace (hd (Split (CHR '','') xff))
      in if xff \<noteq> [] \<and> ip \<noteq> [] then ip
         else case SplitHost remoteAddr of
           Some host \<Rightarrow> if host \<noteq> [] then host else remoteAddr
         | None \<Rightarrow> remoteAddr)"

text \<open>\<open>rateLimitMiddleware\<close>: the request goes on to \<open>next\<close>, or is answered 429.\<close>

definition rateLimitMiddleware ::
  "rateLimiter \<Rightarrow> int \<Rightarrow> bytes \<Rightarrow> (request \<Rightarrow> response) \<Rightarrow> request \<Rightarrow> response \<times> rateLimiter" where
  "rateLimitMiddleware l now remoteAddr next_handler rq =
     (if rateLimitExempt (rq_path rq) then (next_handler rq, l)
      else case allow l now (clientIP remoteAddr rq) of
        (False, l) \<Rightarrow> (Fail 429 (Errorf ''rate limit exceeded''), l)
      | (True, l) \<Rightarrow> (next_handler rq, l))"

section \<open>The rounding error\<close>

lemma log2_bounds: "0 < n \<Longrightarrow> 2 ^ log2 n \<le> n \<and> n < 2 ^ Suc (log2 n)"
proof (induction n rule: log2.induct)
  case (1 n)
  show ?case
  proof (cases "n < 2")
    case True
    then show ?thesis using 1(2) by (simp add: log2.simps [of n])
  next
    case False
    then have "2 ^ log2 (n div 2) \<le> n div 2 \<and> n div 2 < 2 ^ Suc (log2 (n div 2))" using 1(1) by simp
    then have "2 ^ Suc (log2 (n div 2)) \<le> n \<and> n < 2 ^ Suc (Suc (log2 (n div 2)))" by auto
    then show ?thesis using False by (simp add: log2.simps [of n])
  qed
qed

lemma float_exp_le:
  assumes "0 < x"
  shows "2 powi float_exp x \<le> x"
proof -
  obtain n d where q: "quotient_of x = (n, d)" by fastforce
  have x: "x = of_int n / of_int d" and d: "0 < d"
    using quotient_of_div [OF q] quotient_of_denom_pos [OF q] by simp_all
  with assms have n: "0 < n" by (simp add: zero_less_divide_iff)
  define a b where "a = log2 (nat n)" and "b = log2 (nat d)"
  have "2 ^ a \<le> nat n" "nat d < 2 ^ Suc b"
    unfolding a_def b_def using log2_bounds [of "nat n"] log2_bounds [of "nat d"] n d by (meson zero_less_nat_eq)+
  then have "int (2 ^ a) \<le> n" "d \<le> int (2 ^ Suc b)" using n d by linarith+
  then have "(2::int) ^ a \<le> n" "d \<le> 2 ^ Suc b" by simp_all
  then have ab: "(2::rat) ^ a \<le> of_int n" "of_int d \<le> (2::rat) ^ Suc b"
    by (metis of_int_le_iff of_int_numeral of_int_power)+
  have "2 powi (int a - int b - 1) = (2::rat) ^ a / 2 ^ Suc b"
    by (simp add: power_int_diff power_int_add field_simps)
  also have "\<dots> \<le> of_int n / of_int d" using ab n d by (intro frac_le) auto
  finally have "2 powi (int a - int b - 1) \<le> x" unfolding x .
  then show ?thesis by (simp add: float_exp_def q Let_def a_def b_def)
qed

lemma half_even_bounds: "of_int (half_even x) \<le> x + 1 / 2" "0 \<le> x \<Longrightarrow> 0 \<le> half_even x"
proof -
  have "of_int \<lfloor>x\<rfloor> \<le> x" by (rule of_int_floor_le)
  then show "of_int (half_even x) \<le> x + 1 / 2" by (auto simp only: half_even_def Let_def of_int_add of_int_1 split: if_split)+
  show "0 \<le> half_even x" if "0 \<le> x"
    using that by (auto simp: half_even_def Let_def)
qed

text \<open>Rounding keeps the sign and adds at most one part in $2^{53}$.\<close>

lemma float64_bounds:
  assumes "0 \<le> x"
  shows "0 \<le> float64 x" "float64 x \<le> x * (1 + 1 / 2 ^ 53)"
proof -
  have "0 \<le> float64 x \<and> float64 x \<le> x * (1 + 1 / 2 ^ 53)"
  proof (cases "x = 0")
    case False
    with assms have x: "0 < x" by simp
    define e :: rat where "e = 2 powi (float_exp x - 52)"
    have e: "0 < e" by (simp add: e_def)
    have "e * 2 ^ 52 \<le> x"
      using float_exp_le [OF x] by (simp add: e_def power_int_diff)
    then have half: "e / 2 \<le> x / 2 ^ 53" by simp
    have "of_int (half_even (x / e)) * e \<le> (x / e + 1 / 2) * e"
      using half_even_bounds(1) e by (intro mult_right_mono) auto
    also have "\<dots> = x + e / 2" using e by (simp add: distrib_right)
    finally have "of_int (half_even (x / e)) * e \<le> x * (1 + 1 / 2 ^ 53)" using half by (simp add: distrib_left)
    moreover have "0 \<le> of_int (half_even (x / e)) * e"
      using half_even_bounds(2) [of "x / e"] e x by (intro mult_nonneg_nonneg) auto
    ultimately show ?thesis using x by (simp add: float64_def Let_def e_def)
  qed (simp add: float64_def)
  then show "0 \<le> float64 x" "float64 x \<le> x * (1 + 1 / 2 ^ 53)" by simp_all
qed

lemma float64_neg: "x \<le> 0 \<Longrightarrow> float64 x \<le> 0"
proof -
  assume "x \<le> 0"
  then have "sgn x \<le> 0" by (simp add: sgn_if)
  moreover have "0 \<le> half_even (\<bar>x\<bar> / 2 powi (float_exp \<bar>x\<bar> - 52))" by (intro half_even_bounds(2)) simp
  ultimately show "float64 x \<le> 0"
    by (auto simp: float64_def Let_def mult_le_0_iff zero_le_mult_iff)
qed

text \<open>Whole numbers of at most 53 bits are exact.\<close>

lemma float64_int:
  assumes "0 < n" "n < 2 ^ 53"
  shows "float64 (of_int n) = of_int n"
proof -
  let ?x = "of_int n :: rat" and ?e = "float_exp (of_int n) - 52"
  have "?x < 2 ^ 53" using assms(2) by (metis of_int_less_iff of_int_numeral of_int_power)
  then have less: "2 powi float_exp ?x < (2 powi 53 :: rat)" using float_exp_le [of ?x] assms(1) by simp
  have "?e \<le> 0"
  proof (rule ccontr)
    assume "\<not> ?e \<le> 0"
    then have "(2 powi 53 :: rat) \<le> 2 powi float_exp ?x" by (intro power_int_increasing) auto
    with less show False by simp
  qed
  then have "2 powi ?e = inverse ((2 :: rat) ^ nat (- ?e))" by (auto simp: power_int_def inverse_eq_divide power_one_over)
  then have q: "?x / 2 powi ?e = of_int (n * 2 ^ nat (- ?e))" by (simp add: field_simps)
  have "half_even (?x / 2 powi ?e) = n * 2 ^ nat (- ?e)" unfolding q by (simp only: half_even_def floor_of_int Let_def) simp
  then have "of_int (half_even (?x / 2 powi ?e)) * 2 powi ?e = ?x" using q by (metis nonzero_eq_divide_eq power_int_eq_0_iff zero_neq_numeral)
  then show ?thesis using assms(1) by (simp add: float64_def Let_def)
qed

section \<open>How many requests get through\<close>

abbreviation (input) err1 :: rat where "err1 \<equiv> 1 + 1 / 2 ^ 53"

lemma float64_le: "0 \<le> x \<Longrightarrow> x \<le> y \<Longrightarrow> float64 x \<le> y * err1"
  using float64_bounds(2) [of x] by (meson mult_right_mono order_trans zero_le_divide_1_iff zero_le_numeral zero_le_power add_nonneg_nonneg zero_le_one)

lemma Seconds_bounds:
  assumes "0 \<le> d"
  shows "0 \<le> Seconds d" "Seconds d \<le> of_int d / 1000000000 * err1 ^ 3"
proof -
  define s n :: rat where "s = of_int (d div Second)" and "n = of_int (d mod Second)"
  have d: "of_int d = s * 1000000000 + n"
    unfolding s_def n_def by (metis Second_def div_mult_mod_eq of_int_add of_int_mult of_int_numeral)
  have nonneg: "0 \<le> s" "0 \<le> n" using assms by (simp_all add: s_def n_def Second_def)
  have "Seconds d = float64 (float64 s + float64 (float64 n / 1000000000))"
    using assms by (cases "d = 0") (simp_all add: Seconds_def s_def n_def Second_def signed_divide_int_def signed_modulo_int_def)
  moreover have "float64 s \<le> s * err1 * err1"
    using float64_bounds(2) [OF nonneg(1)] nonneg(1) by simp
  moreover have "float64 (float64 n / 1000000000) \<le> n / 1000000000 * err1 * err1"
    using float64_le [of "float64 n / 1000000000" "n / 1000000000 * err1"] float64_bounds [OF nonneg(2)] by simp
  moreover have pos: "0 \<le> float64 s" "0 \<le> float64 (float64 n / 1000000000)"
    using float64_bounds(1) nonneg by simp_all
  ultimately have "0 \<le> Seconds d \<and> Seconds d \<le> (s * err1 * err1 + n / 1000000000 * err1 * err1) * err1"
    using float64_bounds(1) float64_le by (metis add_mono add_nonneg_nonneg)
  then show "0 \<le> Seconds d" "Seconds d \<le> of_int d / 1000000000 * err1 ^ 3"
    by (simp_all add: d power3_eq_cube distrib_right add_divide_distrib mult.assoc)
qed

lemma Seconds_neg: "d \<le> 0 \<Longrightarrow> Seconds d \<le> 0"
proof -
  assume "d \<le> 0"
  then have "d sdiv Second \<le> 0" "d smod Second \<le> 0"
    by (auto simp: signed_divide_int_def signed_modulo_int_def Second_def sgn_if)
  then show "Seconds d \<le> 0"
    unfolding Seconds_def by (intro float64_neg add_nonpos_nonpos divide_nonpos_nonneg) (simp_all only: of_int_le_0_iff zero_le_numeral)
qed

text \<open>
  The tokens that come back in a nanosecond: those of the rate, up to rounding, or those of a bucket that
  is thrown away after ten minutes and made anew, whichever is more.
\<close>

definition pace :: "rateLimiter \<Rightarrow> rat" where
  "pace l = max (rate l * (1 + 1 / 2 ^ 50)) (burst l / 600) / 1000000000"

lemma refill_le:
  assumes "t \<le> t'" "0 \<le> t'" "t' \<le> B" "0 \<le> d" "0 \<le> r" "0 \<le> t + float64 (Seconds d * r)"
  shows "float64 (t + float64 (Seconds d * r)) \<le> t' + r * (1 + 1 / 2 ^ 50) / 1000000000 * of_int d + B / 2 ^ 53"
proof -
  have s: "0 \<le> Seconds d * r" "Seconds d * r \<le> of_int d / 1000000000 * err1 ^ 3 * r"
    by (rule mult_nonneg_nonneg [OF Seconds_bounds(1) [OF assms(4)] assms(5)],
        rule mult_right_mono [OF Seconds_bounds(2) [OF assms(4)] assms(5)])
  have f: "float64 (Seconds d * r) \<le> of_int d / 1000000000 * err1 ^ 3 * r * err1"
    using float64_le [OF s] .
  have "float64 (t + float64 (Seconds d * r)) \<le> (t' + of_int d / 1000000000 * err1 ^ 3 * r * err1) * err1"
    using f assms(1,6) by (intro float64_le) auto
  also have "\<dots> = t' + t' / 2 ^ 53 + of_int d * r / 1000000000 * err1 ^ 5"
    by (simp add: algebra_simps power_numeral_reduce)
  also have "\<dots> \<le> t' + B / 2 ^ 53 + of_int d * r / 1000000000 * (1 + 1 / 2 ^ 50)"
    using assms by (intro add_mono mult_left_mono divide_right_mono) (auto simp: power_divide)
  also have "\<dots> = t' + r * (1 + 1 / 2 ^ 50) / 1000000000 * of_int d + B / 2 ^ 53" by (simp add: field_simps)
  finally show ?thesis .
qed

lemma spend_le: "1 \<le> t \<Longrightarrow> t \<le> B \<Longrightarrow> 0 \<le> float64 (t - 1) \<and> float64 (t - 1) \<le> t - 1 + B / 2 ^ 53"
  using float64_bounds [of "t - 1"] by (simp add: algebra_simps)

text \<open>
  What a client can still spend at the time \<open>front\<close>, the latest that any request has read: its tokens
  and what has come back since, at most a whole burst.
\<close>

definition limiter_ok :: "rateLimiter \<Rightarrow> int \<Rightarrow> bool" where
  "limiter_ok l front \<longleftrightarrow> 0 \<le> rate l \<and> 1 \<le> burst l \<and> burst l \<le> 2 ^ 53 \<and>
     (\<forall>k b. buckets l k = Some b \<longrightarrow> tokens b \<le> burst l \<and> rb_last b \<le> front)"

definition credit :: "rateLimiter \<Rightarrow> bytes \<Rightarrow> int \<Rightarrow> rat" where
  "credit l key front =
     (case buckets l key of
        None \<Rightarrow> burst l
      | Some b \<Rightarrow> min (burst l) (max 0 (tokens b) + pace l * of_int (front - rb_last b)))"

lemma credit_le: "credit l key front \<le> burst l"
  by (simp add: credit_def split: option.split)

lemma pace_bounds:
  assumes "0 \<le> rate l" "1 \<le> burst l"
  shows "0 \<le> pace l" "rate l * (1 + 1 / 2 ^ 50) / 1000000000 \<le> pace l" "burst l \<le> pace l * 600000000000"
  using assms by (auto simp: pace_def max_def)

lemma credit_nonneg: "limiter_ok l front \<Longrightarrow> 0 \<le> credit l key front"
  using pace_bounds(1) [of l] by (auto simp: limiter_ok_def credit_def split: option.split intro!: add_nonneg_nonneg)

lemma credit_later:
  assumes "limiter_ok l front" "front \<le> front'"
  shows "credit l key front' \<le> credit l key front + pace l * of_int (front' - front)"
proof -
  have "0 \<le> pace l * of_int (front' - front)" using assms pace_bounds(1) [of l] by (simp add: limiter_ok_def)
  then show ?thesis by (auto simp: credit_def algebra_simps split: option.split)
qed

lemma trim_same: "rate (trim now l) = rate l" "burst (trim now l) = burst l" "pace (trim now l) = pace l"
  by (simp_all add: trim_def pace_def)

lemma trim_ok: "limiter_ok l front \<Longrightarrow> limiter_ok (trim now l) front"
  by (auto simp: limiter_ok_def trim_def split: option.splits if_splits)

lemma trim_credit:
  assumes "limiter_ok l front" "now \<le> front"
  shows "credit (trim now l) key front = credit l key front"
proof -
  have "burst l \<le> max 0 (tokens b) + pace l * of_int (front - rb_last b)"
    if b: "buckets l key = Some b" and old: "now - rb_last b > 10 * Minute" for b
  proof -
    have "0 \<le> rate l" "1 \<le> burst l" using assms(1) by (auto simp: limiter_ok_def)
    note p = pace_bounds [OF this]
    have "of_int 600000000000 \<le> (of_int (front - rb_last b) :: rat)"
      using old assms(2) by (subst of_int_le_iff) (simp add: Minute_def Second_def)
    then have "pace l * 600000000000 \<le> pace l * of_int (front - rb_last b)"
      using p(1) by (intro mult_left_mono) simp_all
    with p(3) show ?thesis by linarith
  qed
  then show ?thesis by (auto simp: trim_def credit_def min_def pace_def split: option.split)
qed

text \<open>
  What a bucket holds after the refill, at most: also if the clock of this request was read before that
  of the last one, which \<open>slack\<close> bounds.
\<close>

lemma refilled:
  assumes "limiter_ok l front" "now \<le> front" "front - slack \<le> now" "buckets l k = Some b"
    and "t = float64 (tokens b + float64 (Seconds (now - rb_last b) * rate l))"
  shows "max 0 (min (burst l) t) + pace l * of_int (front - now)
    \<le> credit l k front + burst l / 2 ^ 53 + pace l * of_int slack"
proof -
  have par: "0 \<le> rate l" "1 \<le> burst l" "tokens b \<le> burst l" "rb_last b \<le> front"
    using assms(1,4) by (auto simp: limiter_ok_def)
  note pace = pace_bounds [OF par(1,2)]
  have slack: "pace l * of_int (front - now) \<le> pace l * of_int slack"
    using assms(3) pace(1) by (intro mult_left_mono) (auto simp: of_int_le_iff)
  have nonneg: "0 \<le> credit l k front" by (rule credit_nonneg [OF assms(1)])
  let ?x = "tokens b + float64 (Seconds (now - rb_last b) * rate l)" and ?t0 = "max 0 (tokens b)"
  have whole: "max 0 (min (burst l) t) \<le> burst l" using par(2) by simp
  show ?thesis
  proof (cases "?x \<le> 0")
    case True
    then have "t \<le> 0" unfolding assms(5) by (rule float64_neg)
    then have "max 0 (min (burst l) t) = 0" using par(2) by simp
    with slack nonneg par(2) show ?thesis by simp
  next
    case pos: False
    show ?thesis
    proof (cases "rb_last b \<le> now")
      case True
      have "t \<le> ?t0 + rate l * (1 + 1 / 2 ^ 50) / 1000000000 * of_int (now - rb_last b) + burst l / 2 ^ 53"
        unfolding assms(5) using par True pos by (intro refill_le) auto
      also have "\<dots> \<le> ?t0 + pace l * of_int (now - rb_last b) + burst l / 2 ^ 53"
        using pace(2) True by (intro add_mono mult_right_mono) auto
      finally have "t + pace l * of_int (front - now) \<le> ?t0 + pace l * of_int (front - rb_last b) + burst l / 2 ^ 53"
        by (simp add: algebra_simps)
      moreover have "0 \<le> pace l * of_int (now - rb_last b)" "0 \<le> pace l * of_int slack" using pace(1) True assms(2,3) by auto
      ultimately show ?thesis using whole slack par(2)
        by (auto simp: credit_def assms(4) algebra_simps min_def max_def)
    next
      case False
      then have "Seconds (now - rb_last b) * rate l \<le> 0"
        using Seconds_neg [of "now - rb_last b"] par(1) by (simp add: mult_nonpos_nonneg)
      then have "float64 (Seconds (now - rb_last b) * rate l) \<le> 0" by (rule float64_neg)
      then have "?x \<le> ?t0" by linarith
      then have "t \<le> ?t0 * err1" unfolding assms(5) using pos by (intro float64_le) auto
      also have "\<dots> \<le> ?t0 + burst l / 2 ^ 53" using par(2,3) by (simp add: algebra_simps max_def)
      finally have t: "t \<le> ?t0 + burst l / 2 ^ 53" .
      have "0 \<le> pace l * of_int (front - rb_last b)" using pace(1) par(4) by simp
      with t whole slack par(2) show ?thesis by (auto simp: credit_def assms(4) min_def max_def)
    qed
  qed
qed

text \<open>One request costs a token, whoever else asks; the rounding of two operations and the slack are lost.\<close>

lemma allow_step:
  assumes "limiter_ok l front" "now \<le> front" "front - slack \<le> now" "allow l now k = (ok, l')"
  shows "limiter_ok l' front" "rate l' = rate l" "burst l' = burst l"
    and "of_bool (ok \<and> k = key) + credit l' key front
      \<le> credit l key front + of_bool (k = key) * (burst l / 2 ^ 52 + pace l * of_int slack)"
proof -
  let ?l = "trim now l"
  have tl: "limiter_ok ?l front" by (rule trim_ok [OF assms(1)])
  have par: "0 \<le> rate l" "1 \<le> burst l" "burst l \<le> 2 ^ 53" using assms(1) by (auto simp: limiter_ok_def)
  have slack: "pace l * of_int (front - now) \<le> pace l * of_int slack"
    using assms(3) pace_bounds(1) [OF par(1,2)] by (intro mult_left_mono) (auto simp: of_int_le_iff)
  have small: "float64 (t - 1) \<le> burst l \<and> 0 \<le> float64 (t - 1) \<and> float64 (t - 1) \<le> t - 1 + burst l / 2 ^ 53"
    if "1 \<le> t" "t \<le> burst l" for t
    using spend_le [OF that] that par(3) by simp
  obtain b where l': "l' = ?l\<lparr>buckets := (buckets ?l)(k \<mapsto> b)\<rparr>"
    using assms(4) by (auto simp: allow_def Let_def split: option.splits if_splits)
  have b: "rb_last b = now \<and> tokens b \<le> burst l \<and>
    of_bool ok + (max 0 (tokens b) + pace l * of_int (front - now)) \<le> credit ?l k front + burst l / 2 ^ 52 + pace l * of_int slack"
  proof (cases "buckets ?l k")
    case None
    then have "ok" "b = \<lparr>tokens = float64 (burst l - 1), rb_last = now\<rparr>"
      using assms(4) l' by (auto simp: allow_def Let_def trim_same dest!: fun_cong [of _ _ k] arg_cong [of _ _ buckets])
    then show ?thesis using None small [OF par(2) order_refl] par slack by (simp add: credit_def trim_same max_def)
  next
    case (Some b0)
    define t where "t = float64 (tokens b0 + float64 (Seconds (now - rb_last b0) * rate l))"
    have m: "max 0 (min (burst l) t) + pace l * of_int (front - now) \<le> credit ?l k front + burst l / 2 ^ 53 + pace l * of_int slack"
      using refilled [OF tl assms(2,3) Some] by (simp add: t_def trim_same)
    define m where "m = (if t > burst l then burst l else t)"
    have mm: "m = min (burst l) t" by (simp add: m_def min_def)
    have "b = \<lparr>tokens = (if m < 1 then m else float64 (m - 1)), rb_last = now\<rparr> \<and> ok = (\<not> m < 1)"
      using assms(4) l' Some
      by (auto simp: allow_def Let_def trim_same t_def m_def split: if_splits dest!: fun_cong [of _ _ k] arg_cong [of _ _ buckets])
    then show ?thesis using m small [of m] par unfolding mm [symmetric] by (auto simp: not_less max_def mm)
  qed
  show "rate l' = rate l" "burst l' = burst l" by (simp_all add: l' trim_same)
  then have pace': "pace l' = pace l" by (simp add: pace_def)
  show "limiter_ok l' front" using tl b assms(2) by (auto simp: limiter_ok_def l' trim_same)
  show "of_bool (ok \<and> k = key) + credit l' key front
      \<le> credit l key front + of_bool (k = key) * (burst l / 2 ^ 52 + pace l * of_int slack)"
  proof (cases "k = key")
    case True
    then have "credit l' key front \<le> max 0 (tokens b) + pace l * of_int (front - now)" using b pace' by (simp add: l' credit_def)
    then show ?thesis using True b trim_credit [OF assms(1,2), of key] by simp
  next
    case False
    then have "credit l' key front = credit ?l key front" by (simp add: l' credit_def pace_def split: option.split)
    then show ?thesis using False trim_credit [OF assms(1,2), of key] by simp
  qed
qed

text \<open>A sequence of requests, each with its time and its client, and which of them are admitted.\<close>

fun allow_all :: "rateLimiter \<Rightarrow> (int \<times> bytes) list \<Rightarrow> bool list \<times> rateLimiter" where
  "allow_all l [] = ([], l)"
| "allow_all l ((now, k) # reqs) =
     (case allow l now k of (ok, l) \<Rightarrow> case allow_all l reqs of (oks, l) \<Rightarrow> (ok # oks, l))"

definition admitted :: "bytes \<Rightarrow> bool list \<Rightarrow> (int \<times> bytes) list \<Rightarrow> nat" where
  "admitted key oks reqs = length (filter (\<lambda>(ok, now, k). ok \<and> k = key) (zip oks reqs))"

text \<open>
  The code reads the clock before it takes the lock, so requests may be handled in another order than
  that of their times: each time is at most \<open>slack\<close> before the latest of those before it.
\<close>

fun skewed :: "int \<Rightarrow> int \<Rightarrow> (int \<times> bytes) list \<Rightarrow> bool" where
  "skewed slack front [] \<longleftrightarrow> True"
| "skewed slack front ((now, k) # reqs) \<longleftrightarrow> front - slack \<le> now \<and> skewed slack (max front now) reqs"

fun frontier :: "int \<Rightarrow> (int \<times> bytes) list \<Rightarrow> int" where
  "frontier front [] = front"
| "frontier front ((now, k) # reqs) = frontier (max front now) reqs"

lemma limiter_ok_later: "limiter_ok l front \<Longrightarrow> front \<le> front' \<Longrightarrow> limiter_ok l front'"
  by (fastforce simp: limiter_ok_def)

lemma frontier_append: "frontier front (xs @ ys) = frontier (frontier front xs) ys"
  by (induction front xs rule: frontier.induct) auto

lemma skewed_append: "skewed slack front (xs @ ys) \<longleftrightarrow> skewed slack front xs \<and> skewed slack (frontier front xs) ys"
  by (induction front xs rule: frontier.induct) auto

lemma frontier_ge: "front \<le> frontier front reqs"
  by (induction front reqs rule: frontier.induct) auto

lemma frontier_Max: "reqs \<noteq> [] \<Longrightarrow> frontier front reqs = max front (Max (fst ` set reqs))"
proof (induction front reqs rule: frontier.induct)
  case (2 front now k reqs)
  then show ?case by (cases "reqs = []") (auto simp: max.assoc)
qed simp

lemma allow_all_admits:
  assumes "limiter_ok l front" "skewed slack front reqs" "0 \<le> slack" "allow_all l reqs = (oks, l')"
  shows "limiter_ok l' (frontier front reqs) \<and> rate l' = rate l \<and> burst l' = burst l \<and>
    of_nat (admitted key oks reqs) + credit l' key (frontier front reqs) \<le>
      credit l key front + pace l * of_int (frontier front reqs - front) +
        of_nat (length (filter (\<lambda>(now, k). k = key) reqs)) * (burst l / 2 ^ 52 + pace l * of_int slack)"
  using assms(1,2,4)
proof (induction reqs arbitrary: l front oks)
  case (Cons r reqs)
  obtain now k where r: "r = (now, k)" by fastforce
  let ?f = "max front now" and ?e = "burst l / 2 ^ 52 + pace l * of_int slack"
  obtain ok l1 oks1 where run: "allow l now k = (ok, l1)" "allow_all l1 reqs = (oks1, l')" "oks = ok # oks1"
    using Cons.prems(3) r by (auto split: prod.splits)
  have ok: "limiter_ok l ?f" using limiter_ok_later [OF Cons.prems(1)] by simp
  have time: "now \<le> ?f" "?f - slack \<le> now" "skewed slack ?f reqs" using Cons.prems(2) assms(3) r by auto
  note step = allow_step [OF ok time(1,2) run(1)]
  have same: "pace l1 = pace l" using step(2,3) by (simp add: pace_def)
  note later = credit_later [OF Cons.prems(1) max.cobounded1, of key now]
  note IH = Cons.IH [OF step(1) time(3) run(2)]
  have "of_nat (admitted key oks1 reqs) + credit l' key (frontier ?f reqs) \<le>
    credit l1 key ?f + pace l * of_int (frontier ?f reqs - ?f) + of_nat (length (filter (\<lambda>(now, k). k = key) reqs)) * ?e"
    using IH step(2,3) same by simp
  moreover have "of_nat (admitted key oks (r # reqs)) = of_bool (ok \<and> k = key) + (of_nat (admitted key oks1 reqs) :: rat)"
    by (simp add: admitted_def run(3) r)
  moreover have "pace l * of_int (frontier ?f reqs - front) = pace l * of_int (frontier ?f reqs - ?f) + pace l * of_int (?f - front)"
    by (simp flip: distrib_left of_int_add)
  moreover have "(of_nat (length (filter (\<lambda>(now, k). k = key) (r # reqs))) :: rat) * ?e =
      of_bool (k = key) * ?e + of_nat (length (filter (\<lambda>(now, k). k = key) reqs)) * ?e"
    unfolding r by (cases "k = key") (simp_all add: distrib_right)
  ultimately have "of_nat (admitted key oks (r # reqs)) + credit l' key (frontier ?f reqs) \<le>
      credit l key front + pace l * of_int (frontier ?f reqs - front) +
        of_nat (length (filter (\<lambda>(now, k). k = key) (r # reqs))) * ?e"
    using later step(4) [of key] by linarith
  moreover have "frontier front (r # reqs) = frontier ?f reqs" by (simp add: r)
  ultimately show ?case using IH step(2,3) by simp
qed (simp add: admitted_def)

text \<open>A new limiter is in order, whatever it is configured with.\<close>

lemma newRateLimiter_ok:
  assumes "bst < 2 ^ 53"
  shows "limiter_ok (newRateLimiter perMinute bst t0) t0"
proof -
  define b p where "b = (if bst \<le> 0 then defaultRateLimitBurst else bst)"
    and "p = (if perMinute \<le> 0 then defaultRateLimitPerMinute else perMinute)"
  have "0 < b" "b < 2 ^ 53" "0 \<le> p" using assms by (auto simp: b_def p_def defaultRateLimitBurst_def defaultRateLimitPerMinute_def)
  then have "float64 (of_int b) = of_int b" "1 \<le> (of_int b :: rat)" "(of_int b :: rat) \<le> 2 ^ 53"
    by (simp_all add: float64_int)
  moreover have "0 \<le> float64 (float64 (of_int p) / 60)" using \<open>0 \<le> p\<close> float64_bounds(1) by simp
  ultimately show ?thesis by (simp add: limiter_ok_def newRateLimiter_def Let_def b_def p_def)
qed

text \<open>
  Claim C35. The rate limit limits: whatever it is configured with and whatever requests came before, of
  all the requests that one client makes in a window of time, no more get through than a burst and
  what comes back in the window: the tokens of the rate or, if that is more, a burst every ten
  minutes, because the bucket of a client that is idle for ten minutes is thrown away and the next
  one is full. To this comes what is lost by rounding (one part in $2^{52}$ of a burst per request of the
  client, one in $2^{50}$ of the rate) and by requests that overtake each other between the clock and
  the lock by at most \<open>slack\<close> nanoseconds.
\<close>

theorem rate_limited:
  assumes "l0 = newRateLimiter perMinute bst t0" "bst < 2 ^ 53" "0 \<le> slack"
    and "window \<noteq> []" "skewed slack t0 (before @ window)"
    and "allow_all l0 before = (oks0, l1)" "allow_all l1 window = (oks, l2)"
    and "R = max (rate l0 * (1 + 1 / 2 ^ 50)) (burst l0 / 600) / 1000000000"
  shows "of_nat (admitted key oks window) \<le> burst l0 +
    R * of_int (Max (fst ` set window) - fst (hd window)) +
    of_nat (length (filter (\<lambda>(now, k). k = key) window)) * (burst l0 / 2 ^ 52 + R * of_int slack)"
proof -
  have R: "R = pace l0" by (simp add: assms(8) pace_def)
  have l0: "limiter_ok l0 t0" unfolding assms(1) by (rule newRateLimiter_ok [OF assms(2)])
  have skew: "skewed slack t0 before" "skewed slack (frontier t0 before) window" using assms(5) by (simp_all add: skewed_append)
  from allow_all_admits [OF l0 skew(1) assms(3,6)]
  have l1: "limiter_ok l1 (frontier t0 before)" "rate l1 = rate l0" "burst l1 = burst l0" by auto
  then have same: "pace l1 = pace l0" by (simp add: pace_def)
  define f where "f = max (frontier t0 before) (fst (hd window))"
  have first: "fst (hd window) \<in> fst ` set window" using assms(4) by simp
  then have M: "fst (hd window) \<le> Max (fst ` set window)" by simp
  obtain now k reqs where w: "window = (now, k) # reqs" using assms(4) by (cases window) auto
  have "frontier f window = frontier (frontier t0 before) window" "skewed slack f window"
    using skew(2) assms(3) by (auto simp: w f_def max.assoc)
  moreover have "frontier f window = max f (Max (fst ` set window))" by (rule frontier_Max [OF assms(4)])
  ultimately have T: "frontier f window - f \<le> Max (fst ` set window) - fst (hd window)" using M by (simp add: f_def)
  have lf: "limiter_ok l1 f" using limiter_ok_later [OF l1(1)] by (simp add: f_def)
  note run = allow_all_admits [OF lf \<open>skewed slack f window\<close> assms(3,7), of key]
  have "0 \<le> pace l0" using pace_bounds(1) l0 by (simp add: limiter_ok_def)
  then have "pace l0 * of_int (frontier f window - f) \<le> pace l0 * of_int (Max (fst ` set window) - fst (hd window))"
    using T by (intro mult_left_mono) (simp_all only: of_int_le_iff)
  moreover have "0 \<le> credit l2 key (frontier f window)" using run credit_nonneg by blast
  ultimately show ?thesis using run credit_le [of l1 key f] unfolding R same l1(3) by linarith
qed

text \<open>
  The ten minutes are not derived from the configuration: a bucket that is empty when its client goes idle
  is full again after them, even if the rate would have given back less.
\<close>

theorem evicted_is_full:
  assumes "buckets l key = Some b" "now - rb_last b > 10 * Minute" "now - lastTrim l > 5 * Minute"
  shows "\<exists>l'. allow l now key = (True, l') \<and> buckets l' key = Some \<lparr>tokens = float64 (burst l - 1), rb_last = now\<rparr>"
  using assms by (simp add: allow_def trim_def Let_def)

text \<open>One request a second, and bursts of one: of two requests at once the second is refused.\<close>

lemma sample_limiter:
  "rate (newRateLimiter 60 1 0) = 1 \<and> burst (newRateLimiter 60 1 0) = 1 \<and>
   fst (allow_all (newRateLimiter 60 1 0) [(7, ''a''), (7, ''a''), (7, ''b'')]) = [True, False, True]"
  by code_simp

theorem rate_limited_witness:
  "\<exists>oks l2. allow_all (newRateLimiter 60 1 0) [(7, ''a''), (7, ''a''), (7, ''b'')] = (oks, l2) \<and>
     oks = [True, False, True] \<and> (of_nat (admitted ''a'' oks [(7, ''a''), (7, ''a''), (7, ''b'')]) :: rat) \<le> 1 + 2 / 2 ^ 52"
proof -
  obtain oks l2 where run: "allow_all (newRateLimiter 60 1 0) [(7, ''a''), (7, ''a''), (7, ''b'')] = (oks, l2)" by fastforce
  then have "oks = [True, False, True]" using sample_limiter by simp
  moreover have "(of_nat (admitted ''a'' oks [(7, ''a''), (7, ''a''), (7, ''b'')]) :: rat) \<le> 1 + 2 / 2 ^ 52"
    using rate_limited [OF refl, of 1 0 "[(7, ''a''), (7, ''a''), (7, ''b'')]" 0 "[]", OF _ _ _ _ _ run refl, of 60 "[]" "''a''"]
      sample_limiter by simp
  ultimately show ?thesis using run by blast
qed

text \<open>
  Claim C36. The rate limit does not limit a client that does not want to be limited: the first entry
  of \<open>X-Forwarded-For\<close>, which the client writes, is the key, and a key without a bucket is let
  through, whatever the state of the limiter.
\<close>

theorem spoofed_not_limited:
  assumes "TrimSpace ip = ip" "ip \<noteq> []" "CHR '','' \<notin> set ip" "rq_header rq ''X-Forwarded-For'' = ip @ others"
    and "others = [] \<or> hd others = CHR '',''" "buckets l ip = None"
  shows "clientIP remoteAddr rq = ip \<and> fst (rateLimitMiddleware l now remoteAddr handler rq) = handler rq"
proof -
  have "hd (Split (CHR '','') (s @ others)) = s" if "CHR '','' \<notin> set s" for s
    using that assms(5) by (induction s) (cases others; auto)+
  with assms have "clientIP remoteAddr rq = ip" by (simp add: clientIP_def Let_def)
  with assms(6) show ?thesis by (simp add: rateLimitMiddleware_def allow_def trim_def Let_def)
qed

text \<open>An address that the limiter has refused already gets through under another name.\<close>

definition sample_spoof :: request where
  "sample_spoof =
     \<lparr>rq_method = ''GET'', rq_host = [], rq_path = ''/api/v1/treasury'',
      rq_header = (\<lambda>h. if h = ''X-Forwarded-For'' then ''6.6.6.6, 10.0.0.1'' else []), rq_cookie = Map.empty,
      rq_query = (\<lambda>_. []), rq_body = []\<rparr>"

theorem spoofed_not_limited_witness:
  "clientIP ''10.0.0.1:4711'' sample_spoof = ''6.6.6.6'' \<and>
   fst (rateLimitMiddleware (newRateLimiter 60 1 0) 7 ''10.0.0.1:4711'' (\<lambda>_. Reply 200 JNull) sample_spoof) = Reply 200 JNull"
proof -
  have "TrimSpace ''6.6.6.6'' = ''6.6.6.6''" by code_simp
  then show ?thesis
    by (intro spoofed_not_limited [where others = "'', 10.0.0.1''"])
      (simp_all add: sample_spoof_def newRateLimiter_def Let_def)
qed

end
