(* ===== verification/Sidecar.thy ===== *)
theory Sidecar
  imports AdminCli History RateLimit
begin

text \<open>
  How the parts are put together: the configuration that \<open>cmd/ledger-sidecar/main.go\<close> makes of the
  environment, the command \<open>anchor-sth\<close> of \<open>cmd/ledger-admin/anchor_cmd.go\<close> with \<open>ots.Submit\<close>, and the
  registration that the smoke test sends.
\<close>

section \<open>Configuration\<close>

definition privateKeyFromEnv :: "(bytes \<Rightarrow> bytes) \<Rightarrow> bytes \<Rightarrow> bytes \<Rightarrow> err + bytes option" where
  "privateKeyFromEnv env primary fallback =
     (let value = (if env primary = [] \<and> fallback \<noteq> [] then env fallback else env primary)
      in if value = [] then Inr None else and_then (private_key value) (\<lambda>k. Inr (Some k)))"

definition envInt :: "(bytes \<Rightarrow> bytes) \<Rightarrow> bytes \<Rightarrow> err + int" where
  "envInt env name =
     (let raw = TrimSpace (env name)
      in if raw = [] then Inr 0
         else case Atoi raw of
           None \<Rightarrow> Inl (Errorf ''must be a non-negative integer'')
         | Some n \<Rightarrow> if n < 0 then Inl (Errorf ''must be a non-negative integer'') else Inr n)"

definition splitCSVEnv :: "(bytes \<Rightarrow> bytes) \<Rightarrow> bytes \<Rightarrow> bytes list" where
  "splitCSVEnv env name =
     (if env name = [] then [] else filter (\<lambda>p. p \<noteq> []) (map TrimSpace (Split (CHR '','') (env name))))"

record Config =
  cf_Addr :: bytes
  cf_RateLimitPerMinute :: int
  cf_RateLimitBurst :: int
  cf_Server :: Server
  cf_SecureCookies :: bool
  cf_Rewards :: "RewardService option"
  cf_TxLog :: "LogService option"
  cf_Admin :: "AdminService option"

definition header_auth :: "(bytes \<Rightarrow> bytes) \<Rightarrow> err + bytes" where
  "header_auth env =
     (if env ''WALLET_ALLOW_HEADER_AUTH'' = ''1'' then
        (let tok = env ''WALLET_DEV_HEADER_AUTH_TOKEN''
         in if length tok < 32 then Inl (Errorf ''requires a token of at least 32 bytes'') else Inr tok)
      else Inr [])"

definition discourse_connect :: "(bytes \<Rightarrow> bytes) \<Rightarrow> err + DiscourseConnect option" where
  "discourse_connect env =
     (let secret = env ''DISCOURSE_CONNECT_SECRET''; forumBase = env ''FORUM_BASE_URL'';
          callback = (if env ''WALLET_CALLBACK_URL'' = [] then forumBase @ ''/wallet/auth/discourse/callback''
                      else env ''WALLET_CALLBACK_URL'')
      in if secret = [] then Inr None
         else if forumBase = [] then Inl (Errorf ''FORUM_BASE_URL must be set'')
         else Inr (Some \<lparr>dc_Secret = secret, dc_ForumBase = forumBase, dc_CallbackURL = callback\<rparr>))"

definition reward_service :: "(bytes \<Rightarrow> bytes) \<Rightarrow> err + RewardService option" where
  "reward_service env =
     (let wbSecret = env ''DISCOURSE_WEBHOOK_SECRET''
      in if wbSecret = [] then Inr None
         else and_then (privateKeyFromEnv env ''REWARD_PRIV_KEY_HEX'' ''ADMIN_PRIV_KEY_HEX'') (\<lambda>k.
           case k of
             None \<Rightarrow> Inl (Errorf ''REWARD_PRIV_KEY_HEX required'')
           | Some priv \<Rightarrow>
               Inr (Some \<lparr>rs_AdminPrivKey = priv, rs_AdminPubKey = Public priv, rs_WebhookSecret = wbSecret\<rparr>)))"

definition log_service :: "(bytes \<Rightarrow> bytes) \<Rightarrow> err + LogService option" where
  "log_service env =
     and_then (privateKeyFromEnv env ''STH_PRIV_KEY_HEX'' ''ADMIN_PRIV_KEY_HEX'') (\<lambda>k.
       Inr (map_option (\<lambda>priv. \<lparr>ls_AdminPrivKey = priv, ls_AdminPubKey = Public priv, ls_snapshot = None\<rparr>) k))"

text \<open>\<open>rnd\<close> are the 32 random bytes of a session secret that is not configured.\<close>

definition admin_service :: "(bytes \<Rightarrow> bytes) \<Rightarrow> bytes \<Rightarrow> AdminService option" where
  "admin_service env rnd =
     (case hex_decode (env ''ADMIN_PUBKEY_HEX'') of
        None \<Rightarrow> None
      | Some pub \<Rightarrow>
          (if env ''ADMIN_PUBKEY_HEX'' = [] \<or> length pub \<noteq> PubKeyLen then None
           else Some \<lparr>ad_AdminPubKey = pub,
             ad_SessionSecret = (if length (env ''ADMIN_SESSION_SECRET'') < 32 then rnd else env ''ADMIN_SESSION_SECRET''),
             ad_Pool = True,
             ad_OTSCalendarURL = env ''OTS_CALENDAR_URL'', ad_OTSCalendarAllowlist = splitCSVEnv env ''OTS_CALENDAR_ALLOWLIST''\<rparr>))"

definition startup :: "(bytes \<Rightarrow> bytes) \<Rightarrow> bytes \<Rightarrow> err + Config" where
  "startup env rnd =
     (if env ''DATABASE_URL'' = [] then Inl (Errorf ''DATABASE_URL is required'')
      else and_then (envInt env ''WALLET_RATE_LIMIT_PER_MINUTE'') (\<lambda>perMinute.
        and_then (envInt env ''WALLET_RATE_LIMIT_BURST'') (\<lambda>burst.
        and_then (header_auth env) (\<lambda>tok.
        and_then (discourse_connect env) (\<lambda>dc.
        and_then (reward_service env) (\<lambda>rewards.
        and_then (log_service env) (\<lambda>txlog.
          Inr \<lparr>cf_Addr = (if env ''LISTEN_ADDR'' = [] then ''127.0.0.1:18080'' else env ''LISTEN_ADDR''),
               cf_RateLimitPerMinute = perMinute, cf_RateLimitBurst = burst,
               cf_Server = \<lparr>sv_DC = dc, sv_DevHeaderAuthToken = tok\<rparr>,
               cf_SecureCookies = (env ''WALLET_INSECURE_COOKIES'' \<noteq> ''1''),
               cf_Rewards = rewards, cf_TxLog = txlog, cf_Admin = admin_service env rnd\<rparr>)))))))"

section \<open>Anchoring from the command line\<close>

text \<open>\<open>post url body\<close> is what the calendar answers, \<open>None\<close> if the request fails.\<close>

definition Submit :: "(bytes \<Rightarrow> bytes \<Rightarrow> (int \<times> bytes) option) \<Rightarrow> bytes \<Rightarrow> bytes \<Rightarrow> err + bytes" where
  "Submit post calendarURL digest =
     (if length digest \<noteq> HashSize then Inl (Errorf ''digest must be 32 bytes'')
      else case post (if calendarURL = [] then DefaultCalendar else calendarURL) digest of
        None \<Rightarrow> Inl (Errorf ''http'')
      | Some (st, body) \<Rightarrow> if st \<noteq> 200 then Inl (Errorf ''ots calendar HTTP'') else Inr (take 65536 body))"

definition cmdAnchorSTH ::
  "(bytes \<Rightarrow> bytes \<Rightarrow> bytes \<Rightarrow> bool) \<Rightarrow> (bytes \<Rightarrow> bytes \<Rightarrow> bytes) \<Rightarrow> (bytes \<Rightarrow> bytes) \<Rightarrow>
   (bytes \<Rightarrow> bytes \<Rightarrow> (int \<times> bytes) option) \<Rightarrow> bytes option \<Rightarrow> pgdb \<Rightarrow> int \<Rightarrow> checkpoints \<Rightarrow> (err + STH \<times> bytes) \<times> checkpoints" where
  "cmdAnchorSTH ed sign env post flag db now cps =
     (let defaultCalendar = (if env ''OTS_CALENDAR_URL'' = [] then DefaultCalendar else env ''OTS_CALENDAR_URL'');
          calendar = (case flag of None \<Rightarrow> defaultCalendar | Some c \<Rightarrow> c);
          privHex = (if env ''STH_PRIV_KEY_HEX'' = [] then env ''ADMIN_PRIV_KEY_HEX'' else env ''STH_PRIV_KEY_HEX'')
      in if env ''DATABASE_URL'' = [] then (Inl (Errorf ''DATABASE_URL is required''), cps)
         else if privHex = [] then (Inl (Errorf ''STH_PRIV_KEY_HEX is required''), cps)
         else case private_key privHex of
           Inl e \<Rightarrow> (Inl e, cps)
         | Inr priv \<Rightarrow>
             (case CurrentSTH ed sign \<lparr>ls_AdminPrivKey = priv, ls_AdminPubKey = Public priv, ls_snapshot = None\<rparr> db now cps of
                (Inl e, s, cps) \<Rightarrow> (Inl (Errorf ''current STH''), cps)
              | (Inr sth, s, cps) \<Rightarrow>
                  (if sth_TreeSize sth = 0 then (Inl (Errorf ''tree is empty; nothing to anchor''), cps)
                   else case Submit post calendar (DigestSTH (canonical_sth sth)) of
                     Inl e \<Rightarrow> (Inl (Errorf ''ots submit''), cps)
                   | Inr receipt \<Rightarrow>
                       (case AnchorCheckpoint cps (sth_TreeSize sth) receipt of
                          Inl e \<Rightarrow> (Inl (Errorf ''store receipt''), cps)
                        | Inr cps \<Rightarrow> (Inr (sth, receipt), cps)))))"

section \<open>The registration of the smoke test\<close>

definition smoke_register :: "int \<Rightarrow> bytes \<Rightarrow> bytes \<Rightarrow> request" where
  "smoke_register dscID name pub =
     \<lparr>rq_method = ''POST'', rq_host = [], rq_path = ''/api/v1/me/register'',
      rq_header = (\<lambda>h. if h = ''X-Discourse-User-Id'' then format_int dscID
                       else if h = ''X-Discourse-Username'' then name else []),
      rq_cookie = Map.empty, rq_query = (\<lambda>_. []),
      rq_body = json_print True (JObj [(''pubkey_hex'', enc_hex pub)])\<rparr>"

text \<open>The test goes on after these answers only.\<close>

definition smoke_registered :: "response \<Rightarrow> bool" where
  "smoke_registered r \<longleftrightarrow> status r = 201 \<or> status r = 200 \<or> status r = 409"

end
