(* ===== verification/HistorySample.thy ===== *)
theory HistorySample
  imports History Samples
begin

text \<open>
  A transfer with a NUL escape in its \<open>meta\<close>, its hash after a transaction whose hash is
  \<^const>\<open>ZeroHash\<close>, and a cast that refuses such a text, as PostgreSQL documents of \<open>jsonb\<close>.
\<close>

definition nul_escape :: bytes where "nul_escape = backslash # ''u0000''"

definition poison_json :: bytes where
  "poison_json = ''{'' @ quoted ''from'' @ '':'' @ quoted zero_key_base64 @ '','' @
     quoted ''to_discourse_id'' @ '':7,'' @ quoted ''amount'' @ '':5,'' @ quoted ''nonce'' @ '':1,'' @
     quoted ''meta'' @ '':{'' @ quoted ''x'' @ '':'' @ quoted nul_escape @ ''}}''"

definition poison_payload :: TransferPayload where
  "poison_payload = \<lparr>tp_From = zero_key, tp_ToDiscourseID = 7, tp_Amount = 5, tp_Nonce = 1, tp_Meta = [(''x'', JStr [byte 0])]\<rparr>"

lemma poison_decodes: "transfer_payload poison_json = Some poison_payload"
  by code_simp

definition poison_tx :: Tx where
  "poison_tx = \<lparr>LeafIndex = 0, Type = TxTransfer, Payload = poison_json, Sig = zero_sig,
     Signer = zero_key, PrevHash = [], TxHash = []\<rparr>"

definition toy_jsonb :: "bytes \<Rightarrow> bytes option option" where
  "toy_jsonb payload =
     (if list_ex (\<lambda>i. take 6 (drop i payload) = nul_escape) [0..<length payload] then None else Some None)"

lemma poison_refused: "toy_jsonb poison_json = None"
  by code_simp

lemma poison_block_1:
  "map2 (\<lambda>x y. n32 (x + y)) [817957434, 955054524, 1872468679, 39326405, 2885768626, 2958908423, 4012201641, 2498806377]
     (sha_rounds sha_k [1970434917, 1600742434, 976694306, 1634561909, 1853104698, 892084846, 1869505381, 574239020, 577594740, 1629633147, 578298426, 576484656, 808464418, 2105344000, 0, 0]
       [817957434, 955054524, 1872468679, 39326405, 2885768626, 2958908423, 4012201641, 2498806377]) =
   [3102591374, 298352313, 3679538964, 1377734060, 4273245851, 86863429, 3164629005, 3679352458]"
  by (simp add: sha_k_def sha_eval)

lemma poison_block_2:
  "map2 (\<lambda>x y. n32 (x + y)) [3102591374, 298352313, 3679538964, 1377734060, 4273245851, 86863429, 3164629005, 3679352458]
     (sha_rounds sha_k [0, 0, 0, 0, 0, 0, 0, 0, 0, 0, 0, 0, 0, 0, 0, 0]
       [3102591374, 298352313, 3679538964, 1377734060, 4273245851, 86863429, 3164629005, 3679352458]) =
   [1695380135, 559179452, 2715982924, 770290160, 891633821, 1498459895, 4252875848, 4292130807]"
  by (simp add: sha_k_def sha_eval)

lemma poison_block_3:
  "map2 (\<lambda>x y. n32 (x + y)) [1695380135, 559179452, 2715982924, 770290160, 891633821, 1498459895, 4252875848, 4292130807]
     (sha_rounds sha_k [0, 0, 0, 0, 0, 32768, 0, 0, 0, 0, 0, 0, 0, 0, 0, 1712]
       [1695380135, 559179452, 2715982924, 770290160, 891633821, 1498459895, 4252875848, 4292130807]) =
   [3271162561, 801522110, 894649277, 1009132132, 2176242705, 3834774328, 3662114385, 2968235862]"
  by (simp add: sha_k_def sha_eval)

lemma poison_words:
  "map (\<lambda>b. map be32 (chunks 16 4 b)) (chunks 4 64 (sha_pad (poison_json @ zero_sig @ ZeroHash))) =
   [[2065852018, 1869423162, 574701889, 1094795585, 1094795585, 1094795585, 1094795585, 1094795585, 1094795585, 1094795585, 1094795585, 1094795585, 1094795585, 1025649698, 1953455972, 1769169775],
    [1970434917, 1600742434, 976694306, 1634561909, 1853104698, 892084846, 1869505381, 574239020, 577594740, 1629633147, 578298426, 576484656, 808464418, 2105344000, 0, 0],
    [0, 0, 0, 0, 0, 0, 0, 0, 0, 0, 0, 0, 0, 0, 0, 0],
    [0, 0, 0, 0, 0, 32768, 0, 0, 0, 0, 0, 0, 0, 0, 0, 1712]]"
  by code_simp

lemma poison_hash: "tx_hash poison_json zero_sig ZeroHash = map byte [194, 249, 250, 193, 47, 198, 65, 190, 53, 83, 67, 189, 60, 38, 34, 100, 129, 182, 212, 17, 228, 146, 3, 56, 218, 71, 110, 81, 176, 235, 175, 86]"
proof -
  have n: "length (sha_pad (poison_json @ zero_sig @ ZeroHash)) div 64 = 4" by code_simp
  show ?thesis
    unfolding tx_hash_def sha256_words [OF n poison_words]
    by (simp only: foldl.simps sha_init_def transfer_block_0 [unfolded sha_init_def] poison_block_1 poison_block_2 poison_block_3) code_simp
qed

lemma poison_hash_fresh: "tx_hash poison_json zero_sig ZeroHash \<noteq> ZeroHash"
  unfolding poison_hash by code_simp

end
