(* ===== verification/HistoryProperties.thy ===== *)
theory HistoryProperties
  imports HistorySample ServerProperties
begin

text \<open>
  What a user's history lists, and how a transfer that the ledger accepts can break it.
\<close>

section \<open>The rows listed\<close>

text \<open>The log is in the order of its indexes, so newest first is backwards.\<close>

lemma insort_last: "\<forall>y\<in>set ys. g y < g x \<Longrightarrow> insort_key (g :: 'a \<Rightarrow> int) x ys = ys @ [x]"
  by (induction ys) auto

lemma sort_newest_first: "sorted_wrt (<) (map f xs) \<Longrightarrow> sort_key (\<lambda>r. - (f r :: int)) xs = rev xs"
proof (induction xs)
  case (Cons x xs)
  then show ?case using insort_last [of "rev xs" "\<lambda>r. - f r" x] by simp
qed simp

lemma sorted_wrt_filter_map: "sorted_wrt (<) (map f xs) \<Longrightarrow> sorted_wrt (<) (map f (filter P xs))"
  by (induction xs) auto

lemma those_None: "None \<in> set xs \<Longrightarrow> those xs = None"
  by (induction xs) (auto split: option.splits)

lemma those_map: "those (map g xs) = Some ys \<Longrightarrow> list_all2 (\<lambda>x y. g x = Some y) xs ys"
  by (induction xs arbitrary: ys) (auto split: option.splits)

definition newest :: "pgdb \<Rightarrow> int \<Rightarrow> TxRow list" where
  "newest db uid = rev (filter (history_match db uid) (transactions db))"

lemma UserHistory_newest:
  assumes "pg_ok db"
  shows "UserHistory jsonb early db uid limit =
    (case those (map (history_row jsonb db uid) (if early then newest db uid else take (nat limit) (newest db uid))) of
       None \<Rightarrow> Inl (pg_error ''invalid input syntax for type json'') | Some hs \<Rightarrow> Inr (take (nat limit) hs))"
  using sort_newest_first [OF sorted_wrt_filter_map [OF pg_okD(3) [OF assms]]]
  by (simp add: UserHistory_def newest_def)

lemma history_row_index: "history_row jsonb db uid r = Some h \<Longrightarrow> hr_LeafIndex h = LeafIndex r"
  by (auto simp: history_row_def Let_def)

text \<open>An answered history lists the newest matching transactions, newest first, up to the limit.\<close>

lemma UserHistory_lists:
  assumes "pg_ok db" "UserHistory jsonb early db uid limit = Inr hs"
  shows "list_all2 (\<lambda>r h. history_row jsonb db uid r = Some h) (take (nat limit) (newest db uid)) hs"
proof -
  let ?rows = "if early then newest db uid else take (nat limit) (newest db uid)"
  obtain ys where ys: "those (map (history_row jsonb db uid) ?rows) = Some ys" "hs = take (nat limit) ys"
    using assms(2) unfolding UserHistory_newest [OF assms(1)] by (auto split: option.splits)
  from those_map [OF ys(1)] have "list_all2 (\<lambda>r h. history_row jsonb db uid r = Some h) (take (nat limit) ?rows) hs"
    unfolding ys(2) by (rule list_all2_takeI)
  then show ?thesis by (simp split: if_splits)
qed

section \<open>A transfer that breaks the recipient's history\<close>

lemma step_logged_transfer:
  "ledger_step ed L tx L' \<Longrightarrow> Type tx = TxTransfer \<Longrightarrow> transfer_payload (Payload tx) = Some p \<Longrightarrow> 0 < tp_ToDiscourseID p"
  by (cases rule: ledger_step.cases) (auto simp: TreasuryDscID_def)

text \<open>
  Claim C40. A history can be broken by whoever pays: the ledger accepts a transfer whose payload
  PostgreSQL cannot cast to \<open>jsonb\<close> (a NUL escape in \<open>meta\<close> is enough), and in the state after it every
  request for the recipient's history is answered 500, whatever its limit.
\<close>

theorem poisoned_history:
  assumes "pg_ok db" "indexed (pg_view db)" "room 0 (pg_view db)"
    and "Apply ed PgOps db tx = (tx', Inr db')" "Type tx = TxTransfer" "transfer_payload (Payload tx) = Some p"
    and "jsonb (Payload tx) = None"
  shows "status (history (Some (adapter_UserHistory jsonb early db')) (format_int (tp_ToDiscourseID p)) rq) = 500"
proof -
  have ok: "pg_ok db'" using pg_Apply_step [OF assms(1-4)] by simp
  obtain row where row0: "transactions db' = transactions db @ [row]" "Tx.truncate row = tx'"
    "tr_to_discourse_id row = Some (tp_ToDiscourseID p)"
    by (rule Apply_transfer_row [OF assms(4-6)])
  then have row: "transactions db' = transactions db @ [row]" "Payload row = Payload tx" "Type row = TxTransfer"
    "tr_to_discourse_id row = Some (tp_ToDiscourseID p)"
    using Apply_fields [OF assms(4)] assms(5) by (auto simp: Tx.defs)
  let ?limit = "limit_param 50 200 (rq_query rq ''limit'')"
  have "newest db' (tp_ToDiscourseID p) = row # rev (filter (history_match db' (tp_ToDiscourseID p)) (transactions db))"
    using row by (simp add: newest_def history_match_def)
  moreover have "0 < ?limit" by (rule conjunct1 [OF limit_param_bounds]) simp_all
  ultimately have "row \<in> set (if early then newest db' (tp_ToDiscourseID p) else take (nat ?limit) (newest db' (tp_ToDiscourseID p)))"
    by (cases "nat ?limit") auto
  moreover have "history_row jsonb db' (tp_ToDiscourseID p) row = None"
    using row(2) assms(7) by (simp add: history_row_def payload_meta_def)
  ultimately have "UserHistory jsonb early db' (tp_ToDiscourseID p) ?limit = Inl (pg_error ''invalid input syntax for type json'')"
    unfolding UserHistory_newest [OF ok] by (subst those_None) force+
  moreover have "in_i64 (tp_ToDiscourseID p)" by (rule transfer_payload_range(2) [OF assms(6)])
  moreover have "0 < tp_ToDiscourseID p"
    using step_logged_transfer [OF pg_Apply_step [OF assms(1-4), THEN conjunct2]] Apply_fields [OF assms(4)] assms(5,6)
    by auto
  ultimately show ?thesis by (simp add: history_def adapter_UserHistory_def TreasuryDscID_def)
qed

text \<open>Five points with a NUL escape, sent to user 7.\<close>

lemma sample_poison:
  obtains tx' db' where "Apply toy_ed PgOps sample_db poison_tx = (tx', Inr db')"
proof -
  have names: "text_ok ''(pending)''" by code_simp
  have "VerifySig toy_ed (Signer poison_tx) (Payload poison_tx) (Sig poison_tx)"
    by (simp add: poison_tx_def VerifySig_def PubKeyLen_def SigLen_def)
  from Apply_transfer_succeeds [OF sample_db_ok(1,3) sample_db_facts(1,2) _ _ _ this, where p = poison_payload and d = 0
      and a = "sample_account SupplyCap"]
  have "\<exists>tx' db'. Apply toy_ed PgOps sample_db poison_tx = (tx', Inr db')"
    using poison_decodes poison_hash_fresh names
    by (simp add: sample_accounts poison_tx_def poison_payload_def storable_def meta_string_def sample_account_def SupplyCap_def)
  with that show thesis by blast
qed

theorem poisoned_history_witness:
  "\<exists>tx' db'. Apply toy_ed PgOps sample_db poison_tx = (tx', Inr db') \<and>
     status (history (Some (adapter_UserHistory toy_jsonb False db')) ''7''
       \<lparr>rq_method = ''GET'', rq_host = [], rq_path = [], rq_header = (\<lambda>_. []), rq_cookie = Map.empty,
        rq_query = (\<lambda>_. []), rq_body = []\<rparr>) = 500"
proof (rule sample_poison)
  fix tx' db'
  assume ap: "Apply toy_ed PgOps sample_db poison_tx = (tx', Inr db')"
  have seven: "format_int (tp_ToDiscourseID poison_payload) = ''7''" by (simp add: poison_payload_def) code_simp
  have "Type poison_tx = TxTransfer" "transfer_payload (Payload poison_tx) = Some poison_payload" "toy_jsonb (Payload poison_tx) = None"
    using poison_decodes poison_refused by (simp_all add: poison_tx_def)
  from poisoned_history [where jsonb = toy_jsonb, OF sample_db_ok(1) sample_db_facts(1,2) ap this] ap show ?thesis unfolding seven by blast
qed

end
