(* ===== verification/AdminCliSample.thy ===== *)
theory AdminCliSample
  imports AdminCli LogProperties
begin

text \<open>
  A concrete command: an environment with a private key of 64 zero bytes, the payload that
  \<open>distribute\<close> signs with it, and its hash after a transaction whose hash is \<^const>\<open>ZeroHash\<close>.
\<close>

definition zero_priv :: bytes where "zero_priv = replicate 64 (byte 0)"

definition sample_env :: "bytes \<Rightarrow> bytes" where
  "sample_env k =
     (if k = ''DATABASE_URL'' then ''postgres'' else if k = ''ADMIN_PRIV_KEY_HEX'' then replicate 128 CHR ''0'' else [])"

definition toy_sign64 :: "bytes \<Rightarrow> bytes \<Rightarrow> bytes" where
  "toy_sign64 priv msg = Public priv @ Public priv"

lemma zero_priv_simps [simp]: "Public zero_priv = zero_key" "toy_sign64 zero_priv m = zero_sig"
  by (simp_all add: zero_priv_def Public_def toy_sign64_def zero_key_def zero_sig_def replicate_add [symmetric])

lemma sample_env_simps [simp]:
  "sample_env ''DATABASE_URL'' \<noteq> []" "sample_env ''REWARD_PRIV_KEY_HEX'' = []" "sample_env ''ADMIN_PRIV_KEY_HEX'' \<noteq> []"
  "sample_env ''TREASURY_USERNAME'' = []" "private_key (sample_env ''ADMIN_PRIV_KEY_HEX'') = Inr zero_priv"
proof -
  show "private_key (sample_env ''ADMIN_PRIV_KEY_HEX'') = Inr zero_priv" by code_simp
qed (simp_all add: sample_env_def)

definition backfill_json :: bytes where
  "backfill_json = ''{'' @ quoted ''from'' @ '':'' @ quoted zero_key_base64 @ '','' @
     quoted ''to_discourse_id'' @ '':7,'' @ quoted ''amount'' @ '':100,'' @ quoted ''nonce'' @ '':1,'' @
     quoted ''meta'' @ '':{'' @ quoted ''reward_source'' @ '':'' @ quoted ''backfill:signup_bonus'' @ '','' @
     quoted ''tip_target_username'' @ '':'' @ quoted ''bob'' @ ''}}''"

lemma backfill_json_payload:
  "CanonicalJSON (transfer_tree (reward_payload zero_key 7 100 1 ''backfill:signup_bonus'' ''bob'')) = backfill_json"
  unfolding zero_key_def by code_simp

lemma backfill_block_1:
  "map2 (\<lambda>x y. n32 (x + y)) [817957434, 955054524, 1872468679, 39326405, 2885768626, 2958908423, 4012201641, 2498806377]
     (sha_rounds sha_k [1970434917, 1600742434, 976694306, 1634561909, 1853104698, 825241644, 577662830, 1667572282, 824975981, 1702125858, 981148274, 1702322546, 1683977071, 1970430821, 574235234, 1633905510]
       [817957434, 955054524, 1872468679, 39326405, 2885768626, 2958908423, 4012201641, 2498806377]) =
   [2925948041, 463378262, 2568534573, 737280255, 1635649955, 1984906342, 2819306599, 3328565316]"
  by (simp add: sha_k_def sha_eval)

lemma backfill_block_2:
  "map2 (\<lambda>x y. n32 (x + y)) [2925948041, 463378262, 2568534573, 737280255, 1635649955, 1984906342, 2819306599, 3328565316]
     (sha_rounds sha_k [1768713274, 1936287598, 1970298722, 1869510003, 573317748, 1768972148, 1634887525, 1952413043, 1701998177, 1835344442, 576876386, 578649344, 0, 0, 0, 0]
       [2925948041, 463378262, 2568534573, 737280255, 1635649955, 1984906342, 2819306599, 3328565316]) =
   [2137068038, 1240672969, 589192240, 4184549235, 3539841198, 2581480471, 3024901959, 1539906462]"
  by (simp add: sha_k_def sha_eval)

lemma backfill_block_3:
  "map2 (\<lambda>x y. n32 (x + y)) [2137068038, 1240672969, 589192240, 4184549235, 3539841198, 2581480471, 3024901959, 1539906462]
     (sha_rounds sha_k [0, 0, 0, 0, 0, 0, 0, 0, 0, 0, 0, 0, 0, 0, 0, 0]
       [2137068038, 1240672969, 589192240, 4184549235, 3539841198, 2581480471, 3024901959, 1539906462]) =
   [373710951, 3050956741, 2566020362, 2545170057, 497306345, 2461143198, 3635683836, 334125660]"
  by (simp add: sha_k_def sha_eval)

lemma backfill_block_4:
  "map2 (\<lambda>x y. n32 (x + y)) [373710951, 3050956741, 2566020362, 2545170057, 497306345, 2461143198, 3635683836, 334125660]
     (sha_rounds sha_k [0, 0, 0, 128, 0, 0, 0, 0, 0, 0, 0, 0, 0, 0, 0, 2168]
       [373710951, 3050956741, 2566020362, 2545170057, 497306345, 2461143198, 3635683836, 334125660]) =
   [2342204950, 4076988498, 4072414423, 2144081345, 3949599657, 2710144459, 2874219038, 1253279631]"
  by (simp add: sha_k_def sha_eval)

lemma backfill_words:
  "map (\<lambda>b. map be32 (chunks 16 4 b)) (chunks 5 64 (sha_pad (backfill_json @ zero_sig @ ZeroHash))) =
   [[2065852018, 1869423162, 574701889, 1094795585, 1094795585, 1094795585, 1094795585, 1094795585, 1094795585, 1094795585, 1094795585, 1094795585, 1094795585, 1025649698, 1953455972, 1769169775],
    [1970434917, 1600742434, 976694306, 1634561909, 1853104698, 825241644, 577662830, 1667572282, 824975981, 1702125858, 981148274, 1702322546, 1683977071, 1970430821, 574235234, 1633905510],
    [1768713274, 1936287598, 1970298722, 1869510003, 573317748, 1768972148, 1634887525, 1952413043, 1701998177, 1835344442, 576876386, 578649344, 0, 0, 0, 0],
    [0, 0, 0, 0, 0, 0, 0, 0, 0, 0, 0, 0, 0, 0, 0, 0],
    [0, 0, 0, 128, 0, 0, 0, 0, 0, 0, 0, 0, 0, 0, 0, 2168]]"
  by code_simp

lemma backfill_hash: "tx_hash backfill_json zero_sig ZeroHash = map byte [139, 155, 54, 22, 243, 1, 232, 82, 242, 188, 28, 215, 127, 204, 21, 193, 235, 106, 27, 169, 161, 137, 133, 203, 171, 81, 26, 30, 74, 179, 135, 143]"
proof -
  have n: "length (sha_pad (backfill_json @ zero_sig @ ZeroHash)) div 64 = 5" by code_simp
  show ?thesis
    unfolding tx_hash_def sha256_words [OF n backfill_words]
    by (simp only: foldl.simps sha_init_def transfer_block_0 [unfolded sha_init_def] backfill_block_1 backfill_block_2 backfill_block_3 backfill_block_4) code_simp
qed

lemma backfill_hash_fresh: "tx_hash backfill_json zero_sig ZeroHash \<noteq> ZeroHash"
  unfolding backfill_hash by code_simp

end
