(* ===== verification/AdminCliProperties.thy ===== *)
theory AdminCliProperties
  imports AdminCliSample ServerProperties
begin

text \<open>
  What the commands of \<open>ledger-admin\<close> do: each is a sequence of steps of the server, the genesis can
  be made once, a reclaim moves exactly what it says, and a run of \<open>distribute\<close> that succeeds has
  nothing left to pay for a second run over the same input.
\<close>

section \<open>The commands are steps of the server\<close>

lemma cmdInit_Apply:
  assumes "cmdInit ed sign env memo db = Inr (tx, db')"
  obtains priv user where "private_key (env ''ADMIN_PRIV_KEY_HEX'') = Inr priv"
    "Apply ed PgOps db (init_tx sign priv user memo) = (tx, Inr db')"
  using assms by (auto simp: cmdInit_def Let_def result_simps case_prod_beta prod_eq_iff)

lemma cmdReclaim_Apply:
  assumes "cmdReclaimInvalid ed sign env fromID amount memo seen db = Inr (tx, db')"
  obtains priv adm frm where "private_key (env ''ADMIN_PRIV_KEY_HEX'') = Inr priv" "fromID < TreasuryDscID"
    "pg_GetAccountByPubKey seen (Public priv) = Inr (Some adm)" "DiscourseID adm = TreasuryDscID"
    "map_of (accounts seen) fromID = Some frm" "\<not> has_pubkey frm"
    "0 < (if amount = 0 then Balance frm else amount)"
    "Apply ed PgOps db (reclaim_tx sign priv fromID (if amount = 0 then Balance frm else amount) (i64 (Nonce adm + 1)) memo) =
       (tx, Inr db')"
  using assms
  by (auto simp: cmdReclaimInvalid_def Let_def result_simps pg_Begin_def pg_GetAccountByDiscourseID_def not_le
      case_prod_beta prod_eq_iff split: if_splits)

lemma payIfNotAlready_served:
  assumes "payIfNotAlready ed sign svc now db ty key uid name dry = (out, db')" "served ed sign rs sv db0 n db"
  shows "\<exists>m \<le> Suc n. served ed sign rs sv db0 m db'"
proof -
  obtain out' y where p: "PayRewardOnce ed sign svc now db ty key uid name (''backfill:'' @ ty) = (out', y)" by fastforce
  have "db' = db \<or> db' = y"
    using assms(1) p by (auto simp: payIfNotAlready_def split: prod.splits if_splits sum.splits)
  with assms(2) paid [OF assms(2) p] show ?thesis by (metis le_SucI order_refl)
qed

lemma distribute_row_served:
  assumes "distribute_row ed sign svc clock dry fp row t db = (t', db')" "served ed sign rs sv db0 n db"
  shows "\<exists>m \<le> n + 2. served ed sign rs sv db0 m db'"
proof (cases "br_DscID row \<le> 0 \<or> br_Username row = []")
  case True
  with assms show ?thesis by (auto simp: distribute_row_def intro!: exI [of _ n])
next
  case False
  obtain out db1 where p: "payIfNotAlready ed sign svc (clock (2 * to_count t)) db EventSignupBonus (user_key (br_DscID row))
      (br_DscID row) (br_Username row) dry = (out, db1)" by fastforce
  obtain m where m: "m \<le> Suc n" "served ed sign rs sv db0 m db1"
    using payIfNotAlready_served [OF p assms(2)] by blast
  obtain out2 db2 where p2: "payIfNotAlready ed sign svc (clock (2 * to_count t + 1)) db1 EventFirstPostEver
      (user_key (br_DscID row)) (br_DscID row) (br_Username row) dry = (out2, db2)" by fastforce
  obtain k where k: "k \<le> Suc m" "served ed sign rs sv db0 k db2"
    using payIfNotAlready_served [OF p2 m(2)] by blast
  have "db' = db1 \<or> db' = db2"
    using assms(1) False p p2 by (auto simp: distribute_row_def Let_def split: sum.splits if_splits)
  with m k show ?thesis by (metis add_2_eq_Suc' le_SucI le_trans not_less_eq_eq)
qed

lemma distribute_served:
  "distribute ed sign svc clock mx dry fp rows t db = (t', db') \<Longrightarrow> served ed sign rs sv db0 n db \<Longrightarrow>
   \<exists>m \<le> n + 2 * length rows. served ed sign rs sv db0 m db'"
proof (induction rows arbitrary: t db n)
  case (Cons row rows)
  show ?case
  proof (cases "0 < mx \<and> mx \<le> int (to_count t)")
    case True
    with Cons.prems show ?thesis by (intro exI [of _ n]) simp
  next
    case False
    obtain t1 db1 where r: "distribute_row ed sign svc clock dry fp row (t\<lparr>to_count := to_count t + 1\<rparr>) db = (t1, db1)"
      by fastforce
    from distribute_row_served [OF this Cons.prems(2)] obtain m where m: "m \<le> n + 2" "served ed sign rs sv db0 m db1" by blast
    from Cons.prems(1) have "distribute ed sign svc clock mx dry fp rows t1 db1 = (t', db')"
      by (simp only: distribute.simps False r if_False prod.case)
    from Cons.IH [OF this m(2)] obtain k where "k \<le> m + 2 * length rows" "served ed sign rs sv db0 k db'" by blast
    with m(1) show ?thesis by (intro exI [of _ k]) simp
  qed
qed auto

section \<open>A second run has nothing to pay\<close>

text \<open>An event is settled if no payment is due for it; a row is, if its events are.\<close>

definition settled :: "pgdb \<Rightarrow> bytes \<Rightarrow> bytes \<Rightarrow> bool" where
  "settled db ty key \<longleftrightarrow>
     (case GetRewardAmount db ty of (amount, enabled) \<Rightarrow> \<not> enabled \<or> amount \<le> 0 \<or> event_hash db ty key \<noteq> None)"

definition row_settled :: "bool \<Rightarrow> pgdb \<Rightarrow> backfillRow \<Rightarrow> bool" where
  "row_settled fp db row \<longleftrightarrow>
     br_DscID row \<le> 0 \<or> br_Username row = [] \<or>
     (settled db EventSignupBonus (user_key (br_DscID row)) \<and>
      (fp \<and> br_HasPosted row \<longrightarrow> settled db EventFirstPostEver (user_key (br_DscID row))))"

text \<open>
  No reservation for one of the events \<open>K\<close> is in flight: if such an event has a row, it carries a
  hash. \<open>row_events\<close> and \<open>feed_events\<close> are the events that a run looks at.
\<close>

definition all_recorded :: "(bytes \<times> bytes) set \<Rightarrow> pgdb \<Rightarrow> bool" where
  "all_recorded K db \<longleftrightarrow> (\<forall>k\<in>K. \<forall>r. map_of (reward_events db) k = Some r \<longrightarrow> rr_tx_hash r \<noteq> None)"

definition row_events :: "backfillRow \<Rightarrow> (bytes \<times> bytes) set" where
  "row_events row = {(EventSignupBonus, user_key (br_DscID row)), (EventFirstPostEver, user_key (br_DscID row))}"

definition feed_events :: "backfillRow list \<Rightarrow> (bytes \<times> bytes) set" where
  "feed_events rows = \<Union> (row_events ` set rows)"

definition same_config :: "pgdb \<Rightarrow> pgdb \<Rightarrow> bool" where
  "same_config db db' \<longleftrightarrow> reward_config db' = reward_config db \<and>
     (\<forall>ty key. event_hash db ty key \<noteq> None \<longrightarrow> event_hash db' ty key \<noteq> None)"

lemma same_config_refl [simp]: "same_config db db"
  by (simp add: same_config_def)

lemma same_config_trans: "same_config a b \<Longrightarrow> same_config b c \<Longrightarrow> same_config a c"
  by (simp add: same_config_def)

lemma settled_kept: "same_config db db' \<Longrightarrow> settled db ty key \<Longrightarrow> settled db' ty key"
  by (auto simp: same_config_def settled_def GetRewardAmount_def split: prod.splits)

lemma row_settled_kept: "same_config db db' \<Longrightarrow> row_settled fp db row \<Longrightarrow> row_settled fp db' row"
  using settled_kept by (auto simp: row_settled_def)

lemma PayRewardOnce_config:
  assumes "PayRewardOnce ed sign s now db ty key to name source = (out, db')"
  shows "reward_config db' = reward_config db"
proof -
  have res: "reward_config db1 = reward_config db" if "TryReserveRewardEvent now db ty key = (b, db1)" for b db1
    using that by (auto simp: TryReserveRewardEvent_def purge_stale_def Let_def split: option.splits if_splits)
  have complete: "reward_config y = reward_config x" if "CompleteRewardEvent now x ty key h = Inr y" for x y h
    using that by (auto simp: CompleteRewardEvent_def Let_def split: option.splits if_splits)
  have once: "reward_config y = reward_config x"
    if "signAndApplyTransferOnce ed sign PgOps s x to name amount source = Inr (tx, y)" for x y amount tx
    using once_Inr [OF that] Apply_tables(2) by blast
  from assms show ?thesis
  proof (cases rule: PayRewardOnce_cases)
    case (failed db1 e)
    with res show ?thesis by (auto simp: ReleaseRewardEvent_def split: option.splits)
  next
    case (unrecorded db1 amount tx e e')
    with res once show ?thesis by metis
  next
    case (paid db1 amount tx db2 res)
    with res once complete show ?thesis by metis
  qed (use res in auto)
qed

lemma PayRewardOnce_same_config:
  assumes "PayRewardOnce ed sign s now db ty key to name source = (out, db')"
  shows "same_config db db'"
  using PayRewardOnce_config [OF assms] PayRewardOnce_kept [OF _ assms] by (auto simp: same_config_def)

text \<open>After a payment that did not fail, its event is settled, and no reservation is left.\<close>

lemma TryReserve_recorded:
  assumes "all_recorded K db" "TryReserveRewardEvent now db ty key = (got, db1)" "(ty, key) \<in> K"
  shows "got \<longleftrightarrow> event_hash db ty key = None" "\<not> got \<Longrightarrow> db1 = db"
    "got \<Longrightarrow> map_of (reward_events db1) = (map_of (reward_events db))((ty, key) \<mapsto> \<lparr>rr_tx_hash = None, rr_paid_at = now\<rparr>)"
  using assms
  by (auto simp: TryReserveRewardEvent_def purge_stale_def all_recorded_def event_hash_def Let_def update_conv' delete_conv'
      split: option.splits if_splits)

lemma PayRewardOnce_settles:
  assumes "PayRewardOnce ed sign s now db ty key to name source = (Inr res, db')" "all_recorded K db"
    and "GetRewardAmount db ty = (amount, True)" "0 < amount" "0 < to" "(ty, key) \<in> K"
  shows "all_recorded K db' \<and> event_hash db' ty key \<noteq> None"
proof -
  obtain got db1 where r: "TryReserveRewardEvent now db ty key = (got, db1)" by fastforce
  note rec = TryReserve_recorded [OF assms(2) r assms(6)]
  show ?thesis
  proof (cases got)
    case False
    with rec assms r show ?thesis by (auto simp: PayRewardOnce_def TreasuryDscID_def)
  next
    case True
    then have paid: "pr_Paid res"
      using assms r by (auto simp: PayRewardOnce_def TreasuryDscID_def split: sum.splits prod.splits)
    obtain tx db2 where p: "signAndApplyTransferOnce ed sign PgOps s db1 to name (pr_Amount res) source = Inr (tx, db2)"
      "CompleteRewardEvent now db2 ty key (TxHash tx) = Inr db'"
    proof (rule payment_parts [OF assms(1) paid])
      fix y tx db2
      assume "TryReserveRewardEvent now db ty key = (True, y)"
        and p: "signAndApplyTransferOnce ed sign PgOps s y to name (pr_Amount res) source = Inr (tx, db2)"
          "CompleteRewardEvent now db2 ty key (TxHash tx) = Inr db'"
      with r have "y = db1" by simp
      with p that show thesis by blast
    qed
    have ev: "reward_events db2 = reward_events db1" using once_Inr [OF p(1)] Apply_tables(1) by blast
    have "map_of (reward_events db') = (map_of (reward_events db1))((ty, key) \<mapsto> \<lparr>rr_tx_hash = Some (TxHash tx), rr_paid_at = now\<rparr>)"
      using p(2) True rec(3) ev
      by (auto simp: CompleteRewardEvent_def Let_def update_conv' split: if_splits option.splits)
    with rec(3) [OF True] assms(2) Complete_tables(3) [OF p(2)] show ?thesis
      by (auto simp: all_recorded_def split: if_splits)
  qed
qed

lemma pay_settles:
  assumes "payIfNotAlready ed sign svc now db ty key uid name False = (Inr b, db')" "all_recorded K db" "0 < uid" "(ty, key) \<in> K"
  shows "all_recorded K db' \<and> settled db' ty key \<and> same_config db db'"
proof -
  obtain amount enabled where g: "GetRewardAmount db ty = (amount, enabled)" by fastforce
  show ?thesis
  proof (cases "enabled \<and> 0 < amount")
    case False
    with assms g show ?thesis by (auto simp: payIfNotAlready_def settled_def)
  next
    case True
    then obtain res where p: "PayRewardOnce ed sign svc now db ty key uid name (''backfill:'' @ ty) = (Inr res, db')"
      using assms(1) g by (auto simp: payIfNotAlready_def split: prod.splits sum.splits)
    from PayRewardOnce_settles [OF p assms(2)] g True assms(3,4) PayRewardOnce_same_config [OF p] show ?thesis
      by (auto simp: settled_def split: prod.splits)
  qed
qed

lemma pay_settled:
  assumes "settled db ty key"
  shows "payIfNotAlready ed sign svc now db ty key uid name False = (Inr False, db)"
proof -
  obtain amount enabled where g: "GetRewardAmount db ty = (amount, enabled)" by fastforce
  show ?thesis
  proof (cases "enabled \<and> 0 < amount")
    case False
    with g show ?thesis by (auto simp: payIfNotAlready_def)
  next
    case True
    with assms g obtain h where "event_hash db ty key = Some h" by (auto simp: settled_def)
    from PayRewardOnce_recorded [OF this, of ed sign svc now uid name "''backfill:'' @ ty"] True g show ?thesis
      by (auto simp: payIfNotAlready_def not_paid_def)
  qed
qed

lemma row_settles:
  assumes "distribute_row ed sign svc clock False fp row t db = (t', db')" "all_recorded K db" "to_stderr t' = []" "row_events row \<subseteq> K"
  shows "to_stderr t = [] \<and> all_recorded K db' \<and> row_settled fp db' row \<and> same_config db db'"
proof (cases "br_DscID row \<le> 0 \<or> br_Username row = []")
  case True
  with assms show ?thesis by (auto simp: distribute_row_def row_settled_def)
next
  case row: False
  obtain out db1 where p: "payIfNotAlready ed sign svc (clock (2 * to_count t)) db EventSignupBonus (user_key (br_DscID row))
      (br_DscID row) (br_Username row) False = (out, db1)" by fastforce
  have "\<nexists>e. out = Inl e" using assms(1,3) row p by (auto simp: distribute_row_def report_def)
  then obtain b where b: "out = Inr b" by (cases out) auto
  from pay_settles [OF p [unfolded b] assms(2)] row assms(4) have s1: "all_recorded K db1"
    "settled db1 EventSignupBonus (user_key (br_DscID row))" "same_config db db1" by (auto simp: row_events_def)
  obtain out2 db2 where p2: "payIfNotAlready ed sign svc (clock (2 * to_count t + 1)) db1 EventFirstPostEver
      (user_key (br_DscID row)) (br_DscID row) (br_Username row) False = (out2, db2)" by fastforce
  show ?thesis
  proof (cases "fp \<and> br_HasPosted row")
    case False
    with assms(1,3) row p b s1 show ?thesis
      by (auto simp: distribute_row_def Let_def row_settled_def split: if_splits)
  next
    case True
    with assms(1,3) row p p2 b have "\<nexists>e. out2 = Inl e"
      by (auto simp: distribute_row_def Let_def report_def split: if_splits)
    then obtain b2 where b2: "out2 = Inr b2" by (cases out2) auto
    from pay_settles [OF p2 [unfolded b2] s1(1)] row assms(4) have s2: "all_recorded K db2"
      "settled db2 EventFirstPostEver (user_key (br_DscID row))" "same_config db1 db2" by (auto simp: row_events_def)
    from settled_kept [OF s2(3) s1(2)] same_config_trans [OF s1(3) s2(3)] s2 True assms(1,3) row p p2 b b2 show ?thesis
      by (auto simp: distribute_row_def Let_def row_settled_def split: if_splits)
  qed
qed

lemma distribute_stderr:
  "distribute ed sign svc clock mx dry fp rows t db = (t', db') \<Longrightarrow> to_stderr t' = [] \<Longrightarrow> to_stderr t = []"
proof (induction rows arbitrary: t db)
  case (Cons row rows)
  obtain t1 db1 where r: "distribute_row ed sign svc clock dry fp row (t\<lparr>to_count := to_count t + 1\<rparr>) db = (t1, db1)"
    by fastforce
  then have "distribute ed sign svc clock mx dry fp rows t1 db1 = (t', db') \<or> t' = t"
    using Cons.prems(1) by (auto simp only: distribute.simps prod.case split: if_splits)
  then have "to_stderr t1 = [] \<or> t' = t" using Cons by blast
  with r Cons.prems(2) show ?case
    by (auto simp: distribute_row_def report_def Let_def split: if_splits prod.splits sum.splits)
qed simp

lemma distribute_settles:
  "distribute ed sign svc clock 0 False fp rows t db = (t', db') \<Longrightarrow> all_recorded K db \<Longrightarrow> to_stderr t' = [] \<Longrightarrow>
   feed_events rows \<subseteq> K \<Longrightarrow> to_stderr t = [] \<and> all_recorded K db' \<and> list_all (row_settled fp db') rows \<and> same_config db db'"
proof (induction rows arbitrary: t db)
  case (Cons row rows)
  obtain t1 db1 where r: "distribute_row ed sign svc clock False fp row (t\<lparr>to_count := to_count t + 1\<rparr>) db = (t1, db1)"
    by fastforce
  with Cons.prems(1) have d: "distribute ed sign svc clock 0 False fp rows t1 db1 = (t', db')"
    by (simp only: distribute.simps less_irrefl if_False prod.case simp_thms)
  from row_settles [OF r Cons.prems(2) distribute_stderr [OF d Cons.prems(3)]] Cons.prems(4)
  have s: "to_stderr t = []" "all_recorded K db1" "row_settled fp db1 row" "same_config db db1" "feed_events rows \<subseteq> K"
    by (auto simp: feed_events_def)
  from Cons.IH [OF d s(2) Cons.prems(3) s(5)] s row_settled_kept [of db1 db' fp row] same_config_trans [of db db1 db']
  show ?case by auto
qed simp

lemma row_settled_unpaid:
  assumes "row_settled fp db row"
  shows "\<exists>t'. distribute_row ed sign svc clock False fp row t db = (t', db) \<and> to_paidSignup t' = to_paidSignup t \<and>
    to_paidFirstPost t' = to_paidFirstPost t \<and> to_stderr t' = to_stderr t"
  using assms by (auto simp: row_settled_def distribute_row_def pay_settled Let_def)

lemma distribute_settled:
  "list_all (row_settled fp db) rows \<Longrightarrow>
   \<exists>t'. distribute ed sign svc clock mx False fp rows t db = (t', db) \<and> to_paidSignup t' = to_paidSignup t \<and>
     to_paidFirstPost t' = to_paidFirstPost t \<and> to_stderr t' = to_stderr t"
proof (induction rows arbitrary: t)
  case (Cons row rows)
  from Cons.prems have "row_settled fp db row" by simp
  from row_settled_unpaid [OF this, of ed sign svc clock "t\<lparr>to_count := to_count t + 1\<rparr>"] obtain t1 where
    t1: "distribute_row ed sign svc clock False fp row (t\<lparr>to_count := to_count t + 1\<rparr>) db = (t1, db)"
      "to_paidSignup t1 = to_paidSignup t" "to_paidFirstPost t1 = to_paidFirstPost t" "to_stderr t1 = to_stderr t" by auto
  obtain t2 where "distribute ed sign svc clock mx False fp rows t1 db = (t2, db)" "to_paidSignup t2 = to_paidSignup t1"
    "to_paidFirstPost t2 = to_paidFirstPost t1" "to_stderr t2 = to_stderr t1"
    using Cons.IH [of t1] Cons.prems by auto
  with t1 show ?case by auto
qed simp


definition feed_of :: "distributeFlags \<Rightarrow> bytes \<Rightarrow> (nat \<Rightarrow> (int \<times> bytes) option) \<Rightarrow> nat \<Rightarrow> backfillRow list" where
  "feed_of fl stdin pages n = (if fl_stdinMode fl then streamStdin stdin else streamDiscourseAPI pages 1 n)"

lemma cmdDistribute_run:
  assumes "cmdDistribute ed sign env fl clock stdin pages n db = Inr (t, db')"
  obtains svc where "distribute ed sign svc clock (fl_maxUsers fl) (fl_dryRun fl) (fl_includeFirstPost fl)
    (feed_of fl stdin pages n) no_totals db = (t, db')"
proof -
  have "\<exists>svc. distribute ed sign svc clock (fl_maxUsers fl) (fl_dryRun fl) (fl_includeFirstPost fl)
    (feed_of fl stdin pages n) no_totals db = (t, db')"
    using assms by (auto simp: cmdDistribute_def feed_of_def Let_def result_simps split: if_splits)
  with that show thesis by blast
qed

text \<open>
  Claim C37. Running \<open>distribute\<close> again is safe: when a run over a whole feed has reported no failure,
  and no reservation for an event of the feed was in flight before it, then a second run over the
  same feed, at any time and with any keys, pays nobody, reports nothing, and leaves the database
  as it is. The condition is needed: \<open>in_flight_skipped\<close>, below, shows what is done about an event
  that a worker which crashed has left reserved.
\<close>

theorem distribute_rerun:
  assumes "cmdDistribute ed sign env fl clock stdin pages n db = Inr (t, db')" "to_stderr t = []"
    and "fl_maxUsers fl = 0" "\<not> fl_dryRun fl" "all_recorded (feed_events (feed_of fl stdin pages n)) db"
    and "cmdDistribute ed' sign' env' fl clock' stdin pages n db' = Inr (t', db'')"
  shows "db'' = db' \<and> to_paidSignup t' = 0 \<and> to_paidFirstPost t' = 0 \<and> to_stderr t' = []"
proof -
  obtain svc where "distribute ed sign svc clock 0 False (fl_includeFirstPost fl) (feed_of fl stdin pages n) no_totals db = (t, db')"
    using cmdDistribute_run [OF assms(1)] assms(3,4) by auto
  from distribute_settles [OF this assms(5,2) order_refl] have
    "list_all (row_settled (fl_includeFirstPost fl) db') (feed_of fl stdin pages n)" by simp
  moreover obtain svc' where
    "distribute ed' sign' svc' clock' 0 False (fl_includeFirstPost fl) (feed_of fl stdin pages n) no_totals db' = (t', db'')"
    using cmdDistribute_run [OF assms(6)] assms(3,4) by auto
  ultimately show ?thesis
    using distribute_settled [of "fl_includeFirstPost fl" db' "feed_of fl stdin pages n" ed' sign' svc' clock' 0 no_totals]
    by (auto simp: no_totals_def)
qed

text \<open>A run for one user, on the sample database.\<close>

definition sample_flags :: distributeFlags where
  "sample_flags = \<lparr>fl_stdinMode = True, fl_apiURL = [], fl_apiKey = [], fl_maxUsers = 0, fl_dryRun = False, fl_includeFirstPost = True\<rparr>"

definition sample_payer :: RewardService where
  "sample_payer = \<lparr>rs_AdminPrivKey = zero_priv, rs_AdminPubKey = zero_key, rs_WebhookSecret = []\<rparr>"

lemma sample_feed: "streamStdin ''7,bob'' = [\<lparr>br_DscID = 7, br_Username = ''bob'', br_HasPosted = False\<rparr>]" "user_key 7 = ''user:7''"
  by code_simp+

lemma sample_service: "distribute_service sample_env = Inr sample_payer"
  by (simp add: distribute_service_def sample_payer_def)

lemma sample_backfill:
  "case PayRewardOnce toy_ed toy_sign64 sample_payer now sample_db ''signup_bonus'' ''user:7'' 7 ''bob'' ''backfill:signup_bonus'' of
    (Inr res, db') \<Rightarrow> pr_Paid res \<and> pr_Amount res = 100 | _ \<Rightarrow> False"
proof (rule PayRewardOnce_succeeds [where d = 0 and a = "sample_account SupplyCap"])
  show "text_ok ''backfill:signup_bonus''" by code_simp
  show "let tx = reward_tx toy_sign64 sample_payer (i64 (Nonce (sample_account SupplyCap) + 1)) 7 100 ''backfill:signup_bonus'' ''bob''
    in tx_hash (Payload tx) (Sig tx) (TxHash (last (transactions sample_db))) \<notin> TxHash ` set (transactions sample_db)"
    using backfill_hash_fresh by (simp add: sample_reward reward_tx_def sample_payer_def backfill_json_payload)
  show "VerifySig toy_ed (rs_AdminPubKey sample_payer) m (toy_sign64 (rs_AdminPrivKey sample_payer) m)" for m
    by (simp add: sample_payer_def VerifySig_def PubKeyLen_def SigLen_def)
qed (simp_all add: sample_reward sample_payer_def)

lemma sample_run:
  obtains t db' where "cmdDistribute toy_ed toy_sign64 sample_env sample_flags (\<lambda>_. 0) ''7,bob'' Map.empty 0 sample_db = Inr (t, db')"
    "to_stderr t = []" "to_paidSignup t = 1"
proof -
  obtain res db' where p: "PayRewardOnce toy_ed toy_sign64 sample_payer 0 sample_db ''signup_bonus'' ''user:7'' 7 ''bob''
      ''backfill:signup_bonus'' = (Inr res, db')" "pr_Paid res"
    using sample_backfill [of 0] by (auto split: prod.splits sum.splits)
  then show thesis
    by (intro that, simp add: cmdDistribute_def sample_service sample_feed sample_flags_def distribute_row_def
        payIfNotAlready_def EventSignupBonus_def sample_reward_facts no_totals_def) simp_all
qed

theorem distribute_rerun_witness:
  "\<exists>t db' t'. cmdDistribute toy_ed toy_sign64 sample_env sample_flags (\<lambda>_. 0) ''7,bob'' Map.empty 0 sample_db = Inr (t, db') \<and>
     to_paidSignup t = 1 \<and>
     cmdDistribute toy_ed toy_sign64 sample_env sample_flags (\<lambda>_. 100000) ''7,bob'' Map.empty 0 db' = Inr (t', db') \<and>
     to_paidSignup t' = 0"
proof (rule sample_run)
  fix t db'
  assume run: "cmdDistribute toy_ed toy_sign64 sample_env sample_flags (\<lambda>_. 0) ''7,bob'' Map.empty 0 sample_db = Inr (t, db')"
    "to_stderr t = []" "to_paidSignup t = 1"
  obtain t' db'' where again: "cmdDistribute toy_ed toy_sign64 sample_env sample_flags (\<lambda>_. 100000) ''7,bob'' Map.empty 0 db' = Inr (t', db'')"
    by (fastforce simp: cmdDistribute_def sample_service sample_flags_def)
  have "all_recorded K sample_db" for K by (simp add: all_recorded_def sample_db_def pg_empty_def)
  from distribute_rerun [OF run(1,2) _ _ this again] run again show ?thesis by (auto simp: sample_flags_def)
qed

text \<open>
  An event that is reserved and not paid, because its worker crashed, is skipped without a failure while
  the reservation is fresh, as if it had been paid. Once it is stale, the event is due again: a
  later run takes the reservation over. So a run that reports no failure may have left somebody
  unpaid, and a second run may pay.
\<close>

theorem in_flight_skipped:
  assumes "map_of (reward_events db) (ty, key) = Some \<lparr>rr_tx_hash = None, rr_paid_at = t\<rparr>"
  shows "now \<le> t + stale_after \<Longrightarrow> payIfNotAlready ed sign svc now db ty key uid name False = (Inr False, db)"
    and "t + stale_after < now \<Longrightarrow> fst (TryReserveRewardEvent now db ty key)"
proof -
  assume "now \<le> t + stale_after"
  then have "TryReserveRewardEvent now db ty key = (False, db)"
    using assms by (simp add: TryReserveRewardEvent_def purge_stale_def)
  then show "payIfNotAlready ed sign svc now db ty key uid name False = (Inr False, db)"
    by (auto simp: payIfNotAlready_def PayRewardOnce_def not_paid_def split: prod.splits)
next
  assume "t + stale_after < now"
  then show "fst (TryReserveRewardEvent now db ty key)"
    using assms by (auto simp: TryReserveRewardEvent_def purge_stale_def Let_def delete_conv' split: option.splits)
qed

section \<open>The genesis\<close>

lemma init_tx_simps [simp]:
  "Type (init_tx sign priv user memo) = TxGenesis" "Signer (init_tx sign priv user memo) = Public priv"
  "Sig (init_tx sign priv user memo) = sign priv (Payload (init_tx sign priv user memo))"
  by (simp_all add: init_tx_def Let_def)

lemma init_payload:
  "valid_utf8 user \<Longrightarrow> valid_utf8 memo \<Longrightarrow> genesis_payload (Payload (init_tx sign priv user memo)) =
     Some \<lparr>gp_To = Public priv, gp_TreasuryUser = user, gp_Amount = SupplyCap, gp_Memo = memo\<rparr>"
  using genesis_decodes [of "\<lparr>gp_To = Public priv, gp_TreasuryUser = user, gp_Amount = SupplyCap, gp_Memo = memo\<rparr>"]
  by (simp add: init_tx_def Let_def SupplyCap_def in_i64_def)


text \<open>
  Claim C38. The genesis is made once: with a key pair that signs, \<open>init\<close> succeeds on the empty
  database, gives the treasury, under the operator's key, the whole supply, and starts the hash
  chain; on every database that has a log it fails with \<open>ErrGenesisExists\<close>.
\<close>

theorem init_once:
  assumes "env ''DATABASE_URL'' \<noteq> []" "env ''ADMIN_PRIV_KEY_HEX'' \<noteq> []" "private_key (env ''ADMIN_PRIV_KEY_HEX'') = Inr priv"
    and "text_ok (env ''TREASURY_USERNAME'')" "valid_utf8 memo" "\<And>m. VerifySig ed (Public priv) m (sign priv m)"
  shows "(\<exists>tx db. cmdInit ed sign env memo pg_empty = Inr (tx, db) \<and>
    (\<exists>a. accounts db = [(TreasuryDscID, a)] \<and> Pubkey a = Some (Public priv) \<and> Balance a = SupplyCap \<and> Nonce a = 0) \<and>
    map Tx.truncate (transactions db) = [tx] \<and> chain_from ed 0 ZeroHash [tx]) \<and>
    (\<forall>db. pg_ok db \<longrightarrow> transactions db \<noteq> [] \<longrightarrow>
      (\<exists>e. cmdInit ed sign env memo db = Inl e \<and> errors_is e ErrGenesisExists))"
proof -
  define user where "user = (if env ''TREASURY_USERNAME'' = [] then ''TREASURY'' else env ''TREASURY_USERNAME'')"
  let ?tx = "init_tx sign priv user memo"
  have user: "text_ok user" "user \<noteq> []" using assms(4) by (auto simp: user_def)
  then have dec: "genesis_payload (Payload ?tx) = Some \<lparr>gp_To = Public priv, gp_TreasuryUser = user, gp_Amount = SupplyCap, gp_Memo = memo\<rparr>"
    using assms(5) by (intro init_payload) (simp_all add: text_ok_def)
  have cmd: "cmdInit ed sign env memo db = (case Apply ed PgOps db ?tx of (tx, r) \<Rightarrow>
      and_then (with_context ''apply genesis'' r) (\<lambda>db. Inr (tx, db)))" for db
    using assms(1-3) by (simp add: cmdInit_def user_def Let_def)
  have sig: "VerifySig ed (Signer ?tx) (Payload ?tx) (Sig ?tx)" using assms(6) by simp
  note len = VerifySigD [OF sig]
  have again: "\<exists>e. cmdInit ed sign env memo db = Inl e \<and> errors_is e ErrGenesisExists" if "pg_ok db" "transactions db \<noteq> []" for db
    using that sig
    by (simp add: cmd Apply_def pg_Begin_def apply_in_def pg_LockLedger_def pg_LastTx_def max_leaf_sorted pg_okD link_tx_def)
  have first: "\<exists>tx db. cmdInit ed sign env memo pg_empty = Inr (tx, db) \<and>
    (\<exists>a. accounts db = [(TreasuryDscID, a)] \<and> Pubkey a = Some (Public priv) \<and> Balance a = SupplyCap \<and> Nonce a = 0) \<and>
    map Tx.truncate (transactions db) = [tx] \<and> chain_from ed 0 ZeroHash [tx]"
  proof -
    let ?out = "\<lparr>LeafIndex = 0, Type = TxGenesis, Payload = Payload ?tx, Sig = sign priv (Payload ?tx), Signer = Public priv,
      PrevHash = ZeroHash, TxHash = tx_hash (Payload ?tx) (sign priv (Payload ?tx)) ZeroHash\<rparr>"
    have out: "?tx\<lparr>LeafIndex := 0, PrevHash := ZeroHash, TxHash := h\<rparr> = ?out\<lparr>TxHash := h\<rparr>" for h
      by (rule Tx.equality) simp_all
    have key: "Public priv \<noteq> []" using len by (auto simp: PubKeyLen_def)
    let ?row = "Tx.extend ?out (TxRow.fields None None None)"
    have row: "Tx.truncate ?row = ?out" "Apply ed PgOps pg_empty ?tx = (?out, Inr (pg_empty
        \<lparr>accounts := [(TreasuryDscID, \<lparr>DiscourseID = TreasuryDscID, Pubkey = Some (Public priv), Username = user, Nonce = 0,
           Balance = SupplyCap\<rparr>)], transactions := [?row]\<rparr>))"
      using sig len dec user key out
      by (simp_all add: Apply_def pg_Begin_def apply_in_def pg_LockLedger_def pg_LastTx_def pg_empty_def
        max_leaf_def link_tx_def apply_linked_def Build_def dispatch_def applyGenesis_def pg_GenesisExists_def
        treasury_account_def TreasuryDscID_def pg_UpsertAccount_def upsert_row_def key_free_def
        pg_InsertTx_def DeriveTxFields_def tx_type_check_def checkSupply_def requiresFullSupplyCheck_def
        pg_TotalBalance_def sum_on_def SupplyCap_def in_i64_def pg_Commit_def Let_def pg_row_def Tx.defs)
    with sig show ?thesis by (simp add: cmd TreasuryDscID_def)
  qed
  from first again show ?thesis by blast
qed

theorem init_once_witness:
  "\<exists>tx db e. cmdInit toy_ed toy_sign64 sample_env ''hello'' pg_empty = Inr (tx, db) \<and>
     cmdInit toy_ed toy_sign64 sample_env ''hello'' sample_db = Inl e \<and> errors_is e ErrGenesisExists"
proof -
  have "text_ok (sample_env ''TREASURY_USERNAME'')" "valid_utf8 ''hello''" by code_simp+
  moreover have "VerifySig toy_ed (Public zero_priv) m (toy_sign64 zero_priv m)" for m
    by (simp add: VerifySig_def PubKeyLen_def SigLen_def)
  ultimately show ?thesis
    using init_once [of sample_env zero_priv "''hello''" toy_ed toy_sign64] sample_db_ok(1) sample_accounts(4) by fastforce
qed

section \<open>Reclaiming\<close>

lemma reclaim_tx_simps [simp]:
  "Type (reclaim_tx sign priv uid amount nonce memo) = TxReclaimInvalid"
  "Signer (reclaim_tx sign priv uid amount nonce memo) = Public priv"
  "Sig (reclaim_tx sign priv uid amount nonce memo) = sign priv (Payload (reclaim_tx sign priv uid amount nonce memo))"
  by (simp_all add: reclaim_tx_def Let_def)

lemma reclaim_tx_payload:
  assumes "in_i64 uid" "in_i64 amount" "in_i64 nonce" "valid_utf8 memo"
  shows "reclaim_payload (Payload (reclaim_tx sign priv uid amount nonce memo)) =
    Some \<lparr>ri_Admin = Public priv, ri_FromDiscourseID = uid, ri_Amount = amount, ri_Nonce = nonce, ri_Memo = memo\<rparr>"
  using reclaim_decodes [of "\<lparr>ri_Admin = Public priv, ri_FromDiscourseID = uid, ri_Amount = amount, ri_Nonce = nonce, ri_Memo = memo\<rparr>"] assms
  by (simp add: reclaim_tx_def Let_def)

text \<open>
  A reclaim that succeeds moves exactly what it says, whatever happened between its reading and its
  writing: the amount of the flag, or the whole balance that it read, from a negative account that
  has no key to the treasury, whose nonce goes up by one; nothing else changes.
\<close>

theorem reclaim_effect:
  assumes "pg_ok db" "supply_ok (pg_view db)" "indexed (pg_view db)" "room 0 (pg_view db)"
    and "cmdReclaimInvalid ed sign env fromID amount memo seen db = Inr (tx, db')"
    and "in_i64 fromID" "in_i64 amount" "valid_utf8 memo"
    and "\<And>a. map_of (accounts seen) fromID = Some a \<Longrightarrow> in_i64 (Balance a)"
  shows "\<exists>s m a b. map_of (accounts seen) fromID = Some s \<and> m = (if amount = 0 then Balance s else amount) \<and>
    fromID < 0 \<and> 0 < m \<and> map_of (accounts db) fromID = Some b \<and> \<not> has_pubkey b \<and> m \<le> Balance b \<and>
    map_of (accounts db) TreasuryDscID = Some a \<and> Pubkey a = Some (Signer tx) \<and>
    map_of (accounts db') = (map_of (accounts db))(fromID \<mapsto> b\<lparr>Balance := Balance b - m\<rparr>,
      TreasuryDscID \<mapsto> a\<lparr>Balance := Balance a + m, Nonce := i64 (Nonce a + 1)\<rparr>)"
proof -
  obtain priv s and adm :: Account where r: "fromID < TreasuryDscID" "map_of (accounts seen) fromID = Some s"
    "0 < (if amount = 0 then Balance s else amount)"
    "Apply ed PgOps db (reclaim_tx sign priv fromID (if amount = 0 then Balance s else amount) (i64 (Nonce adm + 1)) memo) =
       (tx, Inr db')"
    by (rule cmdReclaim_Apply [OF assms(5)]) (rule that; assumption)
  let ?m = "if amount = 0 then Balance s else amount"
  have "in_i64 ?m" using assms(7) assms(9) [OF r(2)] by simp
  note pay = reclaim_tx_payload [OF assms(6) this in_i64_i64 assms(8)]
  note f = Apply_fields [OF r(4)]
  have ty: "Type tx = TxReclaimInvalid" "Signer tx = Public priv" using f by simp_all
  have dec: "reclaim_payload (Payload tx) = Some \<lparr>ri_Admin = Public priv, ri_FromDiscourseID = fromID, ri_Amount = ?m,
      ri_Nonce = i64 (Nonce adm + 1), ri_Memo = memo\<rparr>" using f pay by simp
  have step: "ledger_step ed (pg_view db) tx (pg_view db')" using pg_Apply_step [OF assms(1,3,4) r(4)] by simp
  from step show ?thesis
  proof cases
    case (reclaim p a b m)
    with dec have p: "p = \<lparr>ri_Admin = Public priv, ri_FromDiscourseID = fromID, ri_Amount = ?m,
      ri_Nonce = i64 (Nonce adm + 1), ri_Memo = memo\<rparr>" by simp
    have wf: "wf_accts (pg_view db)" using assms(1) by (auto simp: wf_accts_def finite_dom_map_of pg_okD)
    have ne: "fromID \<noteq> TreasuryDscID" using r(1) by simp
    have at: "accts (pg_view db) fromID = Some b" "accts (pg_view db) TreasuryDscID = Some a" "?m \<le> Balance b"
      using reclaim p by simp_all
    note mv = move_ok [OF wf assms(2) at(1) ne, of a "a\<lparr>Balance := 0\<rparr>" ?m]
    have "i64 (Balance b - ?m) = Balance b - ?m" "i64 (Balance a + ?m) = Balance a + ?m"
      using mv(1,2) at r(3) by auto
    moreover have "map_of (accounts db') = m" using arg_cong [OF reclaim(1), of accts] by (simp add: append_tx_def)
    ultimately have "map_of (accounts db') = (map_of (accounts db))(fromID \<mapsto> b\<lparr>Balance := Balance b - ?m\<rparr>,
      TreasuryDscID \<mapsto> a\<lparr>Balance := Balance a + ?m, Nonce := i64 (Nonce a + 1)\<rparr>)"
      using reclaim p by simp
    with reclaim p r ty at show ?thesis by (auto simp: TreasuryDscID_def)
  qed (use ty in \<open>simp_all add: TxGenesis_def TxTransfer_def TxRotateKey_def TxReclaimInvalid_def\<close>)
qed

end
