(* ===== verification/SidecarProperties.thy ===== *)
theory SidecarProperties
  imports Sidecar HistoryProperties AdminCliProperties
begin

text \<open>
  What the configuration guarantees, what an anchor commits to, and that the registration of
  the smoke test is refused.
\<close>

lemma private_key_length: "private_key h = Inr priv \<Longrightarrow> length priv = 64 \<and> length (Public priv) = PubKeyLen"
  by (auto simp: private_key_def PrivateKeySize_def Public_def PubKeyLen_def split: option.splits if_splits)

lemma privateKeyFromEnv_length: "privateKeyFromEnv env a b = Inr (Some priv) \<Longrightarrow> length priv = 64 \<and> length (Public priv) = PubKeyLen"
  by (auto simp: privateKeyFromEnv_def Let_def result_simps dest: private_key_length split: if_splits)

text \<open>
  A server that starts is guarded: header authentication is off unless it is switched on with a
  token of at least 32 bytes; single sign-on and the webhook have secrets, the services that sign
  have a key pair, and the sessions of the admin page are signed with at least 32 bytes.
\<close>

theorem startup_guards:
  assumes "startup env rnd = Inr c" "length rnd = 32"
  shows "(sv_DevHeaderAuthToken (cf_Server c) = [] \<or>
      (env ''WALLET_ALLOW_HEADER_AUTH'' = ''1'' \<and> 32 \<le> length (sv_DevHeaderAuthToken (cf_Server c)))) \<and>
    pred_option (\<lambda>d. dc_Secret d \<noteq> [] \<and> dc_ForumBase d \<noteq> []) (sv_DC (cf_Server c)) \<and>
    pred_option (\<lambda>r. rs_WebhookSecret r \<noteq> [] \<and> length (rs_AdminPrivKey r) = 64 \<and> rs_AdminPubKey r = Public (rs_AdminPrivKey r))
      (cf_Rewards c) \<and>
    pred_option (\<lambda>l. length (ls_AdminPubKey l) = PubKeyLen \<and> ls_snapshot l = None) (cf_TxLog c) \<and>
    pred_option (\<lambda>a. length (ad_AdminPubKey a) = PubKeyLen \<and> 32 \<le> length (ad_SessionSecret a)) (cf_Admin c) \<and>
    0 \<le> cf_RateLimitPerMinute c \<and> 0 \<le> cf_RateLimitBurst c"
proof -
  have env: "0 \<le> n" if "envInt env x = Inr n" for x n
    using that by (auto simp: envInt_def Let_def split: option.splits if_splits)
  obtain perMinute burst tok dc rw tl where parts: "envInt env ''WALLET_RATE_LIMIT_PER_MINUTE'' = Inr perMinute"
    "envInt env ''WALLET_RATE_LIMIT_BURST'' = Inr burst" "header_auth env = Inr tok" "discourse_connect env = Inr dc"
    "reward_service env = Inr rw" "log_service env = Inr tl"
    and c: "cf_RateLimitPerMinute c = perMinute" "cf_RateLimitBurst c = burst"
    "cf_Server c = \<lparr>sv_DC = dc, sv_DevHeaderAuthToken = tok\<rparr>" "cf_Rewards c = rw" "cf_TxLog c = tl"
    "cf_Admin c = admin_service env rnd"
    using assms(1) by (auto simp: startup_def result_simps)
  have "tok = [] \<or> (env ''WALLET_ALLOW_HEADER_AUTH'' = ''1'' \<and> 32 \<le> length tok)"
    using parts(3) by (auto simp: header_auth_def Let_def split: if_splits)
  moreover have "pred_option (\<lambda>d. dc_Secret d \<noteq> [] \<and> dc_ForumBase d \<noteq> []) dc"
    using parts(4) by (auto simp: discourse_connect_def Let_def split: if_splits)
  moreover have "pred_option (\<lambda>r. rs_WebhookSecret r \<noteq> [] \<and> length (rs_AdminPrivKey r) = 64 \<and>
      rs_AdminPubKey r = Public (rs_AdminPrivKey r)) rw"
    using parts(5) by (auto simp: reward_service_def Let_def result_simps dest: privateKeyFromEnv_length split: if_splits option.splits)
  moreover have "pred_option (\<lambda>l. length (ls_AdminPubKey l) = PubKeyLen \<and> ls_snapshot l = None) tl"
    using parts(6) by (auto simp: log_service_def result_simps pred_option_def dest: privateKeyFromEnv_length)
  moreover have "pred_option (\<lambda>a. length (ad_AdminPubKey a) = PubKeyLen \<and> 32 \<le> length (ad_SessionSecret a)) (admin_service env rnd)"
    using assms(2) by (auto simp: admin_service_def split: option.splits)
  ultimately show ?thesis using env [OF parts(1)] env [OF parts(2)] c by simp
qed

text \<open>
  The smoke test cannot pass: its registration carries neither a session nor the token of header
  authentication, and is answered 401 by every server, in every configuration.
\<close>

theorem smoke_register_refused:
  "\<not> smoke_registered (fst (register PgOps sv now db (smoke_register n name pub))) \<and>
   snd (register PgOps sv now db (smoke_register n name pub)) = db"
  by (auto simp: register_def resolveCurrentUser_def cookie_user_def smoke_register_def smoke_registered_def split: option.splits)

text \<open>
  What the command anchors: the digest of the signed bytes of a tree head that verifies and covers the
  whole log; the calendar's receipt for exactly this digest is stored with the checkpoint.
\<close>

theorem anchor_commits:
  assumes "indexed (pg_view db)" "room 0 (pg_view db)" "checkpoints_ok ed cps" "\<And>priv m. ed (Public priv) m (sign priv m)"
    and "cmdAnchorSTH ed sign env post flag db now cps = (Inr (sth, receipt), cps')"
  shows "verifies ed sth \<and> sth_TreeSize sth = int (length (transactions db)) \<and> transactions db \<noteq> [] \<and>
    (\<exists>url body. post url (sha256 (signedSTHBytes (sth_TreeSize sth) (Root (map TxHash (transactions db))) (sth_TimestampMS sth))) =
       Some (200, body) \<and> receipt = take 65536 body) \<and>
    receipt_of cps' (sth_TreeSize sth) = receipt"
proof -
  obtain priv s' cps1 url where r: "CurrentSTH ed sign \<lparr>ls_AdminPrivKey = priv, ls_AdminPubKey = Public priv, ls_snapshot = None\<rparr> db now cps =
      (Inr sth, s', cps1)" "sth_TreeSize sth \<noteq> 0" "Submit post url (DigestSTH (canonical_sth sth)) = Inr receipt"
    "AnchorCheckpoint cps1 (sth_TreeSize sth) receipt = Inr cps'"
    using assms(5) by (auto simp: cmdAnchorSTH_def Let_def split: if_splits sum.splits prod.splits)
  have law: "verifies ed sth" "sth_TreeSize sth = int (length (transactions db))"
    "sth_RootHash sth = hex_encode (Root (map TxHash (transactions db)))"
    using CurrentSTH_law [OF _ assms(1-3) _ r(1)] assms(4) by (auto simp: snap_ok_def)
  have "DigestSTH (canonical_sth sth) =
      sha256 (signedSTHBytes (sth_TreeSize sth) (Root (map TxHash (transactions db))) (sth_TimestampMS sth))"
    by (simp add: DigestSTH_def canonical_sth_def law(3))
  then have "\<exists>url body. post url (sha256 (signedSTHBytes (sth_TreeSize sth) (Root (map TxHash (transactions db))) (sth_TimestampMS sth))) =
       Some (200, body) \<and> receipt = take 65536 body"
    using r(3) by (auto simp: Submit_def Let_def split: if_splits option.splits prod.splits)
  moreover have "receipt_of cps' (sth_TreeSize sth) = receipt"
    using r(4) by (auto simp: AnchorCheckpoint_def receipt_of_def map_of_map_entry split: if_splits option.splits)
  ultimately show ?thesis using law(1,2) r(2) by auto
qed

end
