(* ===== verification/CheckpointProperties.thy ===== *)
theory CheckpointProperties
  imports Admin LogProperties
begin

text \<open>
  The table of checkpoints: whatever the log service and the anchoring do to it, the first tree head
  that was handed out for a size stays the only one. The steps are the calls that write the table, by
  any number of services, with any keys, over any states of the database.
\<close>

inductive checkpoint_step ::
  "(bytes \<Rightarrow> bytes \<Rightarrow> bytes \<Rightarrow> bool) \<Rightarrow> (bytes \<Rightarrow> bytes \<Rightarrow> bytes) \<Rightarrow> checkpoints \<Rightarrow> checkpoints \<Rightarrow> bool" for ed sign where
  headed: "ls_AdminPubKey s \<noteq> [] \<Longrightarrow> CurrentSTH ed sign s db ts cps = (r, s', cps') \<Longrightarrow> checkpoint_step ed sign cps cps'"
| listed: "ls_AdminPubKey s \<noteq> [] \<Longrightarrow> Checkpoints ed s cps limit = (r, cps') \<Longrightarrow> checkpoint_step ed sign cps cps'"
| anchored: "AnchorCheckpoint cps n receipt = Inr cps' \<Longrightarrow> checkpoint_step ed sign cps cps'"

text \<open>One row per size, and no row with an empty key: \<open>NULL\<close> stands for a key that was not stored.\<close>

definition table_ok :: "checkpoints \<Rightarrow> bool" where
  "table_ok cps \<longleftrightarrow> distinct (map fst cps) \<and> (\<forall>n c. map_of cps n = Some c \<longrightarrow> cp_admin_pubkey c \<noteq> Some [])"

text \<open>The tree head of a row that has its key.\<close>

definition head_of :: "int \<Rightarrow> checkpoint \<Rightarrow> bytes \<Rightarrow> STH" where
  "head_of n c pub =
     \<lparr>sth_TreeSize = n, sth_RootHash = hex_encode (cp_root_hash c), sth_TimestampMS = cp_timestamp_ms c,
      sth_AdminSig = hex_encode (cp_admin_sig c), sth_AdminPubKey = hex_encode pub\<rparr>"

definition settled_head :: "checkpoints \<Rightarrow> STH \<Rightarrow> bool" where
  "settled_head cps sth \<longleftrightarrow>
     (\<exists>c. map_of cps (sth_TreeSize sth) = Some c \<and> stored_pub c \<noteq> [] \<and> sth = head_of (sth_TreeSize sth) c (stored_pub c))"

section \<open>The statements that write\<close>

lemma insert_kept:
  assumes "insert_checkpoint cps n new = (c, cps')" "table_ok cps" "cp_admin_pubkey new \<noteq> Some []"
  shows "table_ok cps'" "map_of cps' n = Some c" "settled_head cps sth \<Longrightarrow> settled_head cps' sth"
  using assms
  by (auto simp: insert_checkpoint_def table_ok_def settled_head_def update_conv' distinct_update
      simp del: map_of_eq_Some_iff split: option.splits if_splits)

text \<open>An update of one row that leaves the tree head in it alone.\<close>

lemma entry_kept:
  assumes "table_ok cps"
    and "\<And>c. cp_admin_pubkey c \<noteq> Some [] \<Longrightarrow> cp_admin_pubkey (f c) \<noteq> Some []"
    and "\<And>c. stored_pub c \<noteq> [] \<Longrightarrow> stored_pub (f c) = stored_pub c \<and> cp_root_hash (f c) = cp_root_hash c \<and>
      cp_timestamp_ms (f c) = cp_timestamp_ms c \<and> cp_admin_sig (f c) = cp_admin_sig c"
  shows "table_ok (AList.map_entry n f cps)" "settled_head cps sth \<Longrightarrow> settled_head (AList.map_entry n f cps) sth"
proof -
  show "table_ok (AList.map_entry n f cps)"
    using assms(1,2)
    by (auto simp: table_ok_def map_of_map_entry distinct_map_entry simp del: map_of_eq_Some_iff split: if_splits option.splits)
  assume "settled_head cps sth"
  then obtain c where c: "map_of cps (sth_TreeSize sth) = Some c" "stored_pub c \<noteq> []"
    "sth = head_of (sth_TreeSize sth) c (stored_pub c)" by (auto simp: settled_head_def)
  define c' where "c' = (if sth_TreeSize sth = n then f c else c)"
  have "map_of (AList.map_entry n f cps) (sth_TreeSize sth) = Some c'"
    using c(1) by (auto simp: c'_def map_of_map_entry simp del: map_of_eq_Some_iff)
  moreover have "stored_pub c' = stored_pub c \<and> head_of m c' k = head_of m c k" for m k
    using assms(3) [OF c(2)] by (simp add: c'_def head_of_def)
  ultimately show "settled_head (AList.map_entry n f cps) sth" using c(2,3) by (auto simp: settled_head_def)
qed

lemma pubkey_kept:
  assumes "checkpointPubKey ed s cps n root ts sig stored = Inr (pub, cps')" "table_ok cps" "ls_AdminPubKey s \<noteq> []"
  shows "table_ok cps'" "settled_head cps sth \<Longrightarrow> settled_head cps' sth"
proof -
  have "cps' = cps \<or> cps' = AList.map_entry n (\<lambda>c. if cp_admin_pubkey c = None
      then c\<lparr>cp_admin_pubkey := Some (ls_AdminPubKey s)\<rparr> else c) cps"
    using assms(1) by (auto simp: checkpointPubKey_def split: if_splits)
  then show "table_ok cps'" "settled_head cps sth \<Longrightarrow> settled_head cps' sth"
    using assms(2,3) by (auto intro!: entry_kept simp: stored_pub_def split: option.splits if_splits)
qed

lemma persist_kept:
  assumes "persistCheckpoint ed sign s ts cps n root = (r, cps')" "table_ok cps" "ls_AdminPubKey s \<noteq> []"
  shows "table_ok cps' \<and> (settled_head cps sth \<longrightarrow> settled_head cps' sth)"
proof -
  obtain c cps1 where c: "insert_checkpoint cps n \<lparr>cp_root_hash = root, cp_timestamp_ms = ts,
      cp_admin_sig = sign (ls_AdminPrivKey s) (signedSTHBytes n root ts),
      cp_admin_pubkey = Some (ls_AdminPubKey s), cp_ots_receipt = None\<rparr> = (c, cps1)" by fastforce
  note i = insert_kept [OF c assms(2)]
  show ?thesis
    using assms(1,3) c i pubkey_kept [OF _ i(1) assms(3)]
    by (auto simp: persistCheckpoint_def Let_def split: if_splits sum.splits)
qed

lemma CurrentSTH_persists:
  assumes "CurrentSTH ed sign s db ts cps = (r, s', cps')"
  shows "cps' = cps \<and> (\<exists>e. r = Inl e) \<or>
    (\<exists>s1 n root. persistCheckpoint ed sign s1 ts cps n root = (r, cps') \<and> ls_AdminPubKey s1 = ls_AdminPubKey s)"
proof -
  have "ls_AdminPubKey (snd (snapshot_of s db k)) = ls_AdminPubKey s" for k
    by (auto simp: snapshot_of_def store_snapshot_def split: sum.splits option.splits)
  with assms show ?thesis
    by (auto simp: CurrentSTH_def split: prod.splits sum.splits) (metis snd_conv)+
qed

lemma summarise_kept:
  "summarise ed s cps rows = (r, cps') \<Longrightarrow> table_ok cps \<Longrightarrow> ls_AdminPubKey s \<noteq> [] \<Longrightarrow>
   table_ok cps' \<and> (settled_head cps sth \<longrightarrow> settled_head cps' sth)"
proof (induction rows arbitrary: cps r)
  case (Cons row rows)
  obtain n c where row: "row = (n, c)" by fastforce
  show ?case
  proof (cases "checkpointPubKey ed s cps n (cp_root_hash c) (cp_timestamp_ms c) (cp_admin_sig c) (stored_pub c)")
    case (Inl e)
    with Cons.prems row show ?thesis by simp
  next
    case (Inr p)
    obtain pub cps1 where p: "p = (pub, cps1)" by fastforce
    obtain r1 where "summarise ed s cps1 rows = (r1, cps')" using Cons.prems(1) row Inr p by (auto split: prod.splits)
    with Cons.IH pubkey_kept [OF Inr [unfolded p] Cons.prems(2,3)] Cons.prems(3) show ?thesis by blast
  qed
qed simp

lemma checkpoint_step_kept:
  "checkpoint_step ed sign cps cps' \<Longrightarrow> table_ok cps \<Longrightarrow> table_ok cps' \<and> (settled_head cps sth \<longrightarrow> settled_head cps' sth)"
proof (induction rule: checkpoint_step.induct)
  case (headed s db ts cps r s' cps')
  with CurrentSTH_persists [OF headed(2)] persist_kept show ?case by metis
next
  case (listed s cps limit r cps')
  then show ?case using summarise_kept by (simp add: Checkpoints_def Let_def)
next
  case (anchored cps n receipt cps')
  then show ?case by (auto simp: AnchorCheckpoint_def stored_pub_def intro!: entry_kept split: if_splits)
qed

lemma checkpoint_steps_kept:
  "(checkpoint_step ed sign)\<^sup>*\<^sup>* cps cps' \<Longrightarrow> table_ok cps \<Longrightarrow> table_ok cps' \<and> (settled_head cps sth \<longrightarrow> settled_head cps' sth)"
  by (induction rule: rtranclp_induct) (auto dest: checkpoint_step_kept)

section \<open>What is handed out\<close>

lemma persist_settles:
  assumes "persistCheckpoint ed sign s ts cps n root = (Inr sth, cps')" "table_ok cps" "ls_AdminPubKey s \<noteq> []"
  shows "settled_head cps' sth \<and> sth_TreeSize sth = n"
proof -
  obtain c cps1 where c: "insert_checkpoint cps n \<lparr>cp_root_hash = root, cp_timestamp_ms = ts,
      cp_admin_sig = sign (ls_AdminPrivKey s) (signedSTHBytes n root ts),
      cp_admin_pubkey = Some (ls_AdminPubKey s), cp_ots_receipt = None\<rparr> = (c, cps1)" by fastforce
  note i = insert_kept [OF c assms(2)]
  have key: "cp_admin_pubkey c \<noteq> Some []" using i(1,2) assms(3) by (auto simp: table_ok_def)
  obtain pub where p: "checkpointPubKey ed s cps1 n (cp_root_hash c) (cp_timestamp_ms c) (cp_admin_sig c) (stored_pub c) =
      Inr (pub, cps')" "sth = head_of n c pub"
    using assms(1) c by (auto simp: persistCheckpoint_def Let_def head_of_def split: if_splits sum.splits)
  show ?thesis
  proof (cases "stored_pub c = []")
    case True
    with key have "cp_admin_pubkey c = None" by (auto simp: stored_pub_def split: option.splits)
    then have "map_of cps' n = Some (c\<lparr>cp_admin_pubkey := Some (ls_AdminPubKey s)\<rparr>)" "pub = ls_AdminPubKey s"
      using p(1) True i(2) assms(3) by (auto simp: checkpointPubKey_def map_of_map_entry simp del: map_of_eq_Some_iff split: if_splits)
    with p(2) assms(3) show ?thesis by (simp add: settled_head_def head_of_def stored_pub_def)
  next
    case False
    with p i(2) assms(3) show ?thesis by (auto simp: checkpointPubKey_def settled_head_def head_of_def)
  qed
qed

lemma persist_settled:
  assumes "persistCheckpoint ed sign s ts cps (sth_TreeSize sth) root = (Inr sth', cps')" "settled_head cps sth"
  shows "sth' = sth"
  using assms
  by (auto simp: persistCheckpoint_def insert_checkpoint_def Let_def checkpointPubKey_def settled_head_def head_of_def
      split: if_splits)

lemma summarise_rows:
  "summarise ed s cps rows = (Inr out, cps') \<Longrightarrow> x \<in> set out \<Longrightarrow>
   \<exists>n c pub. (n, c) \<in> set rows \<and> STH.truncate x = head_of n c pub \<and> (stored_pub c \<noteq> [] \<longrightarrow> pub = stored_pub c)"
proof (induction rows arbitrary: cps out)
  case (Cons row rows)
  obtain n c where row: "row = (n, c)" by fastforce
  obtain pub cps1 out1 where p: "checkpointPubKey ed s cps n (cp_root_hash c) (cp_timestamp_ms c) (cp_admin_sig c) (stored_pub c) =
      Inr (pub, cps1)" "summarise ed s cps1 rows = (Inr out1, cps')"
    "out = \<lparr>sth_TreeSize = n, sth_RootHash = hex_encode (cp_root_hash c), sth_TimestampMS = cp_timestamp_ms c,
       sth_AdminSig = hex_encode (cp_admin_sig c), sth_AdminPubKey = hex_encode pub,
       cs_HasOTSReceipt = (cp_ots_receipt c \<noteq> None)\<rparr> # out1"
    using Cons.prems(1) row by (auto simp: result_simps split: sum.splits prod.splits)
  have "stored_pub c \<noteq> [] \<longrightarrow> pub = stored_pub c" using p(1) by (auto simp: checkpointPubKey_def)
  with Cons.IH [OF p(2)] Cons.prems(2) p(3) row show ?case by (fastforce simp: head_of_def STH.defs)
qed simp

lemma Checkpoints_settled:
  assumes "Checkpoints ed s cps limit = (Inr out, cps')" "x \<in> set out" "sth_TreeSize x = sth_TreeSize sth"
    and "table_ok cps" "settled_head cps sth"
  shows "STH.truncate x = sth"
proof -
  obtain rows where rows: "summarise ed s cps rows = (Inr out, cps')" "set rows \<subseteq> set cps"
  proof
    let ?rows = "\<lambda>k. take (nat k) (rev (sort_key fst cps))"
    let ?k = "if limit \<le> 0 \<or> limit > 500 then 50 else limit"
    show "summarise ed s cps (?rows ?k) = (Inr out, cps')" using assms(1) by (simp only: Checkpoints_def Let_def)
    show "set (?rows ?k) \<subseteq> set cps" by (auto dest: in_set_takeD)
  qed
  obtain n c pub where x: "(n, c) \<in> set cps" "STH.truncate x = head_of n c pub" "stored_pub c \<noteq> [] \<longrightarrow> pub = stored_pub c"
    using summarise_rows [OF rows(1) assms(2)] rows(2) by blast
  have "n = sth_TreeSize sth" using arg_cong [OF x(2), of sth_TreeSize] assms(3) by (simp add: head_of_def STH.defs)
  moreover have "map_of cps n = Some c" using x(1) assms(4) by (simp add: table_ok_def)
  ultimately show ?thesis using x(2,3) assms(5) by (auto simp: settled_head_def)
qed

text \<open>
  Claim C17. No two faces: once the service has handed out a tree head for a size, every tree head that
  it, or any other service on the same table, hands out for that size ever after is the same one,
  signature, time and key included, and the list of checkpoints shows that one too: whatever tree
  heads of this and of other sizes were made, listed and anchored in between, by services with
  whatever keys, even if the transactions were tampered with. (A service has a key, a size has one
  row, and no row has an empty key where \<open>NULL\<close> is meant.)
\<close>

theorem checkpoint_is_final:
  assumes "CurrentSTH ed sign s1 db1 t1 cps = (Inr sth, s1', cps1)" "ls_AdminPubKey s1 \<noteq> []" "table_ok cps"
    and "(checkpoint_step ed sign)\<^sup>*\<^sup>* cps1 cps2"
  shows "(fst (CurrentSTH ed sign s2 db2 t2 cps2) = Inr sth' \<and> sth_TreeSize sth' = sth_TreeSize sth \<longrightarrow> sth' = sth) \<and>
    (fst (Checkpoints ed s2 cps2 limit) = Inr out \<and> x \<in> set out \<and> sth_TreeSize x = sth_TreeSize sth \<longrightarrow>
      STH.truncate x = sth)"
proof -
  obtain s n root where "persistCheckpoint ed sign s t1 cps n root = (Inr sth, cps1)" "ls_AdminPubKey s \<noteq> []"
    using CurrentSTH_persists [OF assms(1)] assms(2) by auto
  then have "table_ok cps1 \<and> settled_head cps1 sth" using persist_settles persist_kept assms(3) by blast
  then have ok: "table_ok cps2" "settled_head cps2 sth" using checkpoint_steps_kept [OF assms(4)] by auto
  have "sth' = sth" if "CurrentSTH ed sign s2 db2 t2 cps2 = (Inr sth', s', cps3)" "sth_TreeSize sth' = sth_TreeSize sth"
    for s' cps3
  proof -
    note h = that
    obtain s n root where p: "persistCheckpoint ed sign s t2 cps2 n root = (Inr sth', cps3)"
      using CurrentSTH_persists [OF h(1)] by blast
    then have "sth_TreeSize sth' = n" by (auto simp: persistCheckpoint_def Let_def split: if_splits sum.splits prod.splits)
    with p h(2) persist_settled ok(2) show ?thesis by metis
  qed
  then show ?thesis using Checkpoints_settled ok by (metis fst_conv prod.collapse)
qed

text \<open>A tree head made at time 5, then anchored; asked again at time 9, the service repeats it.\<close>

definition sample_row :: checkpoint where
  "sample_row = \<lparr>cp_root_hash = Root [ZeroHash], cp_timestamp_ms = 5, cp_admin_sig = zero_key @ zero_key,
     cp_admin_pubkey = Some zero_key, cp_ots_receipt = None\<rparr>"

lemma sample_heads:
  obtains s5 s9 where "CurrentSTH toy_ed toy_sign sample_service sample_db 5 [] = (Inr (head_of 1 sample_row zero_key), s5, [(1, sample_row)])"
    "CurrentSTH toy_ed toy_sign sample_service sample_db 9 [(1, sample_row\<lparr>cp_ots_receipt := r\<rparr>)] =
       (Inr (head_of 1 sample_row zero_key), s9, [(1, sample_row\<lparr>cp_ots_receipt := r\<rparr>)])"
proof -
  obtain s' where s': "snapshot_of sample_service sample_db (-1) = (Inr (snap_at sample_db 1), s')"
    "ls_AdminPubKey s' = zero_key" "ls_AdminPrivKey s' = zero_key"
    using snapshot_of_snap [OF sample_log(1,3), of "-1"] by (auto simp: resolved_def sample_service_def)
  have snap: "ms_TreeSize (snap_at sample_db 1) = 1" "ms_RootHash (snap_at sample_db 1) = Root [ZeroHash]"
    using sample_hashes by (simp_all add: snap_at_def Let_def take_map [symmetric])
  show thesis
    using s' snap
    by (intro that [of s' s'])
      (simp_all add: CurrentSTH_def persistCheckpoint_def insert_checkpoint_def checkpointPubKey_def sample_row_def
        stored_pub_def head_of_def toy_sign_def zero_key_def Let_def)
qed

theorem checkpoint_is_final_witness:
  "\<exists>sth cps1 cps2. fst (CurrentSTH toy_ed toy_sign sample_service sample_db 5 []) = Inr sth \<and>
     snd (snd (CurrentSTH toy_ed toy_sign sample_service sample_db 5 [])) = cps1 \<and>
     AnchorCheckpoint cps1 1 ''receipt'' = Inr cps2 \<and> sth_TimestampMS sth = 5 \<and>
     fst (CurrentSTH toy_ed toy_sign sample_service sample_db 9 cps2) = Inr sth"
proof -
  obtain s5 s9 where a: "CurrentSTH toy_ed toy_sign sample_service sample_db 5 [] = (Inr (head_of 1 sample_row zero_key), s5, [(1, sample_row)])"
    and b: "CurrentSTH toy_ed toy_sign sample_service sample_db 9 [(1, sample_row\<lparr>cp_ots_receipt := Some ''receipt''\<rparr>)] =
       (Inr (head_of 1 sample_row zero_key), s9, [(1, sample_row\<lparr>cp_ots_receipt := Some ''receipt''\<rparr>)])"
    by (rule sample_heads)
  have c: "AnchorCheckpoint [(1, sample_row)] 1 ''receipt'' = Inr [(1, sample_row\<lparr>cp_ots_receipt := Some ''receipt''\<rparr>)]"
    by (simp add: AnchorCheckpoint_def)
  have steps: "(checkpoint_step toy_ed toy_sign)\<^sup>*\<^sup>* [(1, sample_row)] [(1, sample_row\<lparr>cp_ots_receipt := Some ''receipt''\<rparr>)]"
    by (rule r_into_rtranclp) (rule checkpoint_step.anchored [OF c])
  have "ls_AdminPubKey sample_service \<noteq> []" by (simp add: sample_service_def zero_key_def)
  from checkpoint_is_final [OF a this _ steps, of sample_service sample_db 9 "head_of 1 sample_row zero_key"]
  show ?thesis using a b c by (simp add: table_ok_def head_of_def sample_row_def)
qed

end
