(* ===== verification/Migrate.thy ===== *)
theory Migrate
  imports PgStore "HOL-Library.List_Lexorder" "HOL-Library.Char_ord"
begin

text \<open>
  \<open>PGStore.Migrate\<close>: the migration files are applied in the order of their names, each in a
  transaction with its row in \<open>schema_migrations\<close>. What a file does to the schema is the parameter
  \<open>exec\<close>, \<open>None\<close> for an error of its SQL; the schema that the files make is what the tables and
  constraints of \<open>PgStore\<close> express. The state is the names that are recorded, and the schema.
\<close>

text \<open>A directory entry: its name, and whether it is a directory.\<close>

type_synonym entry = "bytes \<times> bool"

definition isMigrationFile :: "entry \<Rightarrow> bool" where
  "isMigrationFile e \<longleftrightarrow>
     (case e of (name, dir) \<Rightarrow> \<not> dir \<and> take 1 name \<noteq> ''.'' \<and> drop (length name - 4) name = ''.sql'')"

fun migrate_files :: "(bytes \<Rightarrow> 'd \<Rightarrow> 'd option) \<Rightarrow> bytes list \<Rightarrow> bytes list \<times> 'd \<Rightarrow> (err + unit) \<times> (bytes list \<times> 'd)" where
  "migrate_files exec [] s = (Inr (), s)"
| "migrate_files exec (name # files) (applied, db) =
     (if name \<in> set applied then migrate_files exec files (applied, db)
      else case exec name db of
        None \<Rightarrow> (Inl (Errorf ''apply''), (applied, db))
      | Some db \<Rightarrow> migrate_files exec files (applied @ [name], db))"

definition Migrate :: "(bytes \<Rightarrow> 'd \<Rightarrow> 'd option) \<Rightarrow> entry list \<Rightarrow> bytes list \<times> 'd \<Rightarrow> (err + unit) \<times> (bytes list \<times> 'd)" where
  "Migrate exec entries s = migrate_files exec (sort (map fst (filter isMigrationFile entries))) s"

text \<open>A file is applied once, in order, and a run that failed is taken up where it stopped.\<close>

lemma migrate_files_recorded:
  "set files \<subseteq> set (fst s) \<Longrightarrow> migrate_files exec files s = (Inr (), s)"
  by (induction files) (cases s; auto)+

lemma migrate_files_all:
  "migrate_files exec files s = (Inr (), s') \<Longrightarrow> set (fst s') = set (fst s) \<union> set files"
proof (induction exec files s rule: migrate_files.induct)
  case (2 exec name files applied db)
  then show ?case by (cases "name \<in> set applied"; cases "exec name db") auto
qed simp

lemma migrate_files_keeps:
  "migrate_files exec files s = (r, s') \<Longrightarrow> set (fst s) \<subseteq> set (fst s')"
proof (induction exec files s rule: migrate_files.induct)
  case (2 exec name files applied db)
  then show ?case by (cases "name \<in> set applied"; cases "exec name db") auto
qed simp

lemma migrate_files_resume:
  assumes "distinct files" "set applied \<inter> set files = {}"
    and "migrate_files exec files (applied, db) = (r, s')" "\<And>n d d'. exec n d = Some d' \<Longrightarrow> exec' n d = Some d'"
  shows "migrate_files exec' files s' = migrate_files exec' files (applied, db)"
  using assms(1-3)
proof (induction files arbitrary: applied db)
  case (Cons name files)
  then have new: "name \<notin> set applied" by auto
  show ?case
  proof (cases "exec name db")
    case None
    with Cons.prems(3) new show ?thesis by auto
  next
    case (Some db1)
    with Cons.prems new have run: "migrate_files exec files (applied @ [name], db1) = (r, s')" by simp
    obtain as d where s': "s' = (as, d)" by fastforce
    from migrate_files_keeps [OF run] s' have "name \<in> set as" by simp
    moreover have "migrate_files exec' files s' = migrate_files exec' files (applied @ [name], db1)"
      by (rule Cons.IH [OF _ _ run]) (use Cons.prems new in auto)
    ultimately show ?thesis using new assms(4) [OF Some] s' by simp
  qed
qed auto

text \<open>
  Migrating is idempotent, and a run that failed half way, followed by one with the error repaired, ends
  as the repaired run alone would have.
\<close>

theorem Migrate_once:
  assumes "Migrate exec entries s = (Inr (), s')"
  shows "Migrate exec' entries s' = (Inr (), s') \<and>
    set (fst s') = set (fst s) \<union> fst ` set (filter isMigrationFile entries)"
  using migrate_files_all [of exec _ s s'] migrate_files_recorded [of _ s' exec'] assms by (auto simp: Migrate_def)

theorem Migrate_resumes:
  assumes "distinct (map fst entries)" "Migrate exec entries ([], db) = (r, s')"
    and "\<And>n d d'. exec n d = Some d' \<Longrightarrow> exec' n d = Some d'"
  shows "Migrate exec' entries s' = Migrate exec' entries ([], db)"
proof -
  have "distinct (map fst (filter isMigrationFile entries))" using assms(1) by (induction entries) auto
  then show ?thesis
    using migrate_files_resume [of _ "[]" exec db r s' exec'] assms(2,3) by (simp add: Migrate_def)
qed

end
