(* ===== verification/Spec2Isabelle.thy ===== *)
theory Spec2Isabelle
  imports MerkleProperties LedgerProperties LogProperties AuthProperties AdminProperties VerifyComplete SidecarProperties CheckpointProperties Migrate
begin

text \<open>
  Verification development of the points ledger, the sidecar of a Discourse forum
  (\<open>src/ledger/sidecar\<close>). Users hold points; every movement is a signed transaction, and all of them
  form a hash chain whose hashes are the leaves of an RFC 6962 Merkle tree with signed tree heads.

  \<^bold>\<open>The program.\<close> \<open>internal/ledger\<close> validates and applies transactions over the interface \<open>Store\<close>, with
  one implementation in PostgreSQL (\<open>internal/store\<close>) and one in memory. \<open>internal/txlog\<close> reads the
  transactions table as a log, on \<open>internal/merkle\<close>. \<open>internal/api\<close> serves users, \<open>internal/auth\<close> signs
  them on with Discourse, \<open>internal/rewards\<close> pays points for events of the forum, \<open>internal/admin\<close> is the
  page of the administrator, who can anchor a tree head with a time-stamping calendar
  (\<open>internal/ots\<close>). \<open>cmd/ledger-sidecar\<close> configures and starts them. \<open>cmd/ledger-admin\<close> has the commands
  of the operator, \<open>cmd/ledger-verify\<close> audits a server from outside. All of them share the database; a
  server also keeps the snapshot of the log and the buckets of the rate limiter in memory.

  \<^bold>\<open>Go's own ground.\<close> \<open>Prelude\<close>: bytes are characters, an \<open>error\<close> is a value with its message
  and what \<open>errors.Is\<close> finds in it, a fallible function returns a sum, and \<open>int64\<close> is \<open>int\<close> brought into
  range by \<open>i64\<close>. \<open>Sha256\<close> is an executable SHA-256 (\<open>ShaEval\<close> evaluates it by rewriting for the
  witnesses), \<open>Encoding\<close> hex and base64, \<open>Json\<close> the decoder and \<open>JsonPrint\<close> the encoder
  of \<open>encoding/json\<close>, with the round trip between them. \<open>Http\<close> has requests and responses. The JSON parser
  runs on fuel, twice the length of the input and two, which is more than the calls it can make,
  because each pair of calls consumes a byte; it stops at depth 10000 as Go does.

  \<^bold>\<open>Merkle tree.\<close> \<open>Merkle\<close> has \<open>internal/merkle/tree.go\<close> function by function. \<open>MerkleInclusion\<close>,
  \<open>MerkleConsistency\<close> and \<open>MerkleProperties\<close>: proofs that the code produces are accepted; a proof
  that is accepted is true, or two colliding inputs of SHA-256 are exhibited, as long as what is checked
  are hashes of 32 bytes, which the code does not look at (\<open>inclusion_needs_hash_length\<close> and
  \<open>consistency_needs_hash_length\<close> show what it accepts otherwise); the loop of
  \<open>VerifyConsistency\<close> is the recursion of the prover. The splitting loop is a \<open>partial_function\<close>, so that
  returning is a theorem; the sizes are below $2^{62}$, above which the code's doubling overflows.

  \<^bold>\<open>Ledger.\<close> \<open>LedgerTx\<close> (\<open>tx.go\<close>), \<open>LedgerApply\<close> (\<open>apply.go\<close>, over a record of the operations of a
  \<open>Store\<close>), \<open>MemStore\<close> (\<open>memstore.go\<close>) and \<open>PgStore\<close> (\<open>pgstore.go\<close> with the constraints of the migrations;
  a table is a list of rows; \<open>Migrate\<close> is the runner). \<open>LedgerSpec\<close> is the abstract ledger and its step
  relation. \<open>StoreContract\<close> holds the locale \<open>ledger_store\<close> of what \<open>Apply\<close> needs of a store, and
  proves there that \<open>Apply\<close> refines a step; both stores interpret it. \<open>LedgerProperties\<close>: supply, hash
  chain, who may spend, nonces, no replay, agreement of the stores. \<open>room\<close> leaves $2^{62}$
  transactions before a nonce or an index could wrap; the bounds property shows that none does.

  \<^bold>\<open>Log.\<close> \<open>TxLog\<close> (\<open>service.go\<close>) and \<open>LogApi\<close> (\<open>internal/api/log.go\<close>). The snapshot cache is split at its
  lock into the three parts between which other requests run; \<open>LogProperties\<close> shows that
  overlapping requests and writes never make it wrong, that tree heads verify, and that the proofs
  served verify; \<open>CheckpointProperties\<close> that the first tree head of a size stays the only one.

  \<^bold>\<open>Users and administrator.\<close> \<open>Auth\<close> (\<open>discourse_connect.go\<close>), \<open>Api\<close> (\<open>internal/api/server.go\<close>),
  \<open>RateLimit\<close> (\<open>security.go\<close>), \<open>Admin\<close> (\<open>internal/admin/server.go\<close>, \<open>ots/anchor.go\<close>), \<open>History\<close> (the queries that
  list transactions). Their properties are in \<open>AuthProperties\<close>, \<open>ApiProperties\<close>, \<open>AdminProperties\<close>,
  \<open>RateLimit\<close> itself and \<open>HistoryProperties\<close>: what a session, a login, a redirect and a write need,
  what a transfer does, how many requests get through, and what a history lists. The limiter's
  \<open>float64\<close> rounds after every operation, as on amd64; the bound on it allows for requests that
  read the clock in another order than they take the lock.

  \<^bold>\<open>Rewards.\<close> \<open>Payloads\<close> are the payloads that the server signs, \<open>Rewards\<close> is \<open>webhook.go\<close>.
  \<open>TransferFacts\<close> and \<open>RewardsProperties\<close>: a payment does what it says. \<open>RewardRace\<close> interleaves any number
  of workers, other transactions and the clock: at most one payment, unless a worker is slower
  than the 15 minutes after which a reservation is taken to be stale. \<open>WebhookProperties\<close>: only signed
  requests pay, and what is paid stays paid.

  \<^bold>\<open>The whole.\<close> \<open>ServerProperties\<close> closes the operations that write, from the API, the webhook, the
  admin page and the commands, into one relation \<open>served\<close>, and shows its invariants. \<open>AdminCli\<close> with
  \<open>AdminCliProperties\<close>: \<open>init\<close>, \<open>reclaim-invalid\<close> and \<open>distribute\<close>. The pages of the forum's API are read
  until one is empty, with one unit of fuel per page: the feed is a function, and the number
  of its pages is an argument. \<open>Sidecar\<close> and \<open>SidecarProperties\<close>: the configuration, \<open>anchor-sth\<close>, and what
  the smoke test sends. \<open>Verify\<close>, \<open>VerifyProperties\<close> and \<open>VerifyComplete\<close>: the audit tool against an
  arbitrary server; two audits that pass have seen the same log, a server in any state of
  \<open>served\<close> passes, and the loop that fetches the leaves, a \<open>partial_function\<close>, need not end
  against a hostile one. \<open>Samples\<close>, \<open>RewardSample\<close>, \<open>AdminCliSample\<close> and \<open>HistorySample\<close> hold the
  concrete states of the witnesses.

  \<^bold>\<open>Parameters.\<close> \<open>ed\<close> and \<open>sign\<close> are Ed25519; what is relied on is only that a signature made with a key
  verifies under it. \<open>jsonb\<close> is PostgreSQL's cast, \<open>rank\<close> its collation, \<open>exec\<close> the SQL of a migration;
  \<open>post\<close> and \<open>get\<close> are servers elsewhere, \<open>env\<close> the environment. Clocks and random bytes are
  arguments.

  \<^bold>\<open>Conventions.\<close> A handler is a function of the state and the request to the response and the
  state; the members of a JSON answer stand in the order of the code, except where the order is
  hashed. One handler runs after another, save where a theory says that it interleaves them. The columns
  \<open>created_at\<close> and \<open>updated_at\<close>, and failures of the connection to the database, are left out. The
  in-memory store keeps pointers to the caller's transactions, here copies. \<open>TryReserveRewardEvent\<close> runs its
  two statements as one. The server that the audit tool meets in \<open>VerifyComplete\<close> is the log handlers
  without the rate limiter in front of them. Keys of JSON objects are compared with the letters folded
  that can fold to those in use.

  \<^bold>\<open>Not modelled.\<close> \<open>publish-sth\<close> and \<open>internal/discoursebot\<close> format a forum post and send it;
  \<open>internal/explorer\<close>, the static files, the routers and the header middleware are constants and
  glue; \<open>keygen\<close> prints a random key; the smoke test beyond its registration is a script of HTTP calls
  that is never reached; \<open>replayLedger\<close> of the audit tool is never called; the connection pool,
  listening and shutdown are I/O; the theme and the two web pages are JavaScript programs of their own.
\<close>

end
